theory Spec2Isabelle
  imports Complex_Main
begin

section \<open>Errors and the random source\<close>

text \<open>
  Every exception the modelled code can raise is a value. The string of an
  error is the message (for \<open>KeyError\<close> the key, for \<open>AttributeError\<close> the
  attribute) it is raised with, so that two errors of the same Python class
  raised at different places stay different values.
\<close>

datatype error =
    ZeroDivisionError
  | ValueError string
  | AssertionError string
  | IndexError
  | KeyError string
  | AttributeError string
  | RuntimeError string
  | TypeError string
  | OSError string

text \<open>Sequencing of fallible steps: the first error ends the computation.\<close>

definition seq :: "error + 'a \<Rightarrow> ('a \<Rightarrow> error + 'b) \<Rightarrow> error + 'b" where
  "seq m f = (case m of Inl e \<Rightarrow> Inl e | Inr x \<Rightarrow> f x)"

fun traverse :: "('a \<Rightarrow> error + 'b) \<Rightarrow> 'a list \<Rightarrow> error + 'b list" where
  "traverse f [] = Inr []"
| "traverse f (x # xs) = seq (f x) (\<lambda>y. seq (traverse f xs) (\<lambda>ys. Inr (y # ys)))"

text \<open>
  The global generator \<open>np.random\<close> is a state: here the sequence of raw draws
  still to come, \<open>rng k\<close> being the \<open>k\<close>-th of them. \<open>np.random.randint(low, high,
  size=n)\<close> consumes \<open>n\<close> draws and maps each into \<open>[low, high)\<close>; every array of
  values of that interval is the result for some generator state. numpy returns
  the empty array for \<open>n = 0\<close> before it looks at the bounds, and raises
  ValueError for an empty interval otherwise.
\<close>

type_synonym rng = "nat \<Rightarrow> nat"

definition randint :: "int \<Rightarrow> int \<Rightarrow> int \<Rightarrow> rng \<Rightarrow> error + (int list \<times> rng)" where
  "randint low high n rng =
     (if n < 0 then Inl (ValueError ''negative dimensions are not allowed'')
      else if n = 0 then Inr ([], rng)
      else if high \<le> low then Inl (ValueError ''low >= high'')
      else Inr (map (\<lambda>k. low + int (rng k mod nat (high - low))) [0..<nat n],
                \<lambda>k. rng (k + nat n)))"

text \<open>
  Reading \<open>xs[i]\<close> of a numpy array: a negative index counts from the end, an
  index outside \<open>[-n, n)\<close> raises IndexError. \<open>arr[inds, js]\<close> with two index
  arrays reads \<open>arr[inds[k]][js[k]]\<close> for every \<open>k\<close>.
\<close>

definition np_get :: "'x list \<Rightarrow> int \<Rightarrow> error + 'x" where
  "np_get xs i =
     (let n = int (length xs)
      in if - n \<le> i \<and> i < n then Inr (xs ! nat (if i < 0 then i + n else i))
         else Inl IndexError)"

definition np_get2 :: "'x list list \<Rightarrow> int \<Rightarrow> int \<Rightarrow> error + 'x" where
  "np_get2 arr i j = seq (np_get arr i) (\<lambda>row. np_get row j)"

definition index2 :: "'x list list \<Rightarrow> int list \<Rightarrow> int list \<Rightarrow> error + 'x list" where
  "index2 arr inds js = traverse (\<lambda>(i, j). np_get2 arr i j) (zip inds js)"

section \<open>The replay buffers (deep\_pack/common/buffers.py)\<close>

text \<open>
  An observation space, as the buffers use it: the zero observation of its
  shape and dtype (\<open>np.zeros(shape, dtype)\<close>), and its dtype, given by the
  conversion numpy applies to an observation that is stored into an array of
  that dtype (truncation of a float stored as an integer, wrap-around of an
  integer stored as \<open>uint8\<close>; the identity on observations of the dtype).
\<close>

record 'o space =
  zeros :: 'o
  dtype :: "'o \<Rightarrow> 'o"

text \<open>
  The arrays of a buffer are lists indexed by slot, then by environment. One
  environment's observation is a value of type \<open>'o\<close> and one environment's
  action a value of type \<open>'a\<close>; the float32 arrays \<open>rewards\<close>, \<open>dones\<close>,
  \<open>timeouts\<close> and \<open>truth_masks\<close> hold the reals their entries denote.
  \<open>DictReplayBuffer\<close> is a subclass that retypes \<open>observations\<close> and
  \<open>next_observations\<close> as dictionaries of arrays and has a dictionary of spaces
  as its observation space, so the type \<open>'obs\<close> of these two fields and the type
  \<open>'sp\<close> of the space are parameters of the record. \<open>next_observations\<close> is
  \<open>None\<close> when the attribute was never assigned (memory-optimized mode).
\<close>

record ('obs, 'sp, 'a) replay_buffer =
  observation_space :: 'sp
  buffer_size :: int
  n_envs :: int
  pos :: int
  full :: bool
  optimize_memory_usage :: bool
  handle_timeout_termination :: bool
  observations :: 'obs
  next_observations :: "'obs option"
  actions :: "'a list list"
  rewards :: "real list list"
  dones :: "real list list"
  timeouts :: "real list list"
  truth_masks :: "real list list list"

text \<open>
  The space of the natural numbers with a dtype that holds each of them, for
  examples.
\<close>

abbreviation nat_space :: "nat space" where
  "nat_space \<equiv> \<lparr> zeros = 0, dtype = \<lambda>x. x \<rparr>"

text \<open>
  A space of integers with the dtype \<open>uint8\<close>: an integer array stored into a
  \<open>uint8\<close> array wraps around modulo 256.
\<close>

abbreviation uint8_space :: "int space" where
  "uint8_space \<equiv> \<lparr> zeros = 0, dtype = \<lambda>x. x mod 256 \<rparr>"

text \<open>The objects of the two classes.\<close>

type_synonym ('o, 'a) ReplayBuffer = "('o list list, 'o space, 'a) replay_buffer"

type_synonym ('o, 'a) DictReplayBuffer =
  "((string \<times> 'o list list) list, (string \<times> 'o space) list, 'a) replay_buffer"

text \<open>
  \<open>np.zeros((rows, cols, ...))\<close> with \<open>z\<close> the zero array of the remaining
  dimensions; numpy raises ValueError for a negative dimension.
\<close>

definition np_zeros :: "int \<Rightarrow> int \<Rightarrow> 'x \<Rightarrow> error + 'x list list" where
  "np_zeros rows cols z =
     (if rows < 0 \<or> cols < 0 then Inl (ValueError ''negative dimensions are not allowed'')
      else Inr (replicate (nat rows) (replicate (nat cols) z)))"

definition floordiv :: "int \<Rightarrow> int \<Rightarrow> error + int" where
  "floordiv a b = (if b = 0 then Inl ZeroDivisionError else Inr (a div b))"

definition incompatible_flags :: error where
  "incompatible_flags = ValueError
     ''ReplayBuffer does not support optimize_memory_usage = True and handle_timeout_termination = True simultaneously.''"

text \<open>
  \<open>ReplayBuffer.__init__\<close>. The action space is given by \<open>act0\<close>, the zero
  action, and \<open>action_n\<close>, the number of discrete actions. The base class
  stores the observation space and sets \<open>pos = 0\<close> and \<open>full = False\<close>. The
  arrays \<open>observations\<close> and \<open>next_observations\<close> are allocated with the dtype
  of the observation space. The memory check through psutil only warns and is
  left out.
\<close>

definition ReplayBuffer_init ::
  "int \<Rightarrow> 'o space \<Rightarrow> 'a \<Rightarrow> nat \<Rightarrow> int \<Rightarrow> bool \<Rightarrow> bool
     \<Rightarrow> error + ('o, 'a) ReplayBuffer" where
  "ReplayBuffer_init buffer_size' observation_space' act0 action_n n_envs'
       optimize_memory_usage' handle_timeout_termination' =
     seq (floordiv buffer_size' n_envs') (\<lambda>q.
       let slots = max q 1 in
       if optimize_memory_usage' \<and> handle_timeout_termination' then Inl incompatible_flags
       else
         seq (np_zeros slots n_envs' (zeros observation_space')) (\<lambda>observations'.
         seq (if \<not> optimize_memory_usage'
              then seq (np_zeros slots n_envs' (zeros observation_space')) (\<lambda>z. Inr (Some z))
              else Inr None) (\<lambda>next_observations'.
         seq (np_zeros slots n_envs' act0) (\<lambda>actions'.
         seq (np_zeros slots n_envs' (0::real)) (\<lambda>rewards'.
         seq (np_zeros slots n_envs' (0::real)) (\<lambda>dones'.
         seq (np_zeros slots n_envs' (0::real)) (\<lambda>timeouts'.
         seq (np_zeros slots n_envs' (replicate action_n (0::real))) (\<lambda>truth_masks'.
           Inr \<lparr> observation_space = observation_space',
                 buffer_size = slots, n_envs = n_envs', pos = 0, full = False,
                 optimize_memory_usage = optimize_memory_usage',
                 handle_timeout_termination = handle_timeout_termination',
                 observations = observations', next_observations = next_observations',
                 actions = actions', rewards = rewards', dones = dones',
                 timeouts = timeouts', truth_masks = truth_masks' \<rparr>))))))))"

text \<open>
  \<open>info.get("TimeLimit.truncated", False)\<close>, stored into the float32 array
  \<open>timeouts\<close>: 1 for True, 0 for False.
\<close>

definition timeout_flag :: "(string \<rightharpoonup> bool) \<Rightarrow> real" where
  "timeout_flag info =
     (case info ''TimeLimit.truncated'' of None \<Rightarrow> 0 | Some t \<Rightarrow> if t then 1 else 0)"

text \<open>
  \<open>ReplayBuffer.add\<close>, one line per assignment of the source, the
  assigned arrays collected into one update of the object. Each argument is
  the array of one value per environment, of the shape the buffer was
  allocated for (the reshapes of the source change no value). \<open>pos\<close> is a
  valid slot of every buffer that was constructed, so the writes are list
  updates; \<open>next_observations\<close> is allocated whenever
  \<open>optimize_memory_usage\<close> is False. What is assigned to \<open>observations\<close> and
  \<open>next_observations\<close> is stored in their dtype, that of the observation
  space; the other arguments are taken in the dtype of their arrays.
\<close>

definition ReplayBuffer_add ::
  "('o, 'a) ReplayBuffer \<Rightarrow> 'o list \<Rightarrow> 'o list \<Rightarrow> 'a list \<Rightarrow> real list \<Rightarrow> real list
     \<Rightarrow> (string \<rightharpoonup> bool) list \<Rightarrow> real list list \<Rightarrow> ('o, 'a) ReplayBuffer" where
  "ReplayBuffer_add self obs next_obs action reward done infos truth_mask =
     (let p = nat (pos self);
          astype = map (dtype (observation_space self));
          observations' = (observations self)[p := astype obs];
          observations' =
            (if optimize_memory_usage self
             then observations'[nat ((pos self + 1) mod buffer_size self) := astype next_obs]
             else observations');
          next_observations' =
            (if optimize_memory_usage self then next_observations self
             else map_option (\<lambda>a. a[p := astype next_obs]) (next_observations self));
          actions' = (actions self)[p := action];
          rewards' = (rewards self)[p := reward];
          dones' = (dones self)[p := done];
          timeouts' =
            (if handle_timeout_termination self
             then (timeouts self)[p := map timeout_flag infos]
             else timeouts self);
          truth_masks' = (truth_masks self)[p := truth_mask];
          pos' = pos self + 1
      in self\<lparr> observations := observations', next_observations := next_observations',
                actions := actions', rewards := rewards', dones := dones',
                timeouts := timeouts', truth_masks := truth_masks',
                full := (if pos' = buffer_size self then True else full self),
                pos := (if pos' = buffer_size self then 0 else pos') \<rparr>)"

text \<open>The arguments of one call of \<open>add\<close>, and a sequence of calls.\<close>

record ('ob, 'a) add_call =
  call_obs :: 'ob
  call_next_obs :: 'ob
  call_action :: "'a list"
  call_reward :: "real list"
  call_done :: "real list"
  call_infos :: "(string \<rightharpoonup> bool) list"
  call_truth_mask :: "real list list"

definition ReplayBuffer_add_call ::
  "('o, 'a) ReplayBuffer \<Rightarrow> ('o list, 'a) add_call \<Rightarrow> ('o, 'a) ReplayBuffer" where
  "ReplayBuffer_add_call self c =
     ReplayBuffer_add self (call_obs c) (call_next_obs c) (call_action c) (call_reward c)
       (call_done c) (call_infos c) (call_truth_mask c)"

definition ReplayBuffer_adds ::
  "('o, 'a) ReplayBuffer \<Rightarrow> ('o list, 'a) add_call list \<Rightarrow> ('o, 'a) ReplayBuffer" where
  "ReplayBuffer_adds self cs = foldl ReplayBuffer_add_call self cs"

subsection \<open>Sampling\<close>

text \<open>
  The named tuples \<open>ReplayBufferSamples\<close> and \<open>DictReplayBufferSamples\<close>
  (\<open>'b\<close> is the type of a batch of observations). \<open>to_torch\<close> changes no value.
\<close>

record ('b, 'a) buffer_samples =
  s_observations :: 'b
  s_actions :: "'a list"
  s_next_observations :: 'b
  s_dones :: "real list list"
  s_rewards :: "real list list"
  s_truth_masks :: "real list list"

text \<open>
  The normalizing environment wrapper of the host framework, and the base
  class's \<open>_normalize_obs\<close> and \<open>_normalize_reward\<close>: the identity when no
  environment is passed.
\<close>

record 'b vec_normalize =
  normalize_obs :: "'b \<Rightarrow> 'b"
  normalize_reward :: "real list list \<Rightarrow> real list list"

definition BaseBuffer_normalize_obs :: "'b vec_normalize option \<Rightarrow> 'b \<Rightarrow> 'b" where
  "BaseBuffer_normalize_obs env obs = (case env of None \<Rightarrow> obs | Some e \<Rightarrow> normalize_obs e obs)"

definition BaseBuffer_normalize_reward ::
  "'b vec_normalize option \<Rightarrow> real list list \<Rightarrow> real list list" where
  "BaseBuffer_normalize_reward env r = (case env of None \<Rightarrow> r | Some e \<Rightarrow> normalize_reward e r)"

text \<open>\<open>x.reshape(-1, 1)\<close> of a vector: a column.\<close>

definition column :: "'x list \<Rightarrow> 'x list list" where
  "column xs = map (\<lambda>x. [x]) xs"

text \<open>The terminal signal: \<open>dones * (1 - timeouts)\<close>, elementwise.\<close>

definition terminal_signal :: "real list \<Rightarrow> real list \<Rightarrow> real list" where
  "terminal_signal ds ts = map (\<lambda>(d, t). d * (1 - t)) (zip ds ts)"

definition ReplayBuffer_get_samples ::
  "('o, 'a) ReplayBuffer \<Rightarrow> int list \<Rightarrow> 'o list vec_normalize option \<Rightarrow> rng
     \<Rightarrow> error + (('o list, 'a) buffer_samples \<times> rng)" where
  "ReplayBuffer_get_samples self batch_inds env rng =
     seq (randint 0 (n_envs self) (int (length batch_inds)) rng) (\<lambda>(env_indices, rng').
     seq (if optimize_memory_usage self
          then index2 (observations self)
                 (map (\<lambda>i. (i + 1) mod buffer_size self) batch_inds) env_indices
          else (case next_observations self of
                  None \<Rightarrow> Inl (AttributeError ''next_observations'')
                | Some a \<Rightarrow> index2 a batch_inds env_indices)) (\<lambda>next_obs.
     seq (index2 (observations self) batch_inds env_indices) (\<lambda>obs.
     seq (index2 (actions self) batch_inds env_indices) (\<lambda>acts.
     seq (index2 (dones self) batch_inds env_indices) (\<lambda>ds.
     seq (index2 (timeouts self) batch_inds env_indices) (\<lambda>ts.
     seq (index2 (rewards self) batch_inds env_indices) (\<lambda>rs.
     seq (index2 (truth_masks self) batch_inds env_indices) (\<lambda>ms.
       Inr (\<lparr> s_observations = BaseBuffer_normalize_obs env obs,
               s_actions = acts,
               s_next_observations = BaseBuffer_normalize_obs env next_obs,
               s_dones = column (terminal_signal ds ts),
               s_rewards = BaseBuffer_normalize_reward env (column rs),
               s_truth_masks = ms \<rparr>, rng')))))))))"

text \<open>
  The batch indices \<open>ReplayBuffer.sample\<close> draws in memory-optimized mode (its
  local \<open>batch_inds\<close>), and those of the base class's \<open>sample\<close>, which the
  other mode and \<open>DictReplayBuffer.sample\<close> call.
\<close>

definition ReplayBuffer_batch_inds ::
  "('obs, 'sp, 'a) replay_buffer \<Rightarrow> int \<Rightarrow> rng \<Rightarrow> error + (int list \<times> rng)" where
  "ReplayBuffer_batch_inds self batch_size rng =
     (if full self
      then seq (randint 1 (buffer_size self) batch_size rng) (\<lambda>(r, rng').
             Inr (map (\<lambda>x. (x + pos self) mod buffer_size self) r, rng'))
      else randint 0 (pos self) batch_size rng)"

definition BaseBuffer_batch_inds ::
  "('obs, 'sp, 'a) replay_buffer \<Rightarrow> int \<Rightarrow> rng \<Rightarrow> error + (int list \<times> rng)" where
  "BaseBuffer_batch_inds self batch_size rng =
     (let upper_bound = (if full self then buffer_size self else pos self)
      in randint 0 upper_bound batch_size rng)"

definition ReplayBuffer_sample ::
  "('o, 'a) ReplayBuffer \<Rightarrow> int \<Rightarrow> 'o list vec_normalize option \<Rightarrow> rng
     \<Rightarrow> error + (('o list, 'a) buffer_samples \<times> rng)" where
  "ReplayBuffer_sample self batch_size env rng =
     (if \<not> optimize_memory_usage self
      then seq (BaseBuffer_batch_inds self batch_size rng) (\<lambda>(batch_inds, rng').
             ReplayBuffer_get_samples self batch_inds env rng')
      else seq (ReplayBuffer_batch_inds self batch_size rng) (\<lambda>(batch_inds, rng').
             ReplayBuffer_get_samples self batch_inds env rng'))"

subsection \<open>The dictionary-observation buffer\<close>

text \<open>
  A dictionary of arrays is an association list in the order of its keys. The
  observation space is the list of its keys, each with its subspace; the
  assertion that \<open>obs_shape\<close> is a dictionary holds for every such space.
\<close>

definition no_optimize :: error where
  "no_optimize = AssertionError ''DictReplayBuffer does not support optimize_memory_usage''"

definition dict_zeros ::
  "int \<Rightarrow> int \<Rightarrow> (string \<times> 'o space) list \<Rightarrow> error + (string \<times> 'o list list) list" where
  "dict_zeros rows cols spaces =
     traverse (\<lambda>(key, s). seq (np_zeros rows cols (zeros s)) (\<lambda>arr. Inr (key, arr))) spaces"

definition DictReplayBuffer_init ::
  "int \<Rightarrow> (string \<times> 'o space) list \<Rightarrow> 'a \<Rightarrow> nat \<Rightarrow> int \<Rightarrow> bool \<Rightarrow> bool
     \<Rightarrow> error + ('o, 'a) DictReplayBuffer" where
  "DictReplayBuffer_init buffer_size' observation_space' act0 action_n n_envs'
       optimize_memory_usage' handle_timeout_termination' =
     seq (floordiv buffer_size' n_envs') (\<lambda>q.
       let slots = max q 1 in
       if optimize_memory_usage' then Inl no_optimize
       else
         seq (dict_zeros slots n_envs' observation_space') (\<lambda>observations'.
         seq (dict_zeros slots n_envs' observation_space') (\<lambda>next_observations'.
         seq (np_zeros slots n_envs' act0) (\<lambda>actions'.
         seq (np_zeros slots n_envs' (0::real)) (\<lambda>rewards'.
         seq (np_zeros slots n_envs' (0::real)) (\<lambda>dones'.
         seq (np_zeros slots n_envs' (0::real)) (\<lambda>timeouts'.
         seq (np_zeros slots n_envs' (replicate action_n (0::real))) (\<lambda>truth_masks'.
           Inr \<lparr> observation_space = observation_space',
                 buffer_size = slots, n_envs = n_envs', pos = 0, full = False,
                 optimize_memory_usage = optimize_memory_usage',
                 handle_timeout_termination = handle_timeout_termination',
                 observations = observations', next_observations = Some next_observations',
                 actions = actions', rewards = rewards', dones = dones',
                 timeouts = timeouts', truth_masks = truth_masks' \<rparr>))))))))"

text \<open>
  The loop over the keys of a dictionary of arrays, writing \<open>obs[key]\<close> into
  slot \<open>p\<close> of each, in the dtype of the array, which is that of the subspace
  \<open>observation_space.spaces[key]\<close>; the loop looks the subspace up first, then
  \<open>obs[key]\<close>, and a missing key raises KeyError.
\<close>

fun write_obs ::
  "(string \<times> 'o space) list \<Rightarrow> (string \<times> 'o list list) list \<Rightarrow> nat \<Rightarrow> (string \<rightharpoonup> 'o list)
     \<Rightarrow> error + (string \<times> 'o list list) list" where
  "write_obs spaces [] p obs = Inr []"
| "write_obs spaces ((key, arr) # rest) p obs =
     (case map_of spaces key of
        None \<Rightarrow> Inl (KeyError key)
      | Some s \<Rightarrow>
          (case obs key of
             None \<Rightarrow> Inl (KeyError key)
           | Some v \<Rightarrow>
               seq (write_obs spaces rest p obs) (\<lambda>rest'.
                 Inr ((key, arr[p := map (dtype s) v]) # rest'))))"

text \<open>
  \<open>DictReplayBuffer.add\<close>. A call that raises returns the error alone: the
  statements after the failing one, among them the update of \<open>pos\<close> and
  \<open>full\<close>, are not executed.
\<close>

definition DictReplayBuffer_add ::
  "('o, 'a) DictReplayBuffer \<Rightarrow> (string \<rightharpoonup> 'o list)
     \<Rightarrow> (string \<rightharpoonup> 'o list) \<Rightarrow> 'a list \<Rightarrow> real list \<Rightarrow> real list
     \<Rightarrow> (string \<rightharpoonup> bool) list \<Rightarrow> real list list
     \<Rightarrow> error + ('o, 'a) DictReplayBuffer" where
  "DictReplayBuffer_add self obs next_obs action reward done infos truth_mask =
     (let p = nat (pos self) in
      seq (write_obs (observation_space self) (observations self) p obs) (\<lambda>observations'.
      seq (case next_observations self of
             None \<Rightarrow> Inl (AttributeError ''next_observations'')
           | Some d \<Rightarrow> write_obs (observation_space self) d p next_obs) (\<lambda>next_observations'.
        let actions' = (actions self)[p := action];
            rewards' = (rewards self)[p := reward];
            dones' = (dones self)[p := done];
            timeouts' =
              (if handle_timeout_termination self
               then (timeouts self)[p := map timeout_flag infos]
               else timeouts self);
            truth_masks' = (truth_masks self)[p := truth_mask];
            pos' = pos self + 1
        in Inr (self\<lparr> observations := observations',
                       next_observations := Some next_observations',
                       actions := actions', rewards := rewards', dones := dones',
                       timeouts := timeouts', truth_masks := truth_masks',
                       full := (if pos' = buffer_size self then True else full self),
                       pos := (if pos' = buffer_size self then 0 else pos') \<rparr>))))"

definition DictReplayBuffer_add_call ::
  "('o, 'a) DictReplayBuffer \<Rightarrow> (string \<rightharpoonup> 'o list, 'a) add_call
     \<Rightarrow> error + ('o, 'a) DictReplayBuffer" where
  "DictReplayBuffer_add_call self c =
     DictReplayBuffer_add self (call_obs c) (call_next_obs c) (call_action c) (call_reward c)
       (call_done c) (call_infos c) (call_truth_mask c)"

fun DictReplayBuffer_adds ::
  "('o, 'a) DictReplayBuffer \<Rightarrow> (string \<rightharpoonup> 'o list, 'a) add_call list
     \<Rightarrow> error + ('o, 'a) DictReplayBuffer" where
  "DictReplayBuffer_adds self [] = Inr self"
| "DictReplayBuffer_adds self (c # cs) =
     seq (DictReplayBuffer_add_call self c) (\<lambda>self'. DictReplayBuffer_adds self' cs)"

definition dict_index2 ::
  "(string \<times> 'o list list) list \<Rightarrow> int list \<Rightarrow> int list \<Rightarrow> error + (string \<times> 'o list) list" where
  "dict_index2 d inds js =
     traverse (\<lambda>(key, arr). seq (index2 arr inds js) (\<lambda>v. Inr (key, v))) d"

definition DictReplayBuffer_get_samples ::
  "('o, 'a) DictReplayBuffer \<Rightarrow> int list
     \<Rightarrow> (string \<times> 'o list) list vec_normalize option \<Rightarrow> rng
     \<Rightarrow> error + (((string \<times> 'o list) list, 'a) buffer_samples \<times> rng)" where
  "DictReplayBuffer_get_samples self batch_inds env rng =
     seq (randint 0 (n_envs self) (int (length batch_inds)) rng) (\<lambda>(env_indices, rng').
     seq (dict_index2 (observations self) batch_inds env_indices) (\<lambda>obs.
     seq (case next_observations self of
            None \<Rightarrow> Inl (AttributeError ''next_observations'')
          | Some d \<Rightarrow> dict_index2 d batch_inds env_indices) (\<lambda>next_obs.
     seq (index2 (actions self) batch_inds env_indices) (\<lambda>acts.
     seq (index2 (dones self) batch_inds env_indices) (\<lambda>ds.
     seq (index2 (timeouts self) batch_inds env_indices) (\<lambda>ts.
     seq (index2 (rewards self) batch_inds env_indices) (\<lambda>rs.
     seq (index2 (truth_masks self) batch_inds env_indices) (\<lambda>ms.
       Inr (\<lparr> s_observations = BaseBuffer_normalize_obs env obs,
               s_actions = acts,
               s_next_observations = BaseBuffer_normalize_obs env next_obs,
               s_dones = column (terminal_signal ds ts),
               s_rewards = BaseBuffer_normalize_reward env (column rs),
               s_truth_masks = ms \<rparr>, rng')))))))))"

definition DictReplayBuffer_sample ::
  "('o, 'a) DictReplayBuffer \<Rightarrow> int
     \<Rightarrow> (string \<times> 'o list) list vec_normalize option \<Rightarrow> rng
     \<Rightarrow> error + (((string \<times> 'o list) list, 'a) buffer_samples \<times> rng)" where
  "DictReplayBuffer_sample self batch_size env rng =
     seq (BaseBuffer_batch_inds self batch_size rng) (\<lambda>(batch_inds, rng').
       DictReplayBuffer_get_samples self batch_inds env rng')"

section \<open>The Q-network policy (deep\_pack/ddqn/policies.py)\<close>

text \<open>
  An observation is a dictionary with the entries \<open>BIN\<close> and \<open>MASK\<close>. The
  q-values of a batch and its mask are tensors of two dimensions, one row per
  observation and one column per action: their shape, and the entry at each
  index. The network itself (\<open>forward\<close>: preprocessing, then \<open>q_net\<close> on the
  \<open>BIN\<close> entry) is a field of the policy.
\<close>

record tensor =
  nrows :: nat
  ncols :: nat
  item :: "nat \<Rightarrow> nat \<Rightarrow> real"

record 'b py_torch_obs =
  obs_bin :: 'b
  obs_mask :: tensor

record 'b q_network =
  forward :: "'b py_torch_obs \<Rightarrow> tensor"
  mask_replace_coef :: int

text \<open>The default of the constructor argument \<open>mask_replace_coef\<close>.\<close>

definition default_mask_replace_coef :: int where
  "default_mask_replace_coef = - 15"

text \<open>
  \<open>th.tensor(rows)\<close> for a list of rows of one length, used to write tensors
  down.
\<close>

definition th_tensor :: "real list list \<Rightarrow> tensor" where
  "th_tensor rows =
     \<lparr> nrows = length rows, ncols = (case rows of [] \<Rightarrow> 0 | r # _ \<Rightarrow> length r),
       item = \<lambda>i j. rows ! i ! j \<rparr>"

text \<open>
  \<open>t == v\<close>: the tensor of the truth values, 1 for True and 0 for False.
\<close>

definition tensor_eq :: "tensor \<Rightarrow> real \<Rightarrow> tensor" where
  "tensor_eq t v = t\<lparr>item := \<lambda>i j. if item t i j = v then 1 else 0\<rparr>"

text \<open>
  Broadcasting: two sizes of a dimension are compatible when they are equal
  or one of them is 1, and the dimension of size 1 is then read at index 0
  throughout. torch raises RuntimeError for sizes that are not compatible.
\<close>

definition broadcast_dim :: "nat \<Rightarrow> nat \<Rightarrow> error + nat" where
  "broadcast_dim a b =
     (if a = b then Inr a
      else if a = 1 then Inr b
      else if b = 1 then Inr a
      else Inl (RuntimeError ''The size of tensor a must match the size of tensor b''))"

definition expanded :: "tensor \<Rightarrow> nat \<Rightarrow> nat \<Rightarrow> real" where
  "expanded t i j = item t (if nrows t = 1 then 0 else i) (if ncols t = 1 then 0 else j)"

text \<open>
  \<open>th.where(condition, input, other)\<close> for two tensors and a number: the
  entry of \<open>input\<close> where \<open>condition\<close> is true, \<open>other\<close> elsewhere, \<open>condition\<close>
  and \<open>input\<close> broadcast against each other.
\<close>

definition th_where :: "tensor \<Rightarrow> tensor \<Rightarrow> real \<Rightarrow> error + tensor" where
  "th_where condition input other =
     seq (broadcast_dim (ncols condition) (ncols input)) (\<lambda>k.
     seq (broadcast_dim (nrows condition) (nrows input)) (\<lambda>r.
       Inr \<lparr> nrows = r, ncols = k,
             item = \<lambda>i j. if expanded condition i j \<noteq> 0 then expanded input i j else other \<rparr>))"

text \<open>
  \<open>argmax\<close> along a row: the index of the first maximal value; torch raises
  IndexError for a row without entries.
\<close>

fun argmax_from :: "real list \<Rightarrow> nat \<Rightarrow> nat \<Rightarrow> real \<Rightarrow> nat" where
  "argmax_from [] i best v = best"
| "argmax_from (x # xs) i best v =
     (if v < x then argmax_from xs (Suc i) i x else argmax_from xs (Suc i) best v)"

definition argmax :: "real list \<Rightarrow> error + nat" where
  "argmax xs = (case xs of [] \<Rightarrow> Inl IndexError | x # rest \<Rightarrow> Inr (argmax_from rest 1 0 x))"


text \<open>
  \<open>t.argmax(dim=1)\<close>: one index per row; torch raises IndexError when the
  tensor has no columns, also when it has no rows.
\<close>

definition tensor_row :: "tensor \<Rightarrow> nat \<Rightarrow> real list" where
  "tensor_row t i = map (item t i) [0..<ncols t]"

definition argmax_dim1 :: "tensor \<Rightarrow> error + nat list" where
  "argmax_dim1 t =
     (if ncols t = 0 then Inl IndexError
      else traverse (\<lambda>i. argmax (tensor_row t i)) [0..<nrows t])"

text \<open>
  \<open>QNetwork._predict\<close>; the \<open>reshape(-1)\<close> of the vector of indices changes
  nothing.
\<close>

definition QNetwork_predict :: "('b, 'z) q_network_scheme \<Rightarrow> 'b py_torch_obs \<Rightarrow> error + nat list" where
  "QNetwork_predict self observation =
     (let q_values = forward self observation in
      seq (th_where (tensor_eq (obs_mask observation) 1) q_values
             (of_int (mask_replace_coef self)))
        (\<lambda>masked_q_values. argmax_dim1 masked_q_values))"

text \<open>
  The network classes of \<open>deep_pack.common.torch_layers\<close>; \<open>OtherNetwork\<close> is
  any other subclass of \<open>BaseNetwork\<close> a caller passes.
\<close>

datatype network_class =
    CnnMlpNetwork1
  | CnnMlpNetwork2
  | CnnMlpNetwork3
  | CnnMlpNetwork4
  | OtherNetwork string

datatype network_arg = NetworkName string | NetworkClass network_class

definition network_aliases :: "(string \<times> network_class) list" where
  "network_aliases =
     [(''CnnMlpNetwork1'', CnnMlpNetwork1),
      (''CnnMlpNetwork2'', CnnMlpNetwork2),
      (''CnnMlpNetwork3'', CnnMlpNetwork3),
      (''CnnMlpNetwork4'', CnnMlpNetwork4)]"

definition get_network_from_name :: "string \<Rightarrow> error + network_class" where
  "get_network_from_name network_name =
     (case map_of network_aliases network_name of
        Some c \<Rightarrow> Inr c
      | None \<Rightarrow> Inl (ValueError (''Policy '' @ network_name @ '' unknown'')))"

text \<open>
  What the constructors call outside this module: the key \<open>BIN\<close> of
  \<open>deep_pack.common.constants\<close>, the constructors of the network classes
  (\<open>network_class(observation_space=..., action_dim=..., **kwargs)\<close>, of
  \<open>deep_pack.common.torch_layers\<close> or of the caller), the forward pass of a
  constructed network on a preprocessed observation, and torch's
  \<open>load_state_dict\<close>. Each constructor may raise.
\<close>

record ('sp, 'b, 'kw, 'net) torch_host =
  BIN :: string
  new_network :: "network_class \<Rightarrow> 'sp \<Rightarrow> int \<Rightarrow> 'kw \<Rightarrow> error + 'net"
  run_network :: "'net \<Rightarrow> 'b py_torch_obs \<Rightarrow> tensor"
  load_state_dict :: "'net \<Rightarrow> 'net \<Rightarrow> error + 'net"

text \<open>
  A constructed \<open>QNetwork\<close>: what \<open>_predict\<close> uses, and the attributes
  \<open>network_class\<close>, \<open>network_kwargs\<close> and \<open>q_net\<close>.
\<close>

record ('b, 'kw, 'net) q_network_object = "'b q_network" +
  qn_network_class :: network_class
  qn_network_kwargs :: "'kw option"
  qn_q_net :: 'net

text \<open>
  \<open>QNetwork.__init__\<close>. The observation space is a dictionary of spaces and
  the action space \<open>Discrete(n)\<close>, given by \<open>n\<close>. The base class stores its
  arguments. In the call that constructs \<open>q_net\<close>, \<open>observation_space[BIN]\<close>
  is evaluated first (KeyError without that key), then \<open>**network_kwargs\<close>
  is unpacked (TypeError for \<open>None\<close>, the default), then the class is called.
\<close>

definition QNetwork_init ::
  "('sp, 'b, 'kw, 'net) torch_host \<Rightarrow> (string \<rightharpoonup> 'sp) \<Rightarrow> int \<Rightarrow> bool \<Rightarrow> network_class
     \<Rightarrow> 'kw option \<Rightarrow> int \<Rightarrow> error + ('b, 'kw, 'net) q_network_object" where
  "QNetwork_init host observation_space' action_space normalize_images network_class'
       network_kwargs' mask_replace_coef' =
     seq (case observation_space' (BIN host) of
            None \<Rightarrow> Inl (KeyError (BIN host))
          | Some s \<Rightarrow> Inr s) (\<lambda>bin_space.
     seq (case network_kwargs' of
            None \<Rightarrow> Inl (TypeError ''argument after ** must be a mapping, not NoneType'')
          | Some kw \<Rightarrow> Inr kw) (\<lambda>kw.
     seq (new_network host network_class' bin_space action_space kw) (\<lambda>net.
       Inr \<lparr> forward = run_network host net, mask_replace_coef = mask_replace_coef',
             qn_network_class = network_class', qn_network_kwargs = network_kwargs',
             qn_q_net = net \<rparr>)))"

text \<open>
  An optimizer class: whether it is \<open>th.optim.Adam\<close>, and its constructor on
  the parameters of a network, a learning rate and keyword arguments.
\<close>

record ('net, 'opt) optimizer_class =
  is_Adam :: bool
  new_optimizer :: "'net \<Rightarrow> real \<Rightarrow> (string \<rightharpoonup> real) \<Rightarrow> error + 'opt"

record ('b, 'kw, 'net, 'opt) dqn_policy =
  network_class :: network_class
  network_kwargs :: "'kw option"
  policy_mask_replace_coef :: int
  optimizer_kwargs :: "string \<rightharpoonup> real"
  q_net :: "('b, 'kw, 'net) q_network_object"
  q_net_target :: "('b, 'kw, 'net) q_network_object"
  optimizer :: 'opt

text \<open>
  \<open>DQNPolicy.make_q_net\<close>: \<open>QNetwork(**self.net_args)\<close>, moved to the
  device of the policy.
\<close>

definition DQNPolicy_make_q_net ::
  "('sp, 'b, 'kw, 'net) torch_host \<Rightarrow> (string \<rightharpoonup> 'sp) \<Rightarrow> int \<Rightarrow> bool \<Rightarrow> network_class
     \<Rightarrow> 'kw option \<Rightarrow> int \<Rightarrow> error + ('b, 'kw, 'net) q_network_object" where
  "DQNPolicy_make_q_net host observation_space' action_space normalize_images network_class'
       network_kwargs' mask_replace_coef' =
     QNetwork_init host observation_space' action_space normalize_images network_class'
       network_kwargs' mask_replace_coef'"

text \<open>
  \<open>DQNPolicy._build\<close> on the attributes the constructor has set: the two
  networks, the copy of the parameters of \<open>q_net\<close> into \<open>q_net_target\<close>, and
  the optimizer on the parameters of \<open>q_net\<close> with the learning rate
  \<open>lr_schedule(1)\<close>. Setting the training mode raises nothing.
\<close>

definition DQNPolicy_build ::
  "('sp, 'b, 'kw, 'net) torch_host \<Rightarrow> (string \<rightharpoonup> 'sp) \<Rightarrow> int \<Rightarrow> (real \<Rightarrow> error + real) \<Rightarrow> bool
     \<Rightarrow> ('net, 'opt) optimizer_class \<Rightarrow> (string \<rightharpoonup> real) \<Rightarrow> network_class \<Rightarrow> 'kw option \<Rightarrow> int
     \<Rightarrow> error + ('b, 'kw, 'net, 'opt) dqn_policy" where
  "DQNPolicy_build host observation_space' action_space lr_schedule normalize_images
       optimizer_class' optimizer_kwargs' network_class' network_kwargs' mask_replace_coef' =
     seq (DQNPolicy_make_q_net host observation_space' action_space normalize_images
            network_class' network_kwargs' mask_replace_coef') (\<lambda>q_net'.
     seq (DQNPolicy_make_q_net host observation_space' action_space normalize_images
            network_class' network_kwargs' mask_replace_coef') (\<lambda>q_net_target'.
     seq (load_state_dict host (qn_q_net q_net_target') (qn_q_net q_net')) (\<lambda>loaded.
     let q_net_target' = q_net_target'\<lparr>forward := run_network host loaded, qn_q_net := loaded\<rparr> in
     seq (lr_schedule 1) (\<lambda>lr.
     seq (new_optimizer optimizer_class' (qn_q_net q_net') lr optimizer_kwargs') (\<lambda>optimizer'.
       Inr \<lparr> network_class = network_class', network_kwargs = network_kwargs',
             policy_mask_replace_coef = mask_replace_coef',
             optimizer_kwargs = optimizer_kwargs',
             q_net = q_net', q_net_target = q_net_target', optimizer = optimizer' \<rparr>)))))"

text \<open>
  \<open>DQNPolicy.__init__\<close>: the resolution of the \<open>network\<close> argument, the
  default of \<open>optimizer_kwargs\<close>, the base class (which stores its arguments),
  and \<open>_build\<close>.
\<close>

definition DQNPolicy_init ::
  "('sp, 'b, 'kw, 'net) torch_host \<Rightarrow> (string \<rightharpoonup> 'sp) \<Rightarrow> int \<Rightarrow> (real \<Rightarrow> error + real) \<Rightarrow> bool
     \<Rightarrow> ('net, 'opt) optimizer_class \<Rightarrow> (string \<rightharpoonup> real) option \<Rightarrow> network_arg \<Rightarrow> 'kw option
     \<Rightarrow> int \<Rightarrow> error + ('b, 'kw, 'net, 'opt) dqn_policy" where
  "DQNPolicy_init host observation_space' action_space lr_schedule normalize_images
       optimizer_class' optimizer_kwargs' network network_kwargs' mask_replace_coef' =
     seq (case network of
            NetworkName name \<Rightarrow> get_network_from_name name
          | NetworkClass c \<Rightarrow> Inr c) (\<lambda>network_class'.
     let optimizer_kwargs' =
           (case optimizer_kwargs' of
              None \<Rightarrow> (if is_Adam optimizer_class' then [''eps'' \<mapsto> 1 / 100000] else Map.empty)
            | Some kwargs \<Rightarrow> kwargs)
     in DQNPolicy_build host observation_space' action_space lr_schedule normalize_images
          optimizer_class' optimizer_kwargs' network_class' network_kwargs' mask_replace_coef')"

section \<open>The metrics callback (deep\_pack/common/callbacks.py)\<close>

text \<open>
  A cell of the CSV file is the name of a field or a metric value (of type
  \<open>'v\<close>), a row a list of cells. A text file opened for writing has the rows
  that reached the file, the rows still in its buffer, and may be closed. Its
  \<open>device\<close> is the operating system's answer to each writing out of the
  buffer still to come: \<open>None\<close> when it takes the rows, an OSError when it
  refuses them (a full disk).
\<close>

datatype 'v cell = Field string | Value 'v

record 'v text_file =
  written :: "'v cell list list"
  pending :: "'v cell list list"
  closed :: bool
  device :: "nat \<Rightarrow> error option"

definition closed_file :: error where
  "closed_file = ValueError ''I/O operation on closed file.''"

text \<open>
  \<open>open(path, "wt")\<close>: the file system refuses (FileNotFoundError,
  PermissionError, IsADirectoryError: an OSError) or gives the file, emptied,
  with the device that will take its writes.
\<close>

definition file_open_w ::
  "(string \<Rightarrow> error + (nat \<Rightarrow> error option)) \<Rightarrow> string \<Rightarrow> error + 'v text_file" where
  "file_open_w fs path =
     seq (fs path) (\<lambda>dev. Inr \<lparr> written = [], pending = [], closed = False, device = dev \<rparr>)"

definition file_write :: "'v text_file \<Rightarrow> 'v cell list \<Rightarrow> error + 'v text_file" where
  "file_write f row =
     (if closed f then Inl closed_file else Inr (f\<lparr>pending := pending f @ [row]\<rparr>))"

definition file_flush :: "'v text_file \<Rightarrow> error + 'v text_file" where
  "file_flush f =
     (if closed f then Inl closed_file
      else if pending f = [] then Inr f
      else (case device f 0 of
              Some e \<Rightarrow> Inl e
            | None \<Rightarrow> Inr (f\<lparr>written := written f @ pending f, pending := [],
                              device := \<lambda>k. device f (Suc k)\<rparr>)))"

text \<open>
  \<open>close\<close> writes the buffer out and closes; on a closed file it does
  nothing.
\<close>

definition file_close :: "'v text_file \<Rightarrow> error + 'v text_file" where
  "file_close f =
     (if closed f then Inr f else seq (file_flush f) (\<lambda>f. Inr (f\<lparr>closed := True\<rparr>)))"

text \<open>
  \<open>csv.DictWriter\<close>: \<open>writeheader\<close> writes the field names, \<open>writerow\<close> the
  values of a dictionary in the order of the field names, the empty string for
  a missing key; a key that is no field name raises ValueError.
\<close>

definition writeheader :: "string list \<Rightarrow> 'v text_file \<Rightarrow> error + 'v text_file" where
  "writeheader fieldnames f = file_write f (map Field fieldnames)"

definition writerow ::
  "string list \<Rightarrow> 'v text_file \<Rightarrow> (string \<times> 'v) list \<Rightarrow> error + 'v text_file" where
  "writerow fieldnames f rowdict =
     (if list_ex (\<lambda>k. k \<notin> set fieldnames) (map fst rowdict)
      then Inl (ValueError ''dict contains fields not in fieldnames'')
      else file_write f
             (map (\<lambda>k. case map_of rowdict k of None \<Rightarrow> Field [] | Some v \<Rightarrow> Value v) fieldnames))"

definition EXT :: string where
  "EXT = ''metrics.csv''"

definition endswith :: "string \<Rightarrow> string \<Rightarrow> bool" where
  "endswith s suffix = (length suffix \<le> length s \<and> drop (length s - length suffix) s = suffix)"

definition path_join :: "string \<Rightarrow> string \<Rightarrow> string" where
  "path_join a b = (if a = [] then b else if last a = CHR ''/'' then a @ b else a @ ''/'' @ b)"

record 'v metrics_callback =
  filename :: string
  file_handler :: "'v text_file"
  metrics_logger :: "string list"

text \<open>
  The path the constructor opens; \<open>isdir\<close> and \<open>realpath\<close> are the answers of
  the file system.
\<close>

definition metrics_path :: "string \<Rightarrow> (string \<Rightarrow> bool) \<Rightarrow> (string \<Rightarrow> string) \<Rightarrow> string" where
  "metrics_path filename' isdir realpath =
     realpath (if \<not> endswith filename' EXT
               then (if isdir filename' then path_join filename' EXT else filename' @ ''.'' @ EXT)
               else filename')"

text \<open>
  \<open>MetricsCallback.__init__\<close>; \<open>fs\<close> is the file system's answer to \<open>open\<close>.
\<close>

definition MetricsCallback_init ::
  "string \<Rightarrow> (string \<Rightarrow> bool) \<Rightarrow> (string \<Rightarrow> string)
     \<Rightarrow> (string \<Rightarrow> error + (nat \<Rightarrow> error option)) \<Rightarrow> error + 'v metrics_callback" where
  "MetricsCallback_init filename' isdir realpath fs =
     (let filename' = metrics_path filename' isdir realpath;
          metrics_logger' =
            [''timesteps'', ''ep_rew_mean'', ''ep_PE_mean'', ''exploration_rate'', ''loss'',
             ''n_updates'', ''learning_rate'']
      in seq (file_open_w fs filename') (\<lambda>file_handler'.
         seq (writeheader metrics_logger' file_handler') (\<lambda>f.
         seq (file_flush f) (\<lambda>f.
           Inr \<lparr> filename = filename', file_handler = f, metrics_logger = metrics_logger' \<rparr>))))"

text \<open>
  The model a callback is attached to, as \<open>_on_rollout_end\<close> reads it: its
  step counter and the table \<open>name_to_value\<close> of its logger, which has a value
  for every name. \<open>self.model\<close> is \<open>None\<close> until the training loop attaches
  the callback, and reading an attribute of \<open>None\<close> raises AttributeError.
\<close>

record 'v rl_model =
  num_timesteps :: 'v
  name_to_value :: "string \<Rightarrow> 'v"

definition MetricsCallback_on_rollout_end ::
  "'v metrics_callback \<Rightarrow> 'v rl_model option \<Rightarrow> error + 'v metrics_callback" where
  "MetricsCallback_on_rollout_end self model =
     (case model of
        None \<Rightarrow> Inl (AttributeError ''num_timesteps'')
      | Some m \<Rightarrow>
          (let metrics =
                 [(''timesteps'', num_timesteps m),
                  (''ep_rew_mean'', name_to_value m ''rollout/ep_rew_mean''),
                  (''ep_PE_mean'', name_to_value m ''rollout/ep_PE_mean''),
                  (''exploration_rate'', name_to_value m ''rollout/exploration_rate''),
                  (''loss'', name_to_value m ''train/loss''),
                  (''n_updates'', name_to_value m ''train/n_updates''),
                  (''learning_rate'', name_to_value m ''train/learning_rate'')]
           in seq (writerow (metrics_logger self) (file_handler self) metrics) (\<lambda>f.
              seq (file_flush f) (\<lambda>f. Inr (self\<lparr>file_handler := f\<rparr>)))))"

definition MetricsCallback_on_training_end ::
  "'v metrics_callback \<Rightarrow> error + 'v metrics_callback" where
  "MetricsCallback_on_training_end self =
     seq (file_close (file_handler self)) (\<lambda>f. Inr (self\<lparr>file_handler := f\<rparr>))"

text \<open>
  The calls a callback receives after its construction, in order; the first
  call that raises ends the run.
\<close>

datatype 'v callback_event = RolloutEnd "'v rl_model option" | TrainingEnd

fun MetricsCallback_events ::
  "'v metrics_callback \<Rightarrow> 'v callback_event list \<Rightarrow> error + 'v metrics_callback" where
  "MetricsCallback_events self [] = Inr self"
| "MetricsCallback_events self (RolloutEnd model # evs) =
     seq (MetricsCallback_on_rollout_end self model) (\<lambda>self'. MetricsCallback_events self' evs)"
| "MetricsCallback_events self (TrainingEnd # evs) =
     seq (MetricsCallback_on_training_end self) (\<lambda>self'. MetricsCallback_events self' evs)"

text \<open>
  The header row, the data row of one rollout end, and the data rows of the
  rollout ends of a run.
\<close>

definition header_row :: "'v cell list" where
  "header_row =
     [Field ''timesteps'', Field ''ep_rew_mean'', Field ''ep_PE_mean'',
      Field ''exploration_rate'', Field ''loss'', Field ''n_updates'', Field ''learning_rate'']"

definition data_row :: "'v rl_model \<Rightarrow> 'v cell list" where
  "data_row m =
     [Value (num_timesteps m), Value (name_to_value m ''rollout/ep_rew_mean''),
      Value (name_to_value m ''rollout/ep_PE_mean''),
      Value (name_to_value m ''rollout/exploration_rate''), Value (name_to_value m ''train/loss''),
      Value (name_to_value m ''train/n_updates''), Value (name_to_value m ''train/learning_rate'')]"

fun rollout_rows :: "'v callback_event list \<Rightarrow> 'v cell list list" where
  "rollout_rows [] = []"
| "rollout_rows (RolloutEnd (Some m) # evs) = data_row m # rollout_rows evs"
| "rollout_rows (_ # evs) = rollout_rows evs"

section \<open>Verification\<close>

subsection \<open>Basic facts\<close>

lemma seq_Inl [simp]: "seq (Inl e) f = Inl e"
  by (simp add: seq_def)

lemma seq_Inr [simp]: "seq (Inr x) f = f x"
  by (simp add: seq_def)

lemma seq_eq_Inr: "seq m f = Inr y \<longleftrightarrow> (\<exists>x. m = Inr x \<and> f x = Inr y)"
  by (cases m) auto

lemma ReplayBuffer_init_eq:
  "ReplayBuffer_init bs zobs act0 an n opt hto =
     (if n = 0 then Inl ZeroDivisionError
      else if opt \<and> hto then Inl incompatible_flags
      else if n < 0 then Inl (ValueError ''negative dimensions are not allowed'')
      else Inr \<lparr> observation_space = zobs,
                 buffer_size = max (bs div n) 1, n_envs = n, pos = 0, full = False,
                 optimize_memory_usage = opt, handle_timeout_termination = hto,
                 observations = replicate (nat (max (bs div n) 1)) (replicate (nat n) (zeros zobs)),
                 next_observations = (if opt then None
                    else Some (replicate (nat (max (bs div n) 1))
                                 (replicate (nat n) (zeros zobs)))),
                 actions = replicate (nat (max (bs div n) 1)) (replicate (nat n) act0),
                 rewards = replicate (nat (max (bs div n) 1)) (replicate (nat n) 0),
                 dones = replicate (nat (max (bs div n) 1)) (replicate (nat n) 0),
                 timeouts = replicate (nat (max (bs div n) 1)) (replicate (nat n) 0),
                 truth_masks = replicate (nat (max (bs div n) 1)) (replicate (nat n) (replicate an 0)) \<rparr>)"
  by (simp add: ReplayBuffer_init_def floordiv_def np_zeros_def Let_def)

lemma dict_zeros_eq:
  "0 \<le> r \<Longrightarrow> 0 \<le> c \<Longrightarrow>
   dict_zeros r c space =
     Inr (map (\<lambda>(key, s). (key, replicate (nat r) (replicate (nat c) (zeros s)))) space)"
  by (induction space) (auto simp: dict_zeros_def np_zeros_def)

lemma DictReplayBuffer_init_eq:
  "DictReplayBuffer_init bs space act0 an n opt hto =
     (if n = 0 then Inl ZeroDivisionError
      else if opt then Inl no_optimize
      else if n < 0 then Inl (ValueError ''negative dimensions are not allowed'')
      else Inr \<lparr> observation_space = space,
                 buffer_size = max (bs div n) 1, n_envs = n, pos = 0, full = False,
                 optimize_memory_usage = opt, handle_timeout_termination = hto,
                 observations =
                   map (\<lambda>(key, s). (key, replicate (nat (max (bs div n) 1))
                                          (replicate (nat n) (zeros s)))) space,
                 next_observations =
                   Some (map (\<lambda>(key, s). (key, replicate (nat (max (bs div n) 1))
                                                (replicate (nat n) (zeros s)))) space),
                 actions = replicate (nat (max (bs div n) 1)) (replicate (nat n) act0),
                 rewards = replicate (nat (max (bs div n) 1)) (replicate (nat n) 0),
                 dones = replicate (nat (max (bs div n) 1)) (replicate (nat n) 0),
                 timeouts = replicate (nat (max (bs div n) 1)) (replicate (nat n) 0),
                 truth_masks = replicate (nat (max (bs div n) 1)) (replicate (nat n) (replicate an 0)) \<rparr>)"
proof -
  consider "n = 0 \<or> opt" | "n < 0" "\<not> opt" | "0 < n" "\<not> opt"
    by linarith
  then show ?thesis
  proof cases
    case 1
    then show ?thesis by (auto simp: DictReplayBuffer_init_def floordiv_def Let_def)
  next
    case 2
    then show ?thesis
      by (cases space)
         (auto simp: DictReplayBuffer_init_def floordiv_def Let_def dict_zeros_def np_zeros_def)
  next
    case 3
    then show ?thesis
      by (simp add: DictReplayBuffer_init_def floordiv_def Let_def dict_zeros_eq np_zeros_def)
  qed
qed


subsection \<open>Construction of the buffers\<close>

text \<open>
  Claim C10. Every \<open>ReplayBuffer\<close> and every \<open>DictReplayBuffer\<close> that was
  constructed from a requested capacity \<open>bs\<close> and \<open>n\<close> environments has
  \<open>buffer_size = max (bs // n) 1\<close> slots per environment, which is at least 1
  (also for \<open>bs < n\<close>: 2 transitions requested for 5 environments give 1
  slot), and the slots of all environments together can be fewer than the
  requested capacity (10 requested for 3 environments give 9).
\<close>

theorem slot_count_per_environment:
  "(ReplayBuffer_init bs zobs zact an n opt hto = Inr b \<longrightarrow>
      buffer_size b = max (bs div n) 1 \<and> 1 \<le> buffer_size b)
   \<and> (DictReplayBuffer_init bs space zact an n opt hto = Inr d \<longrightarrow>
      buffer_size d = max (bs div n) 1 \<and> 1 \<le> buffer_size d)
   \<and> (\<exists>b'. ReplayBuffer_init 2 zobs zact an 5 False False = Inr b' \<and> buffer_size b' = 1)
   \<and> (\<exists>d'. DictReplayBuffer_init 2 space zact an 5 False False = Inr d' \<and> buffer_size d' = 1)
   \<and> (\<exists>b'. ReplayBuffer_init 10 zobs zact an 3 False False = Inr b'
          \<and> buffer_size b' * n_envs b' < 10)
   \<and> (\<exists>d'. DictReplayBuffer_init 10 space zact an 3 False False = Inr d'
          \<and> buffer_size d' * n_envs d' < 10)"
  by (auto simp: ReplayBuffer_init_eq DictReplayBuffer_init_eq split: if_splits)

theorem slot_count_per_environment_witness:
  "buffer_size (projr (ReplayBuffer_init 10 nat_space (0::nat) 4 3 False False)) = 3
   \<and> buffer_size (projr (DictReplayBuffer_init 10 [(''bin'', nat_space)] (0::nat) 4 3 False False)) = 3"
proof -
  obtain b where b: "ReplayBuffer_init 10 nat_space (0::nat) 4 3 False False = Inr b"
    by (simp add: ReplayBuffer_init_eq)
  obtain d where d: "DictReplayBuffer_init 10 [(''bin'', nat_space)] (0::nat) 4 3 False False = Inr d"
    by (simp add: DictReplayBuffer_init_eq)
  from b d slot_count_per_environment [where bs = 10 and zobs = nat_space and zact = "0::nat"
      and an = 4 and n = 3 and opt = False and hto = False and b = b and d = d
      and space = "[(''bin'', nat_space)]"]
  have "buffer_size b = max (10 div 3) 1" "buffer_size d = max (10 div 3) 1"
    by blast+
  with b d show ?thesis by simp
qed

text \<open>
  Claim C4, as the code has it. The constructor divides by \<open>n_envs\<close> before
  it looks at the flags. For \<open>n_envs \<noteq> 0\<close>, constructing a \<open>ReplayBuffer\<close>
  with \<open>optimize_memory_usage\<close> and \<open>handle_timeout_termination\<close> both True
  raises the ValueError of the incompatible flags, and no array is allocated
  (also for a negative \<open>n_envs\<close>, where the allocation itself would raise);
  for every other combination of the two flags, and every \<open>n_envs\<close>,
  construction does not raise this error.
\<close>

theorem incompatible_flags_rejected:
  "(n \<noteq> 0 \<and> opt \<and> hto \<longrightarrow>
      ReplayBuffer_init bs zobs zact an n opt hto = Inl incompatible_flags)
   \<and> (\<not> (opt \<and> hto) \<longrightarrow>
      ReplayBuffer_init bs zobs zact an n opt hto \<noteq> Inl incompatible_flags)"
  by (auto simp: ReplayBuffer_init_eq incompatible_flags_def)

theorem incompatible_flags_rejected_witness:
  "ReplayBuffer_init 10 nat_space (0::nat) 4 (- 3) True True = Inl incompatible_flags
   \<and> ReplayBuffer_init 10 nat_space (0::nat) 4 3 True False \<noteq> Inl incompatible_flags"
  using incompatible_flags_rejected [where n = "- 3" and opt = True and hto = True and bs = 10
      and zobs = nat_space and zact = "0::nat" and an = 4]
    incompatible_flags_rejected [where n = 3 and opt = True and hto = False and bs = 10
      and zobs = nat_space and zact = "0::nat" and an = 4]
  by simp

text \<open>
  Claim C4 as stated fails for \<open>n_envs = 0\<close>: with both flags True the
  constructor raises ZeroDivisionError at \<open>buffer_size // n_envs\<close>, not the
  ValueError.
\<close>

theorem incompatible_flags_zero_envs:
  "ReplayBuffer_init 10 nat_space (0::nat) 4 0 True True = Inl ZeroDivisionError
   \<and> ReplayBuffer_init 10 nat_space (0::nat) 4 0 True True \<noteq> Inl incompatible_flags"
  by (simp add: ReplayBuffer_init_eq incompatible_flags_def)

text \<open>
  Claim C9, as the code has it. Constructing a \<open>DictReplayBuffer\<close> with
  \<open>optimize_memory_usage = True\<close> fails for every value of
  \<open>handle_timeout_termination\<close>: with the assertion error when
  \<open>n_envs \<noteq> 0\<close>, and in every case with some error. \<open>ReplayBuffer\<close> accepts
  \<open>optimize_memory_usage = True\<close> together with
  \<open>handle_timeout_termination = False\<close>, so the rejection is the stronger one.
\<close>

theorem dict_optimize_rejected:
  "(n \<noteq> 0 \<longrightarrow> DictReplayBuffer_init bs space zact an n True hto = Inl no_optimize)
   \<and> isl (DictReplayBuffer_init bs space zact an n True hto)
   \<and> (0 < n \<longrightarrow> \<not> isl (ReplayBuffer_init bs zobs zact an n True False))"
  by (auto simp: ReplayBuffer_init_eq DictReplayBuffer_init_eq)

theorem dict_optimize_rejected_witness:
  "DictReplayBuffer_init 10 [(''bin'', nat_space)] (0::nat) 4 3 True False = Inl no_optimize
   \<and> DictReplayBuffer_init 10 [(''bin'', nat_space)] (0::nat) 4 3 True True = Inl no_optimize
   \<and> \<not> isl (ReplayBuffer_init 10 nat_space (0::nat) 4 3 True False)"
  using dict_optimize_rejected [where n = 3 and bs = 10 and space = "[(''bin'', nat_space)]"
      and zact = "0::nat" and an = 4 and hto = False and zobs = nat_space]
    dict_optimize_rejected [where n = 3 and bs = 10 and space = "[(''bin'', nat_space)]"
      and zact = "0::nat" and an = 4 and hto = True and zobs = nat_space]
  by simp

text \<open>
  Claim C9 as stated fails for \<open>n_envs = 0\<close>: the constructor raises
  ZeroDivisionError before it reaches the assertion.
\<close>

theorem dict_optimize_zero_envs:
  "DictReplayBuffer_init 10 [(''bin'', nat_space)] (0::nat) 4 0 True False = Inl ZeroDivisionError
   \<and> DictReplayBuffer_init 10 [(''bin'', nat_space)] (0::nat) 4 0 True False \<noteq> Inl no_optimize"
  by (simp add: DictReplayBuffer_init_eq no_optimize_def)

subsection \<open>The write pointer\<close>

lemma ReplayBuffer_add_fields:
  "pos (ReplayBuffer_add b obs nobs a r d i m) = (if pos b + 1 = buffer_size b then 0 else pos b + 1)"
  "full (ReplayBuffer_add b obs nobs a r d i m) = (full b \<or> pos b + 1 = buffer_size b)"
  "buffer_size (ReplayBuffer_add b obs nobs a r d i m) = buffer_size b"
  "n_envs (ReplayBuffer_add b obs nobs a r d i m) = n_envs b"
  "optimize_memory_usage (ReplayBuffer_add b obs nobs a r d i m) = optimize_memory_usage b"
  "handle_timeout_termination (ReplayBuffer_add b obs nobs a r d i m) = handle_timeout_termination b"
  by (simp_all add: ReplayBuffer_add_def Let_def)

lemma DictReplayBuffer_add_fields:
  assumes "DictReplayBuffer_add b obs nobs a r d i m = Inr b'"
  shows "pos b' = (if pos b + 1 = buffer_size b then 0 else pos b + 1)"
    "full b' = (full b \<or> pos b + 1 = buffer_size b)"
    "buffer_size b' = buffer_size b"
    "n_envs b' = n_envs b"
    "optimize_memory_usage b' = optimize_memory_usage b"
    "handle_timeout_termination b' = handle_timeout_termination b"
  using assms
  by (auto simp: DictReplayBuffer_add_def Let_def seq_eq_Inr)


lemma ReplayBuffer_add_call_fields:
  "pos (ReplayBuffer_add_call b c) = (if pos b + 1 = buffer_size b then 0 else pos b + 1)"
  "full (ReplayBuffer_add_call b c) = (full b \<or> pos b + 1 = buffer_size b)"
  "buffer_size (ReplayBuffer_add_call b c) = buffer_size b"
  "n_envs (ReplayBuffer_add_call b c) = n_envs b"
  "optimize_memory_usage (ReplayBuffer_add_call b c) = optimize_memory_usage b"
  "handle_timeout_termination (ReplayBuffer_add_call b c) = handle_timeout_termination b"
  by (simp_all add: ReplayBuffer_add_call_def ReplayBuffer_add_fields)

lemma ReplayBuffer_adds_fields:
  "buffer_size (ReplayBuffer_adds b cs) = buffer_size b"
  "n_envs (ReplayBuffer_adds b cs) = n_envs b"
  "optimize_memory_usage (ReplayBuffer_adds b cs) = optimize_memory_usage b"
  "handle_timeout_termination (ReplayBuffer_adds b cs) = handle_timeout_termination b"
  by (induction cs arbitrary: b; simp add: ReplayBuffer_adds_def ReplayBuffer_add_call_fields)+

lemma ReplayBuffer_adds_pos:
  "0 \<le> pos b \<Longrightarrow> pos b < buffer_size b \<Longrightarrow>
   0 \<le> pos (ReplayBuffer_adds b cs) \<and> pos (ReplayBuffer_adds b cs) < buffer_size b"
proof (induction cs arbitrary: b)
  case Nil
  then show ?case by (simp add: ReplayBuffer_adds_def)
next
  case (Cons c cs)
  have "0 \<le> pos (ReplayBuffer_add_call b c)" "pos (ReplayBuffer_add_call b c) < buffer_size b"
    using Cons.prems by (simp_all add: ReplayBuffer_add_call_fields)
  from Cons.IH [of "ReplayBuffer_add_call b c"] this show ?case
    by (simp add: ReplayBuffer_adds_def ReplayBuffer_add_call_fields)
qed

lemma ReplayBuffer_adds_full:
  "full b \<Longrightarrow> full (ReplayBuffer_adds b cs)"
  by (induction cs arbitrary: b) (simp_all add: ReplayBuffer_adds_def ReplayBuffer_add_call_fields)

lemma ReplayBuffer_init_Inr:
  assumes "ReplayBuffer_init bs zobs zact an n opt hto = Inr b"
  shows "buffer_size b = max (bs div n) 1" "n_envs b = n" "pos b = 0" "\<not> full b"
    "optimize_memory_usage b = opt" "handle_timeout_termination b = hto" "0 < n"
  using assms by (auto simp: ReplayBuffer_init_eq split: if_splits)

lemma DictReplayBuffer_init_Inr:
  assumes "DictReplayBuffer_init bs space zact an n opt hto = Inr b"
  shows "buffer_size b = max (bs div n) 1" "n_envs b = n" "pos b = 0" "\<not> full b"
    "optimize_memory_usage b = opt" "handle_timeout_termination b = hto" "0 < n" "\<not> opt"
  using assms by (auto simp: DictReplayBuffer_init_eq split: if_splits)

lemma ReplayBuffer_reachable_pos:
  assumes "ReplayBuffer_init bs zobs zact an n opt hto = Inr b"
  shows "0 \<le> pos (ReplayBuffer_adds b cs)"
    "pos (ReplayBuffer_adds b cs) < buffer_size (ReplayBuffer_adds b cs)"
  using ReplayBuffer_adds_pos [of b cs] ReplayBuffer_init_Inr [OF assms]
  by (simp_all add: ReplayBuffer_adds_fields)

lemma DictReplayBuffer_add_call_fields:
  assumes "DictReplayBuffer_add_call b c = Inr b'"
  shows "pos b' = (if pos b + 1 = buffer_size b then 0 else pos b + 1)"
    "full b' = (full b \<or> pos b + 1 = buffer_size b)"
    "buffer_size b' = buffer_size b"
    "n_envs b' = n_envs b"
    "optimize_memory_usage b' = optimize_memory_usage b"
    "handle_timeout_termination b' = handle_timeout_termination b"
  using DictReplayBuffer_add_fields [OF assms [unfolded DictReplayBuffer_add_call_def]]
  by simp_all

lemma DictReplayBuffer_adds_fields:
  "DictReplayBuffer_adds b cs = Inr b' \<Longrightarrow>
   buffer_size b' = buffer_size b \<and> n_envs b' = n_envs b
   \<and> optimize_memory_usage b' = optimize_memory_usage b
   \<and> handle_timeout_termination b' = handle_timeout_termination b"
proof (induction cs arbitrary: b)
  case Nil
  then show ?case by simp
next
  case (Cons c cs)
  then obtain b1 where b1: "DictReplayBuffer_add_call b c = Inr b1"
    and rest: "DictReplayBuffer_adds b1 cs = Inr b'"
    by (auto simp: seq_eq_Inr)
  from Cons.IH [OF rest] DictReplayBuffer_add_call_fields [OF b1] show ?case by simp
qed

lemma DictReplayBuffer_adds_pos:
  "DictReplayBuffer_adds b cs = Inr b' \<Longrightarrow> 0 \<le> pos b \<Longrightarrow> pos b < buffer_size b \<Longrightarrow>
   0 \<le> pos b' \<and> pos b' < buffer_size b"
proof (induction cs arbitrary: b)
  case Nil
  then show ?case by simp
next
  case (Cons c cs)
  then obtain b1 where b1: "DictReplayBuffer_add_call b c = Inr b1"
    and rest: "DictReplayBuffer_adds b1 cs = Inr b'"
    by (auto simp: seq_eq_Inr)
  have "0 \<le> pos b1" "pos b1 < buffer_size b1" "buffer_size b1 = buffer_size b"
    using Cons.prems DictReplayBuffer_add_call_fields [OF b1] by simp_all
  with Cons.IH [OF rest] show ?case by simp
qed

text \<open>
  Claim C2. For every buffer that was constructed and then filled by any
  sequence of calls of \<open>add\<close>, one more call of \<open>add\<close> (of
  \<open>ReplayBuffer\<close>, and of \<open>DictReplayBuffer\<close> when it returns) leaves
  \<open>0 \<le> pos < buffer_size\<close>; \<open>pos\<close> is incremented by one, and exactly
  when the incremented value is \<open>buffer_size\<close> it is reset to 0 and
  \<open>full\<close> is set; \<open>full\<close> stays True once it is True, and
  \<open>buffer_size\<close> never changes.
\<close>

theorem write_pointer_wraps:
  "(ReplayBuffer_init bs zobs zact an n opt hto = Inr b
      \<and> s = ReplayBuffer_adds b cs \<and> s' = ReplayBuffer_add s obs nobs a r dn infs m \<longrightarrow>
        0 \<le> pos s' \<and> pos s' < buffer_size s' \<and> buffer_size s' = buffer_size s
        \<and> pos s' = (if pos s + 1 = buffer_size s then 0 else pos s + 1)
        \<and> full s' = (full s \<or> pos s + 1 = buffer_size s))
   \<and> (DictReplayBuffer_init bs space zact an n opt hto = Inr d
      \<and> DictReplayBuffer_adds d ds = Inr t
      \<and> DictReplayBuffer_add t dobs dnobs a r dn infs m = Inr t' \<longrightarrow>
        0 \<le> pos t' \<and> pos t' < buffer_size t' \<and> buffer_size t' = buffer_size t
        \<and> pos t' = (if pos t + 1 = buffer_size t then 0 else pos t + 1)
        \<and> full t' = (full t \<or> pos t + 1 = buffer_size t))"
proof (intro conjI impI)
  assume h: "ReplayBuffer_init bs zobs zact an n opt hto = Inr b
      \<and> s = ReplayBuffer_adds b cs \<and> s' = ReplayBuffer_add s obs nobs a r dn infs m"
  then have range: "0 \<le> pos s" "pos s < buffer_size s"
    using ReplayBuffer_reachable_pos [of bs zobs zact an n opt hto b cs] by simp_all
  from h have s': "s' = ReplayBuffer_add s obs nobs a r dn infs m" by simp
  show "0 \<le> pos s'" "pos s' < buffer_size s'" "buffer_size s' = buffer_size s"
    "pos s' = (if pos s + 1 = buffer_size s then 0 else pos s + 1)"
    "full s' = (full s \<or> pos s + 1 = buffer_size s)"
    using range by (simp_all add: s' ReplayBuffer_add_fields)
next
  assume h: "DictReplayBuffer_init bs space zact an n opt hto = Inr d
      \<and> DictReplayBuffer_adds d ds = Inr t
      \<and> DictReplayBuffer_add t dobs dnobs a r dn infs m = Inr t'"
  then have "0 \<le> pos d" "pos d < buffer_size d"
    using DictReplayBuffer_init_Inr [of bs space zact an n opt hto d] by simp_all
  with h have range: "0 \<le> pos t" "pos t < buffer_size t"
    using DictReplayBuffer_adds_pos [of d ds t] DictReplayBuffer_adds_fields [of d ds t]
    by simp_all
  from h have t': "DictReplayBuffer_add t dobs dnobs a r dn infs m = Inr t'" by simp
  show "0 \<le> pos t'" "pos t' < buffer_size t'" "buffer_size t' = buffer_size t"
    "pos t' = (if pos t + 1 = buffer_size t then 0 else pos t + 1)"
    "full t' = (full t \<or> pos t + 1 = buffer_size t)"
    using range DictReplayBuffer_add_fields [OF t'] by simp_all
qed


theorem write_pointer_wraps_witness:
  "(let b = projr (ReplayBuffer_init 1 nat_space (0::nat) 1 1 False False);
        s' = ReplayBuffer_add (ReplayBuffer_adds b []) [7] [8] [0] [1] [0] [Map.empty] [[1]]
    in pos s' = 0 \<and> full s' \<and> buffer_size s' = 1)
   \<and> (let d = projr (DictReplayBuffer_init 1 [(''bin'', nat_space)] (0::nat) 1 1 False False);
        t' = projr (DictReplayBuffer_add d [''bin'' \<mapsto> [7]] [''bin'' \<mapsto> [8]] [0] [1] [0]
                      [Map.empty] [[1]])
    in pos t' = 0 \<and> full t' \<and> buffer_size t' = 1)"
proof -
  obtain b :: "(nat, nat) ReplayBuffer"
    where b: "ReplayBuffer_init 1 nat_space (0::nat) 1 1 False False = Inr b"
    by (simp add: ReplayBuffer_init_eq)
  obtain d :: "(nat, nat) DictReplayBuffer"
    where d: "DictReplayBuffer_init 1 [(''bin'', nat_space)] (0::nat) 1 1 False False = Inr d"
    by (simp add: DictReplayBuffer_init_eq)
  have bf: "buffer_size b = 1" "pos b = 0" "\<not> full b"
    using ReplayBuffer_init_Inr [OF b] by simp_all
  have df: "buffer_size d = 1" "pos d = 0" "\<not> full d"
    using DictReplayBuffer_init_Inr [OF d] by simp_all
  obtain t' where t': "DictReplayBuffer_add d [''bin'' \<mapsto> [7]] [''bin'' \<mapsto> [8]] [0] [1] [0]
      [Map.empty] [[1]] = Inr t'"
    using d by (auto simp: DictReplayBuffer_init_eq DictReplayBuffer_add_def Let_def)
  define s' where "s' = ReplayBuffer_add (ReplayBuffer_adds b []) [7] [8] [0] [1] [0] [Map.empty] [[1]]"
  have adds: "ReplayBuffer_adds b [] = b" "DictReplayBuffer_adds d [] = Inr d"
    by (simp_all add: ReplayBuffer_adds_def)
  from write_pointer_wraps [where bs = 1 and zobs = nat_space and zact = "0::nat" and an = 1
      and n = 1 and opt = False and hto = False and b = b and cs = "[]"
      and s = "ReplayBuffer_adds b []" and s' = s' and obs = "[7]" and nobs = "[8]"
      and a = "[0]" and r = "[1]" and dn = "[0]" and infs = "[Map.empty]" and m = "[[1]]"
      and space = "[(''bin'', nat_space)]" and d = d and ds = "[]" and t = d and t' = t'
      and dobs = "[''bin'' \<mapsto> [7]]" and dnobs = "[''bin'' \<mapsto> [8]]"]
  have "pos s' = 0 \<and> full s' \<and> buffer_size s' = 1" "pos t' = 0 \<and> full t' \<and> buffer_size t' = 1"
    using b d t' adds bf df by (simp_all add: s'_def)
  then show ?thesis using b d t' by (simp add: s'_def Let_def)
qed

subsection \<open>Sampling in memory-optimized mode\<close>

lemma randint_Inr:
  assumes "randint lo hi n rng = Inr (xs, rng')"
  shows "\<forall>x \<in> set xs. lo \<le> x \<and> x < hi" "length xs = nat n"
proof -
  have "lo \<le> lo + int (k mod nat (hi - lo)) \<and> lo + int (k mod nat (hi - lo)) < hi"
    if "lo < hi" for k
  proof -
    from that have "0 < nat (hi - lo)" by simp
    then have "k mod nat (hi - lo) < nat (hi - lo)" by (rule mod_less_divisor)
    then show ?thesis by linarith
  qed
  with assms show "\<forall>x \<in> set xs. lo \<le> x \<and> x < hi"
    by (auto simp: randint_def split: if_splits)
  from assms show "length xs = nat n"
    by (auto simp: randint_def split: if_splits)
qed

lemma shifted_index_not_pos:
  fixes r p bs :: int
  assumes "1 \<le> r" "r < bs" "0 \<le> p" "p < bs"
  shows "(r + p) mod bs \<noteq> p"
proof (cases "r + p < bs")
  case True
  with assms have "(r + p) mod bs = r + p" by simp
  with assms show ?thesis by simp
next
  case False
  with assms have "0 \<le> r + p - bs" "r + p - bs < bs" by simp_all
  then have a: "(r + p - bs) mod bs = r + p - bs" by (rule mod_pos_pos_trivial)
  have b: "(r + p - bs) mod bs = (r + p) mod bs" by (rule minus_mod_self2)
  have "(r + p) mod bs = r + p - bs" using trans [OF b [symmetric] a] .
  moreover have "r + p - bs \<noteq> p" using assms by linarith
  ultimately show ?thesis by presburger
qed

text \<open>
  Claim C1. For every buffer constructed with \<open>optimize_memory_usage = True\<close>
  and filled by any sequence of calls of \<open>add\<close>, the batch indices that
  \<open>sample\<close> draws and passes to \<open>_get_samples\<close> never contain the write
  pointer \<open>pos\<close>: a full buffer draws \<open>(randint(1, buffer_size) + pos) %
  buffer_size\<close>, which is never \<open>pos\<close>, and a buffer that is not full draws
  from \<open>[0, pos)\<close>.
\<close>

theorem write_pointer_never_sampled:
  "ReplayBuffer_init bs zobs zact an n True hto = Inr b
     \<and> s = ReplayBuffer_adds b cs
     \<and> ReplayBuffer_batch_inds s batch_size rng = Inr (inds, rng') \<longrightarrow>
       pos s \<notin> set inds
       \<and> ReplayBuffer_sample s batch_size env rng = ReplayBuffer_get_samples s inds env rng'
       \<and> (full s \<longrightarrow> (\<exists>rs. randint 1 (buffer_size s) batch_size rng = Inr (rs, rng')
              \<and> inds = map (\<lambda>x. (x + pos s) mod buffer_size s) rs))
       \<and> (\<not> full s \<longrightarrow> randint 0 (pos s) batch_size rng = Inr (inds, rng')
              \<and> (\<forall>i \<in> set inds. 0 \<le> i \<and> i < pos s))"
proof (intro impI)
  assume h: "ReplayBuffer_init bs zobs zact an n True hto = Inr b
     \<and> s = ReplayBuffer_adds b cs
     \<and> ReplayBuffer_batch_inds s batch_size rng = Inr (inds, rng')"
  from h have init: "ReplayBuffer_init bs zobs zact an n True hto = Inr b"
    by (rule conjunct1)
  from h have s: "s = ReplayBuffer_adds b cs"
    by (rule conjunct1 [OF conjunct2])
  from h have inds: "ReplayBuffer_batch_inds s batch_size rng = Inr (inds, rng')"
    by (rule conjunct2 [OF conjunct2])
  have range: "0 \<le> pos s" "pos s < buffer_size s"
    using ReplayBuffer_reachable_pos [OF init, of cs] by (simp_all add: s)
  have opt: "optimize_memory_usage s"
    using ReplayBuffer_init_Inr(5) [OF init] by (simp add: s ReplayBuffer_adds_fields)
  have sample: "ReplayBuffer_sample s batch_size env rng = ReplayBuffer_get_samples s inds env rng'"
    using opt inds by (simp add: ReplayBuffer_sample_def)
  show "pos s \<notin> set inds
       \<and> ReplayBuffer_sample s batch_size env rng = ReplayBuffer_get_samples s inds env rng'
       \<and> (full s \<longrightarrow> (\<exists>rs. randint 1 (buffer_size s) batch_size rng = Inr (rs, rng')
              \<and> inds = map (\<lambda>x. (x + pos s) mod buffer_size s) rs))
       \<and> (\<not> full s \<longrightarrow> randint 0 (pos s) batch_size rng = Inr (inds, rng')
              \<and> (\<forall>i \<in> set inds. 0 \<le> i \<and> i < pos s))"
  proof (cases "full s")
    case True
    with inds obtain rs where rs: "randint 1 (buffer_size s) batch_size rng = Inr (rs, rng')"
      and eq: "inds = map (\<lambda>x. (x + pos s) mod buffer_size s) rs"
      by (auto simp: ReplayBuffer_batch_inds_def seq_eq_Inr)
    have bound: "\<forall>x \<in> set rs. 1 \<le> x \<and> x < buffer_size s"
      using randint_Inr(1) [OF rs] .
    have "pos s \<notin> set inds"
    proof
      assume "pos s \<in> set inds"
      then obtain x where x: "x \<in> set rs" and px: "(x + pos s) mod buffer_size s = pos s"
        by (auto simp: eq)
      from bound x have "1 \<le> x" "x < buffer_size s" by simp_all
      from shifted_index_not_pos [OF this range] px show False by (rule notE)
    qed
    with True rs eq sample show ?thesis by blast
  next
    case False
    with inds have rs: "randint 0 (pos s) batch_size rng = Inr (inds, rng')"
      by (simp add: ReplayBuffer_batch_inds_def)
    have bound: "\<forall>i \<in> set inds. 0 \<le> i \<and> i < pos s"
      using randint_Inr(1) [OF rs] .
    then have "pos s \<notin> set inds" by auto
    with False rs bound sample show ?thesis by blast
  qed
qed


theorem write_pointer_never_sampled_witness:
  "(let c = \<lparr> call_obs = [1::nat], call_next_obs = [2], call_action = [0::nat],
               call_reward = [0], call_done = [0], call_infos = [Map.empty],
               call_truth_mask = [[1]] \<rparr>;
        s = ReplayBuffer_adds (projr (ReplayBuffer_init 3 nat_space (0::nat) 1 1 True False))
              [c, c, c, c]
    in pos s = 1 \<and> full s
       \<and> fst (projr (ReplayBuffer_batch_inds s 2 (\<lambda>k. k))) = [2, 0]
       \<and> pos s \<notin> set (fst (projr (ReplayBuffer_batch_inds s 2 (\<lambda>k. k)))))"
proof -
  define c :: "(nat list, nat) add_call" where
    "c = \<lparr> call_obs = [1::nat], call_next_obs = [2], call_action = [0::nat],
           call_reward = [0], call_done = [0], call_infos = [Map.empty],
           call_truth_mask = [[1]] \<rparr>"
  obtain b :: "(nat, nat) ReplayBuffer"
    where b: "ReplayBuffer_init 3 nat_space (0::nat) 1 1 True False = Inr b"
    by (simp add: ReplayBuffer_init_eq)
  define s where "s = ReplayBuffer_adds b [c, c, c, c]"
  have bf: "buffer_size b = 3" "pos b = 0" "\<not> full b"
    using ReplayBuffer_init_Inr [OF b] by simp_all
  have sf: "pos s = 1" "full s" "buffer_size s = 3"
    by (simp_all add: s_def ReplayBuffer_adds_def ReplayBuffer_add_call_fields bf)
  have up: "[0..<2] = [0, Suc 0]"
    by (simp add: upt_rec)
  have inds: "ReplayBuffer_batch_inds s 2 (\<lambda>k. k) = Inr ([2, 0], \<lambda>k. k + 2)"
    by (simp add: ReplayBuffer_batch_inds_def randint_def sf up)
  from write_pointer_never_sampled [where bs = 3 and zobs = nat_space and zact = "0::nat"
      and an = 1 and n = 1 and hto = False and b = b and s = s and cs = "[c, c, c, c]"
      and batch_size = 2 and rng = "\<lambda>k. k" and inds = "[2, 0]" and rng' = "\<lambda>k. k + 2"]
    b inds
  have "pos s \<notin> set [2, 0]" by (simp add: s_def)
  with sf inds b show ?thesis by (simp add: s_def c_def Let_def)
qed

subsection \<open>Reading samples\<close>

lemma traverse_Inr:
  "traverse f xs = Inr ys \<Longrightarrow>
   length ys = length xs \<and> (\<forall>k < length xs. f (xs ! k) = Inr (ys ! k))"
proof (induction xs arbitrary: ys)
  case Nil
  then show ?case by simp
next
  case (Cons x xs)
  then obtain y ys' where y: "f x = Inr y" and ys': "traverse f xs = Inr ys'"
    and ys: "ys = y # ys'"
    by (auto simp: seq_eq_Inr)
  from Cons.IH [OF ys'] y ys show ?case
    by (auto simp: nth_Cons split: nat.splits)
qed

lemma index2_Inr:
  assumes "index2 arr inds js = Inr vs" "length js = length inds"
  shows "length vs = length inds"
    "\<forall>k < length inds. np_get2 arr (inds ! k) (js ! k) = Inr (vs ! k)"
  using traverse_Inr [OF assms(1) [unfolded index2_def]] assms(2) by simp_all

lemma np_get_in_set: "np_get xs i = Inr x \<Longrightarrow> x \<in> set xs"
  by (auto simp: np_get_def Let_def split: if_splits)

lemma np_get2_in_set: "np_get2 arr i j = Inr x \<Longrightarrow> \<exists>row \<in> set arr. x \<in> set row"
  by (auto simp: np_get2_def seq_eq_Inr dest: np_get_in_set)

lemma terminal_signal_nth:
  "length ts = length ds \<Longrightarrow> k < length ds \<Longrightarrow>
   column (terminal_signal ds ts) ! k = [ds ! k * (1 - ts ! k)]"
  by (simp add: column_def terminal_signal_def)

lemma terminal_signal_length:
  "length ts = length ds \<Longrightarrow> length (column (terminal_signal ds ts)) = length ds"
  by (simp add: column_def terminal_signal_def)

lemma ReplayBuffer_get_samples_Inr:
  assumes "ReplayBuffer_get_samples s inds env rng = Inr (smp, rng')"
  obtains envs ds ts raw where
    "randint 0 (n_envs s) (int (length inds)) rng = Inr (envs, rng')"
    "index2 (dones s) inds envs = Inr ds"
    "index2 (timeouts s) inds envs = Inr ts"
    "s_dones smp = column (terminal_signal ds ts)"
    "(if optimize_memory_usage s
      then index2 (observations s) (map (\<lambda>i. (i + 1) mod buffer_size s) inds) envs
      else (case next_observations s of
              None \<Rightarrow> Inl (AttributeError ''next_observations'')
            | Some a \<Rightarrow> index2 a inds envs)) = Inr raw"
    "s_next_observations smp = BaseBuffer_normalize_obs env raw"
proof -
  from assms obtain envs raw xa xb ds ts xe xf where
    "randint 0 (n_envs s) (int (length inds)) rng = Inr (envs, rng')"
    "(if optimize_memory_usage s
      then index2 (observations s) (map (\<lambda>i. (i + 1) mod buffer_size s) inds) envs
      else (case next_observations s of
              None \<Rightarrow> Inl (AttributeError ''next_observations'')
            | Some a \<Rightarrow> index2 a inds envs)) = Inr raw"
    "index2 (dones s) inds envs = Inr ds"
    "index2 (timeouts s) inds envs = Inr ts"
    "smp = \<lparr> s_observations = BaseBuffer_normalize_obs env xa, s_actions = xb,
             s_next_observations = BaseBuffer_normalize_obs env raw,
             s_dones = column (terminal_signal ds ts),
             s_rewards = BaseBuffer_normalize_reward env (column xe),
             s_truth_masks = xf \<rparr>"
    unfolding ReplayBuffer_get_samples_def by (auto simp: seq_eq_Inr)
  then show thesis using that [of envs ds ts raw] by simp
qed

lemma DictReplayBuffer_get_samples_Inr:
  assumes "DictReplayBuffer_get_samples s inds env rng = Inr (smp, rng')"
  obtains envs ds ts where
    "randint 0 (n_envs s) (int (length inds)) rng = Inr (envs, rng')"
    "index2 (dones s) inds envs = Inr ds"
    "index2 (timeouts s) inds envs = Inr ts"
    "s_dones smp = column (terminal_signal ds ts)"
proof -
  from assms obtain envs xn xa xb ds ts xe xf where
    "randint 0 (n_envs s) (int (length inds)) rng = Inr (envs, rng')"
    "index2 (dones s) inds envs = Inr ds"
    "index2 (timeouts s) inds envs = Inr ts"
    "smp = \<lparr> s_observations = BaseBuffer_normalize_obs env xa, s_actions = xb,
             s_next_observations = BaseBuffer_normalize_obs env xn,
             s_dones = column (terminal_signal ds ts),
             s_rewards = BaseBuffer_normalize_reward env (column xe),
             s_truth_masks = xf \<rparr>"
    unfolding DictReplayBuffer_get_samples_def by (auto simp: seq_eq_Inr)
  then show thesis using that [of envs ds ts] by simp
qed

text \<open>The terminal signals of a batch, entry by entry.\<close>

lemma signals_entrywise:
  assumes envs: "randint 0 n (int (length inds)) rng = Inr (envs, rng')"
    and ds: "index2 darr inds envs = Inr ds"
    and ts: "index2 tarr inds envs = Inr ts"
  shows "length (column (terminal_signal ds ts)) = length inds"
    "\<forall>k < length inds. \<exists>d t.
       np_get2 darr (inds ! k) (envs ! k) = Inr d \<and> np_get2 tarr (inds ! k) (envs ! k) = Inr t
       \<and> column (terminal_signal ds ts) ! k = [d * (1 - t)]"
proof -
  have len: "length envs = length inds"
    using randint_Inr(2) [OF envs] by simp
  note d = index2_Inr [OF ds len] and t = index2_Inr [OF ts len]
  show "length (column (terminal_signal ds ts)) = length inds"
    using d(1) t(1) by (simp add: terminal_signal_length)
  show "\<forall>k < length inds. \<exists>d t.
       np_get2 darr (inds ! k) (envs ! k) = Inr d \<and> np_get2 tarr (inds ! k) (envs ! k) = Inr t
       \<and> column (terminal_signal ds ts) ! k = [d * (1 - t)]"
    using d t by (simp add: terminal_signal_nth)
qed


lemma np_get_nonneg:
  "np_get xs i = Inr x \<Longrightarrow> 0 \<le> i \<Longrightarrow> x = xs ! nat i \<and> nat i < length xs"
  by (auto simp: np_get_def Let_def split: if_splits)

lemma np_get_updated:
  "0 \<le> p \<Longrightarrow> nat p < length arr \<Longrightarrow> np_get (arr[nat p := row]) p = Inr row"
  by (auto simp: np_get_def Let_def)

lemma np_get2_updated:
  assumes "0 \<le> p" "nat p < length arr" "0 \<le> e"
    and "np_get2 (arr[nat p := row]) p e = Inr x"
  shows "x = row ! nat e \<and> nat e < length row"
  using assms np_get_nonneg [of row e x]
  by (simp add: np_get2_def np_get_updated)

lemma ReplayBuffer_add_arrays:
  "dones (ReplayBuffer_add b obs nobs a r d i m) = (dones b)[nat (pos b) := d]"
  "timeouts (ReplayBuffer_add b obs nobs a r d i m) =
     (if handle_timeout_termination b then (timeouts b)[nat (pos b) := map timeout_flag i]
      else timeouts b)"
  "observations (ReplayBuffer_add b obs nobs a r d i m) =
     (if optimize_memory_usage b
      then ((observations b)[nat (pos b) := map (dtype (observation_space b)) obs])
             [nat ((pos b + 1) mod buffer_size b) := map (dtype (observation_space b)) nobs]
      else (observations b)[nat (pos b) := map (dtype (observation_space b)) obs])"
  by (simp_all add: ReplayBuffer_add_def Let_def)

lemma DictReplayBuffer_add_arrays:
  assumes "DictReplayBuffer_add b obs nobs a r d i m = Inr b'"
  shows "dones b' = (dones b)[nat (pos b) := d]"
    "timeouts b' =
       (if handle_timeout_termination b then (timeouts b)[nat (pos b) := map timeout_flag i]
        else timeouts b)"
  using assms by (auto simp: DictReplayBuffer_add_def Let_def seq_eq_Inr)

lemma ReplayBuffer_adds_lengths:
  "length (dones (ReplayBuffer_adds b cs)) = length (dones b)"
  "length (timeouts (ReplayBuffer_adds b cs)) = length (timeouts b)"
  "length (observations (ReplayBuffer_adds b cs)) = length (observations b)"
  by (induction cs arbitrary: b;
      simp add: ReplayBuffer_adds_def ReplayBuffer_add_call_def ReplayBuffer_add_arrays)+

lemma ReplayBuffer_adds_timeouts:
  "\<not> handle_timeout_termination b \<Longrightarrow> timeouts (ReplayBuffer_adds b cs) = timeouts b"
  by (induction cs arbitrary: b)
     (simp_all add: ReplayBuffer_adds_def ReplayBuffer_add_call_def ReplayBuffer_add_arrays
        ReplayBuffer_add_fields)

lemma DictReplayBuffer_adds_arrays:
  "DictReplayBuffer_adds b cs = Inr b' \<Longrightarrow>
   length (dones b') = length (dones b) \<and> length (timeouts b') = length (timeouts b)
   \<and> (\<not> handle_timeout_termination b \<longrightarrow> timeouts b' = timeouts b)"
proof (induction cs arbitrary: b)
  case Nil
  then show ?case by simp
next
  case (Cons c cs)
  then obtain b1 where b1: "DictReplayBuffer_add_call b c = Inr b1"
    and rest: "DictReplayBuffer_adds b1 cs = Inr b'"
    by (auto simp: seq_eq_Inr)
  note arr = DictReplayBuffer_add_arrays [OF b1 [unfolded DictReplayBuffer_add_call_def]]
  from Cons.IH [OF rest] arr DictReplayBuffer_add_call_fields(6) [OF b1] show ?case
    by simp
qed

lemma ReplayBuffer_init_arrays:
  assumes "ReplayBuffer_init bs zobs zact an n opt hto = Inr b"
  shows "length (dones b) = nat (buffer_size b)" "length (timeouts b) = nat (buffer_size b)"
    "length (observations b) = nat (buffer_size b)"
    "timeouts b = replicate (nat (buffer_size b)) (replicate (nat n) 0)"
  using assms by (auto simp: ReplayBuffer_init_eq split: if_splits)

lemma DictReplayBuffer_init_arrays:
  assumes "DictReplayBuffer_init bs space zact an n opt hto = Inr b"
  shows "length (dones b) = nat (buffer_size b)" "length (timeouts b) = nat (buffer_size b)"
    "timeouts b = replicate (nat (buffer_size b)) (replicate (nat n) 0)"
  using assms by (auto simp: DictReplayBuffer_init_eq split: if_splits)

lemma zero_timeout_entry:
  "np_get2 (replicate r (replicate c (0::real))) i j = Inr t \<Longrightarrow> t = 0"
  by (auto dest!: np_get2_in_set)


lemma ReplayBuffer_signal:
  assumes "ReplayBuffer_get_samples s inds env rng = Inr (smp, rng')"
  shows "\<exists>envs. randint 0 (n_envs s) (int (length inds)) rng = Inr (envs, rng')
    \<and> length (s_dones smp) = length inds
    \<and> (\<forall>k < length inds. \<exists>d t.
          np_get2 (dones s) (inds ! k) (envs ! k) = Inr d
          \<and> np_get2 (timeouts s) (inds ! k) (envs ! k) = Inr t
          \<and> s_dones smp ! k = [d * (1 - t)])"
proof -
  from assms obtain envs ds ts raw where
    envs: "randint 0 (n_envs s) (int (length inds)) rng = Inr (envs, rng')"
    and ds: "index2 (dones s) inds envs = Inr ds"
    and ts: "index2 (timeouts s) inds envs = Inr ts"
    and sd: "s_dones smp = column (terminal_signal ds ts)"
    by (rule ReplayBuffer_get_samples_Inr)
  from signals_entrywise [OF envs ds ts] envs sd show ?thesis by auto
qed

lemma DictReplayBuffer_signal:
  assumes "DictReplayBuffer_get_samples s inds env rng = Inr (smp, rng')"
  shows "\<exists>envs. randint 0 (n_envs s) (int (length inds)) rng = Inr (envs, rng')
    \<and> length (s_dones smp) = length inds
    \<and> (\<forall>k < length inds. \<exists>d t.
          np_get2 (dones s) (inds ! k) (envs ! k) = Inr d
          \<and> np_get2 (timeouts s) (inds ! k) (envs ! k) = Inr t
          \<and> s_dones smp ! k = [d * (1 - t)])"
proof -
  from assms obtain envs ds ts where
    envs: "randint 0 (n_envs s) (int (length inds)) rng = Inr (envs, rng')"
    and ds: "index2 (dones s) inds envs = Inr ds"
    and ts: "index2 (timeouts s) inds envs = Inr ts"
    and sd: "s_dones smp = column (terminal_signal ds ts)"
    by (rule DictReplayBuffer_get_samples_Inr)
  from signals_entrywise [OF envs ds ts] envs sd show ?thesis by auto
qed

text \<open>
  With all timeouts 0, the signal is the stored \<open>done\<close>.
\<close>

lemma signal_without_timeouts:
  assumes sig: "\<exists>envs. randint 0 n (int (length inds)) rng = Inr (envs, rng')
    \<and> length sd = length inds
    \<and> (\<forall>k < length inds. \<exists>d t.
          np_get2 darr (inds ! k) (envs ! k) = Inr d
          \<and> np_get2 (replicate r (replicate c (0::real))) (inds ! k) (envs ! k) = Inr t
          \<and> sd ! k = [d * (1 - t)])"
  shows "\<exists>envs. randint 0 n (int (length inds)) rng = Inr (envs, rng')
    \<and> length sd = length inds
    \<and> (\<forall>k < length inds. \<exists>d. np_get2 darr (inds ! k) (envs ! k) = Inr d \<and> sd ! k = [d])"
proof -
  from sig obtain envs where envs: "randint 0 n (int (length inds)) rng = Inr (envs, rng')"
    and len: "length sd = length inds"
    and all: "\<forall>k < length inds. \<exists>d t.
          np_get2 darr (inds ! k) (envs ! k) = Inr d
          \<and> np_get2 (replicate r (replicate c (0::real))) (inds ! k) (envs ! k) = Inr t
          \<and> sd ! k = [d * (1 - t)]"
    by blast
  have "\<exists>d. np_get2 darr (inds ! k) (envs ! k) = Inr d \<and> sd ! k = [d]" if "k < length inds" for k
  proof -
    from all that obtain d t where d: "np_get2 darr (inds ! k) (envs ! k) = Inr d"
      and t: "np_get2 (replicate r (replicate c (0::real))) (inds ! k) (envs ! k) = Inr t"
      and sdk: "sd ! k = [d * (1 - t)]"
      by blast
    from zero_timeout_entry [OF t] sdk have "sd ! k = [d]" by simp
    with d show ?thesis by blast
  qed
  with envs len show ?thesis by blast
qed

text \<open>
  The signal of the transition that was just stored, read back at its slot.
\<close>

lemma stored_signal:
  assumes sig: "\<exists>envs. randint 0 n (int (length [p])) rng = Inr (envs, rng')
    \<and> length sd = length [p]
    \<and> (\<forall>k < length [p]. \<exists>d t.
          np_get2 (darr[nat p := dn]) ([p] ! k) (envs ! k) = Inr d
          \<and> np_get2 (tarr[nat p := map timeout_flag infs]) ([p] ! k) (envs ! k) = Inr t
          \<and> sd ! k = [d * (1 - t)])"
    and e: "randint 0 n 1 rng = Inr ([e], rng')"
    and p: "0 \<le> p" "nat p < length darr" "nat p < length tarr"
  shows "sd = [[dn ! nat e * (1 - timeout_flag (infs ! nat e))]]"
proof -
  from sig e obtain d t where len: "length sd = 1"
    and d: "np_get2 (darr[nat p := dn]) p e = Inr d"
    and t: "np_get2 (tarr[nat p := map timeout_flag infs]) p e = Inr t"
    and sd0: "sd ! 0 = [d * (1 - t)]"
    by auto
  have e0: "0 \<le> e"
    using randint_Inr(1) [OF e] by simp
  from np_get2_updated [OF p(1) p(2) e0 d] have dv: "d = dn ! nat e" by simp
  from np_get2_updated [OF p(1) p(3) e0 t] have tv: "t = timeout_flag (infs ! nat e)" by simp
  from len sd0 have "sd = [[d * (1 - t)]]"
    by (cases sd) simp_all
  with dv tv show ?thesis by simp
qed


lemma ReplayBuffer_stored_signal:
  assumes init: "ReplayBuffer_init bs zobs zact an n opt True = Inr b"
    and v: "v = ReplayBuffer_adds b cs"
    and v': "v' = ReplayBuffer_add v obs nobs a r dn infs m"
    and smp: "ReplayBuffer_get_samples v' [pos v] env rng = Inr (sm, rng')"
    and e: "randint 0 (n_envs v') 1 rng = Inr ([e], rng')"
  shows "s_dones sm = [[dn ! nat e * (1 - timeout_flag (infs ! nat e))]]"
proof -
  have range: "0 \<le> pos v" "pos v < buffer_size v"
    using ReplayBuffer_reachable_pos [OF init, of cs] by (simp_all add: v)
  have hto: "handle_timeout_termination v"
    using ReplayBuffer_init_Inr(6) [OF init] by (simp add: v ReplayBuffer_adds_fields)
  have len: "nat (pos v) < length (dones v)" "nat (pos v) < length (timeouts v)"
    using range ReplayBuffer_init_arrays(1,2) [OF init]
    by (simp_all add: v ReplayBuffer_adds_lengths ReplayBuffer_adds_fields)
  have arr: "dones v' = (dones v)[nat (pos v) := dn]"
    "timeouts v' = (timeouts v)[nat (pos v) := map timeout_flag infs]"
    using hto by (simp_all add: v' ReplayBuffer_add_arrays)
  from ReplayBuffer_signal [OF smp] show ?thesis
    unfolding arr by (rule stored_signal) (use e range len in simp_all)
qed

lemma DictReplayBuffer_stored_signal:
  assumes init: "DictReplayBuffer_init bs space zact an n opt True = Inr d"
    and w: "DictReplayBuffer_adds d ds = Inr w"
    and w': "DictReplayBuffer_add w dobs dnobs a r dn infs m = Inr w'"
    and smp: "DictReplayBuffer_get_samples w' [pos w] uenv rng = Inr (um, rng')"
    and e: "randint 0 (n_envs w') 1 rng = Inr ([e], rng')"
  shows "s_dones um = [[dn ! nat e * (1 - timeout_flag (infs ! nat e))]]"
proof -
  note f = DictReplayBuffer_adds_fields [OF w] and i = DictReplayBuffer_init_Inr [OF init]
  have range: "0 \<le> pos w" "pos w < buffer_size w"
    using DictReplayBuffer_adds_pos [OF w] i f by simp_all
  have hto: "handle_timeout_termination w"
    using i(6) f by simp
  have len: "nat (pos w) < length (dones w)" "nat (pos w) < length (timeouts w)"
    using range DictReplayBuffer_init_arrays(1,2) [OF init] DictReplayBuffer_adds_arrays [OF w] f
    by simp_all
  have arr: "dones w' = (dones w)[nat (pos w) := dn]"
    "timeouts w' = (timeouts w)[nat (pos w) := map timeout_flag infs]"
    using hto DictReplayBuffer_add_arrays [OF w'] by simp_all
  from DictReplayBuffer_signal [OF smp] show ?thesis
    unfolding arr by (rule stored_signal) (use e range len in simp_all)
qed

lemma truncated_done_signal:
  "dn ! nat e = 1 \<and> (infs ! nat e) ''TimeLimit.truncated'' = Some True \<Longrightarrow>
   [[dn ! nat e * (1 - timeout_flag (infs ! nat e))]] = [[0]]"
  by (simp add: timeout_flag_def)

lemma ReplayBuffer_untimed_signal:
  assumes init: "ReplayBuffer_init bs zobs zact an n opt False = Inr b"
    and v: "v = ReplayBuffer_adds b cs"
    and smp: "ReplayBuffer_get_samples v inds env rng = Inr (sm, rng')"
  shows "\<exists>envs. randint 0 (n_envs v) (int (length inds)) rng = Inr (envs, rng')
    \<and> length (s_dones sm) = length inds
    \<and> (\<forall>k < length inds. \<exists>d.
          np_get2 (dones v) (inds ! k) (envs ! k) = Inr d \<and> s_dones sm ! k = [d])"
proof -
  have "\<not> handle_timeout_termination b"
    using ReplayBuffer_init_Inr(6) [OF init] by simp
  then have t: "timeouts v = replicate (nat (buffer_size b)) (replicate (nat n) 0)"
    using ReplayBuffer_init_arrays(4) [OF init] by (simp add: v ReplayBuffer_adds_timeouts)
  from ReplayBuffer_signal [OF smp] show ?thesis
    unfolding t by (rule signal_without_timeouts)
qed

lemma DictReplayBuffer_untimed_signal:
  assumes init: "DictReplayBuffer_init bs space zact an n opt False = Inr d"
    and w: "DictReplayBuffer_adds d ds = Inr w"
    and smp: "DictReplayBuffer_get_samples w inds uenv rng = Inr (um, rng')"
  shows "\<exists>envs. randint 0 (n_envs w) (int (length inds)) rng = Inr (envs, rng')
    \<and> length (s_dones um) = length inds
    \<and> (\<forall>k < length inds. \<exists>d.
          np_get2 (dones w) (inds ! k) (envs ! k) = Inr d \<and> s_dones um ! k = [d])"
proof -
  have "\<not> handle_timeout_termination d"
    using DictReplayBuffer_init_Inr(6) [OF init] by simp
  then have t: "timeouts w = replicate (nat (buffer_size d)) (replicate (nat n) 0)"
    using DictReplayBuffer_init_arrays(3) [OF init] DictReplayBuffer_adds_arrays [OF w] by simp
  from DictReplayBuffer_signal [OF smp] show ?thesis
    unfolding t by (rule signal_without_timeouts)
qed


text \<open>
  Claim C3. Every batch that \<open>ReplayBuffer._get_samples\<close> or
  \<open>DictReplayBuffer._get_samples\<close> returns has, for each batch index, the
  terminal signal \<open>dones * (1 - timeouts)\<close> of the entries read at that index
  and the environment drawn for it. A transition stored by \<open>add\<close> into a
  buffer that handles timeouts, and read back at its slot, has the signal
  \<open>done * (1 - truncated)\<close>, which is 0 for \<open>done = 1\<close> and a True
  \<open>TimeLimit.truncated\<close>. A buffer constructed with
  \<open>handle_timeout_termination = False\<close> keeps all timeouts 0, and the signal
  is the stored \<open>done\<close>.
\<close>

theorem terminal_signal_excludes_timeouts:
  "(ReplayBuffer_get_samples s inds env rng = Inr (sm, rng') \<longrightarrow>
      (\<exists>envs. randint 0 (n_envs s) (int (length inds)) rng = Inr (envs, rng')
         \<and> length (s_dones sm) = length inds
         \<and> (\<forall>k < length inds. \<exists>d t.
               np_get2 (dones s) (inds ! k) (envs ! k) = Inr d
               \<and> np_get2 (timeouts s) (inds ! k) (envs ! k) = Inr t
               \<and> s_dones sm ! k = [d * (1 - t)])))
   \<and> (DictReplayBuffer_get_samples u inds uenv rng = Inr (um, rng') \<longrightarrow>
      (\<exists>envs. randint 0 (n_envs u) (int (length inds)) rng = Inr (envs, rng')
         \<and> length (s_dones um) = length inds
         \<and> (\<forall>k < length inds. \<exists>d t.
               np_get2 (dones u) (inds ! k) (envs ! k) = Inr d
               \<and> np_get2 (timeouts u) (inds ! k) (envs ! k) = Inr t
               \<and> s_dones um ! k = [d * (1 - t)])))
   \<and> (ReplayBuffer_init bs zobs zact an n opt True = Inr b
        \<and> v = ReplayBuffer_adds b cs
        \<and> v' = ReplayBuffer_add v obs nobs a r dn infs m
        \<and> ReplayBuffer_get_samples v' [pos v] env rng = Inr (sm, rng')
        \<and> randint 0 (n_envs v') 1 rng = Inr ([e], rng') \<longrightarrow>
      s_dones sm = [[dn ! nat e * (1 - timeout_flag (infs ! nat e))]]
      \<and> (dn ! nat e = 1 \<and> (infs ! nat e) ''TimeLimit.truncated'' = Some True \<longrightarrow>
           s_dones sm = [[0]]))
   \<and> (DictReplayBuffer_init bs space zact an n opt True = Inr d
        \<and> DictReplayBuffer_adds d ds = Inr w
        \<and> DictReplayBuffer_add w dobs dnobs a r dn infs m = Inr w'
        \<and> DictReplayBuffer_get_samples w' [pos w] uenv rng = Inr (um, rng')
        \<and> randint 0 (n_envs w') 1 rng = Inr ([e], rng') \<longrightarrow>
      s_dones um = [[dn ! nat e * (1 - timeout_flag (infs ! nat e))]]
      \<and> (dn ! nat e = 1 \<and> (infs ! nat e) ''TimeLimit.truncated'' = Some True \<longrightarrow>
           s_dones um = [[0]]))
   \<and> (ReplayBuffer_init bs zobs zact an n opt False = Inr b
        \<and> v = ReplayBuffer_adds b cs
        \<and> ReplayBuffer_get_samples v inds env rng = Inr (sm, rng') \<longrightarrow>
      (\<exists>envs. randint 0 (n_envs v) (int (length inds)) rng = Inr (envs, rng')
         \<and> length (s_dones sm) = length inds
         \<and> (\<forall>k < length inds. \<exists>d.
               np_get2 (dones v) (inds ! k) (envs ! k) = Inr d \<and> s_dones sm ! k = [d])))
   \<and> (DictReplayBuffer_init bs space zact an n opt False = Inr d
        \<and> DictReplayBuffer_adds d ds = Inr w
        \<and> DictReplayBuffer_get_samples w inds uenv rng = Inr (um, rng') \<longrightarrow>
      (\<exists>envs. randint 0 (n_envs w) (int (length inds)) rng = Inr (envs, rng')
         \<and> length (s_dones um) = length inds
         \<and> (\<forall>k < length inds. \<exists>d.
               np_get2 (dones w) (inds ! k) (envs ! k) = Inr d \<and> s_dones um ! k = [d])))"
proof (intro conjI impI)
  assume "ReplayBuffer_get_samples s inds env rng = Inr (sm, rng')"
  then show "\<exists>envs. randint 0 (n_envs s) (int (length inds)) rng = Inr (envs, rng')
         \<and> length (s_dones sm) = length inds
         \<and> (\<forall>k < length inds. \<exists>d t.
               np_get2 (dones s) (inds ! k) (envs ! k) = Inr d
               \<and> np_get2 (timeouts s) (inds ! k) (envs ! k) = Inr t
               \<and> s_dones sm ! k = [d * (1 - t)])"
    by (rule ReplayBuffer_signal)
next
  assume "DictReplayBuffer_get_samples u inds uenv rng = Inr (um, rng')"
  then show "\<exists>envs. randint 0 (n_envs u) (int (length inds)) rng = Inr (envs, rng')
         \<and> length (s_dones um) = length inds
         \<and> (\<forall>k < length inds. \<exists>d t.
               np_get2 (dones u) (inds ! k) (envs ! k) = Inr d
               \<and> np_get2 (timeouts u) (inds ! k) (envs ! k) = Inr t
               \<and> s_dones um ! k = [d * (1 - t)])"
    by (rule DictReplayBuffer_signal)
next
  assume h: "ReplayBuffer_init bs zobs zact an n opt True = Inr b
        \<and> v = ReplayBuffer_adds b cs
        \<and> v' = ReplayBuffer_add v obs nobs a r dn infs m
        \<and> ReplayBuffer_get_samples v' [pos v] env rng = Inr (sm, rng')
        \<and> randint 0 (n_envs v') 1 rng = Inr ([e], rng')"
  show stored: "s_dones sm = [[dn ! nat e * (1 - timeout_flag (infs ! nat e))]]"
    using h by (elim conjE) (rule ReplayBuffer_stored_signal)
  assume "dn ! nat e = 1 \<and> (infs ! nat e) ''TimeLimit.truncated'' = Some True"
  from truncated_done_signal [OF this] stored show "s_dones sm = [[0]]"
    by (rule subst)
next
  assume h: "DictReplayBuffer_init bs space zact an n opt True = Inr d
        \<and> DictReplayBuffer_adds d ds = Inr w
        \<and> DictReplayBuffer_add w dobs dnobs a r dn infs m = Inr w'
        \<and> DictReplayBuffer_get_samples w' [pos w] uenv rng = Inr (um, rng')
        \<and> randint 0 (n_envs w') 1 rng = Inr ([e], rng')"
  show stored: "s_dones um = [[dn ! nat e * (1 - timeout_flag (infs ! nat e))]]"
    using h by (elim conjE) (rule DictReplayBuffer_stored_signal)
  assume "dn ! nat e = 1 \<and> (infs ! nat e) ''TimeLimit.truncated'' = Some True"
  from truncated_done_signal [OF this] stored show "s_dones um = [[0]]"
    by (rule subst)
next
  assume "ReplayBuffer_init bs zobs zact an n opt False = Inr b
        \<and> v = ReplayBuffer_adds b cs
        \<and> ReplayBuffer_get_samples v inds env rng = Inr (sm, rng')"
  then show "\<exists>envs. randint 0 (n_envs v) (int (length inds)) rng = Inr (envs, rng')
         \<and> length (s_dones sm) = length inds
         \<and> (\<forall>k < length inds. \<exists>d.
               np_get2 (dones v) (inds ! k) (envs ! k) = Inr d \<and> s_dones sm ! k = [d])"
    by (elim conjE) (rule ReplayBuffer_untimed_signal)
next
  assume "DictReplayBuffer_init bs space zact an n opt False = Inr d
        \<and> DictReplayBuffer_adds d ds = Inr w
        \<and> DictReplayBuffer_get_samples w inds uenv rng = Inr (um, rng')"
  then show "\<exists>envs. randint 0 (n_envs w) (int (length inds)) rng = Inr (envs, rng')
         \<and> length (s_dones um) = length inds
         \<and> (\<forall>k < length inds. \<exists>d.
               np_get2 (dones w) (inds ! k) (envs ! k) = Inr d \<and> s_dones um ! k = [d])"
    by (elim conjE) (rule DictReplayBuffer_untimed_signal)
qed

lemma not_isl_Inr: "\<not> isl x \<Longrightarrow> x = Inr (fst (projr x), snd (projr x))"
  by (cases x) simp_all

theorem terminal_signal_excludes_timeouts_witness:
  "(let b = projr (ReplayBuffer_init 2 nat_space (0::nat) 1 1 False True);
        v' = ReplayBuffer_add (ReplayBuffer_adds b []) [7] [8] [0] [1] [1]
               [[''TimeLimit.truncated'' \<mapsto> True]] [[1]]
    in s_dones (fst (projr (ReplayBuffer_get_samples v' [0] None (\<lambda>k. k)))) = [[0]])
   \<and> (let d = projr (DictReplayBuffer_init 2 [(''bin'', nat_space)] (0::nat) 1 1 False True);
        w' = projr (DictReplayBuffer_add (projr (DictReplayBuffer_adds d []))
               [''bin'' \<mapsto> [7]] [''bin'' \<mapsto> [8]] [0] [1] [1]
               [[''TimeLimit.truncated'' \<mapsto> True]] [[1]])
    in s_dones (fst (projr (DictReplayBuffer_get_samples w' [0] None (\<lambda>k. k)))) = [[0]])
   \<and> (let b = projr (ReplayBuffer_init 2 nat_space (0::nat) 1 1 False False);
        v = ReplayBuffer_adds b
              [\<lparr> call_obs = [7], call_next_obs = [8], call_action = [0], call_reward = [1],
                 call_done = [1], call_infos = [[''TimeLimit.truncated'' \<mapsto> True]],
                 call_truth_mask = [[1]] \<rparr>]
    in s_dones (fst (projr (ReplayBuffer_get_samples v [0] None (\<lambda>k. k)))) = [[1]])
   \<and> (let d = projr (DictReplayBuffer_init 2 [(''bin'', nat_space)] (0::nat) 1 1 False False);
        w = projr (DictReplayBuffer_adds d
              [\<lparr> call_obs = [''bin'' \<mapsto> [7]], call_next_obs = [''bin'' \<mapsto> [8]],
                 call_action = [0], call_reward = [1], call_done = [1],
                 call_infos = [[''TimeLimit.truncated'' \<mapsto> True]],
                 call_truth_mask = [[1]] \<rparr>])
    in s_dones (fst (projr (DictReplayBuffer_get_samples w [0] None (\<lambda>k. k)))) = [[1]])"
proof (intro conjI)
  define b :: "(nat, nat) ReplayBuffer"
    where "b = projr (ReplayBuffer_init 2 nat_space (0::nat) 1 1 False True)"
  have init: "ReplayBuffer_init 2 nat_space (0::nat) 1 1 False True = Inr b"
    by (simp add: b_def ReplayBuffer_init_eq)
  define v where "v = ReplayBuffer_adds b []"
  define v' where "v' = ReplayBuffer_add v [7] [8] [0] [1] [1]
    [[''TimeLimit.truncated'' \<mapsto> True]] [[1]]"
  define x where "x = ReplayBuffer_get_samples v' [0] None (\<lambda>k. k)"
  have pv: "pos v = 0" "n_envs v' = 1"
    using ReplayBuffer_init_Inr [OF init]
    by (simp_all add: v_def ReplayBuffer_adds_def v'_def ReplayBuffer_add_fields)
  have "\<not> isl x"
    unfolding x_def v'_def v_def b_def by code_simp
  from not_isl_Inr [OF this] obtain sm rng' where sm: "x = Inr (sm, rng')" and
    fst: "sm = fst (projr x)"
    by blast
  from sm have gs: "ReplayBuffer_get_samples v' [pos v] None (\<lambda>k. k) = Inr (sm, rng')"
    by (simp add: x_def pv)
  from gs obtain envs where
    envs: "randint 0 (n_envs v') (int (length [pos v])) (\<lambda>k. k) = Inr (envs, rng')"
    by (rule ReplayBuffer_get_samples_Inr)
  from randint_Inr [OF envs] obtain e where e: "envs = [e]" and e0: "e = 0"
    by (cases envs) (auto simp: pv)
  from envs e have r: "randint 0 (n_envs v') 1 (\<lambda>k. k) = Inr ([e], rng')"
    by simp
  note stored = terminal_signal_excludes_timeouts [where bs = 2 and zobs = nat_space
      and zact = "0::nat" and an = 1 and n = 1 and opt = False and b = b and cs = "[]"
      and v = v and v' = v' and obs = "[7]" and nobs = "[8]" and a = "[0]" and r = "[1]"
      and dn = "[1]" and infs = "[[''TimeLimit.truncated'' \<mapsto> True]]" and m = "[[1]]"
      and env = None and rng = "\<lambda>k. k" and sm = sm and rng' = rng' and e = e,
      THEN conjunct2, THEN conjunct2, THEN conjunct1]
  have vd: "v = ReplayBuffer_adds b []"
    "v' = ReplayBuffer_add v [7] [8] [0] [1] [1] [[''TimeLimit.truncated'' \<mapsto> True]] [[1]]"
    by (simp_all add: v_def v'_def)
  from stored init vd gs r have "s_dones sm = [[0]]"
    by (simp add: e0 timeout_flag_def)
  with fst have "s_dones (fst (projr x)) = [[0]]"
    by simp
  then show "let b = projr (ReplayBuffer_init 2 nat_space (0::nat) 1 1 False True);
        v' = ReplayBuffer_add (ReplayBuffer_adds b []) [7] [8] [0] [1] [1]
               [[''TimeLimit.truncated'' \<mapsto> True]] [[1]]
    in s_dones (fst (projr (ReplayBuffer_get_samples v' [0] None (\<lambda>k. k)))) = [[0]]"
    unfolding Let_def x_def v'_def v_def b_def .
next
  define d :: "(nat, nat) DictReplayBuffer"
    where "d = projr (DictReplayBuffer_init 2 [(''bin'', nat_space)] (0::nat) 1 1 False True)"
  have init: "DictReplayBuffer_init 2 [(''bin'', nat_space)] (0::nat) 1 1 False True = Inr d"
    by (simp add: d_def DictReplayBuffer_init_eq)
  define w where "w = projr (DictReplayBuffer_adds d [])"
  have adds: "DictReplayBuffer_adds d [] = Inr w"
    by (simp add: w_def)
  define y where "y = DictReplayBuffer_add w [''bin'' \<mapsto> [7]] [''bin'' \<mapsto> [8]] [0] [1] [1]
    [[''TimeLimit.truncated'' \<mapsto> True]] [[1]]"
  define w' where "w' = projr y"
  have "\<not> isl y"
    unfolding y_def w_def d_def by code_simp
  then have add: "DictReplayBuffer_add w [''bin'' \<mapsto> [7]] [''bin'' \<mapsto> [8]] [0] [1] [1]
    [[''TimeLimit.truncated'' \<mapsto> True]] [[1]] = Inr w'"
    unfolding w'_def y_def [symmetric] by (cases y) simp_all
  define x where "x = DictReplayBuffer_get_samples w' [0] None (\<lambda>k. k)"
  have pw: "pos w = 0" "n_envs w' = 1"
    using DictReplayBuffer_init_Inr [OF init] DictReplayBuffer_add_fields [OF add]
    by (simp_all add: w_def)
  have "\<not> isl x"
    unfolding x_def w'_def y_def w_def d_def by code_simp
  from not_isl_Inr [OF this] obtain um rng' where um: "x = Inr (um, rng')" and
    fst: "um = fst (projr x)"
    by blast
  from um have gs: "DictReplayBuffer_get_samples w' [pos w] None (\<lambda>k. k) = Inr (um, rng')"
    by (simp add: x_def pw)
  from gs obtain envs where
    envs: "randint 0 (n_envs w') (int (length [pos w])) (\<lambda>k. k) = Inr (envs, rng')"
    by (rule DictReplayBuffer_get_samples_Inr)
  from randint_Inr [OF envs] obtain e where e: "envs = [e]" and e0: "e = 0"
    by (cases envs) (auto simp: pw)
  from envs e have r: "randint 0 (n_envs w') 1 (\<lambda>k. k) = Inr ([e], rng')"
    by simp
  note stored = terminal_signal_excludes_timeouts [where bs = 2
      and space = "[(''bin'', nat_space)]" and zact = "0::nat" and an = 1 and n = 1
      and opt = False and d = d and ds = "[]" and w = w and w' = w'
      and dobs = "[''bin'' \<mapsto> [7]]" and dnobs = "[''bin'' \<mapsto> [8]]" and a = "[0]"
      and r = "[1]" and dn = "[1]" and infs = "[[''TimeLimit.truncated'' \<mapsto> True]]"
      and m = "[[1]]" and uenv = None and rng = "\<lambda>k. k" and um = um and rng' = rng'
      and e = e,
      THEN conjunct2, THEN conjunct2, THEN conjunct2, THEN conjunct1]
  from stored init adds add gs r have "s_dones um = [[0]]"
    by (simp add: e0 timeout_flag_def)
  with fst have "s_dones (fst (projr x)) = [[0]]"
    by simp
  then show "let d = projr (DictReplayBuffer_init 2 [(''bin'', nat_space)] (0::nat) 1 1 False True);
        w' = projr (DictReplayBuffer_add (projr (DictReplayBuffer_adds d []))
               [''bin'' \<mapsto> [7]] [''bin'' \<mapsto> [8]] [0] [1] [1]
               [[''TimeLimit.truncated'' \<mapsto> True]] [[1]])
    in s_dones (fst (projr (DictReplayBuffer_get_samples w' [0] None (\<lambda>k. k)))) = [[0]]"
    unfolding Let_def x_def w'_def y_def w_def d_def .
next
  define c :: "(nat list, nat) add_call" where
    "c = \<lparr> call_obs = [7], call_next_obs = [8], call_action = [0], call_reward = [1],
           call_done = [1], call_infos = [[''TimeLimit.truncated'' \<mapsto> True]],
           call_truth_mask = [[1]] \<rparr>"
  define b :: "(nat, nat) ReplayBuffer"
    where "b = projr (ReplayBuffer_init 2 nat_space (0::nat) 1 1 False False)"
  have init: "ReplayBuffer_init 2 nat_space (0::nat) 1 1 False False = Inr b"
    by (simp add: b_def ReplayBuffer_init_eq)
  define v where "v = ReplayBuffer_adds b [c]"
  define x where "x = ReplayBuffer_get_samples v [0] None (\<lambda>k. k)"
  have nv: "n_envs v = 1"
    using ReplayBuffer_init_Inr [OF init] by (simp add: v_def ReplayBuffer_adds_fields)
  have "\<not> isl x"
    unfolding x_def v_def b_def c_def by code_simp
  from not_isl_Inr [OF this] obtain sm rng' where sm: "x = Inr (sm, rng')" and
    fst: "sm = fst (projr x)"
    by blast
  from sm have gs: "ReplayBuffer_get_samples v [0] None (\<lambda>k. k) = Inr (sm, rng')"
    by (simp add: x_def)
  note untimed = terminal_signal_excludes_timeouts [where bs = 2 and zobs = nat_space
      and zact = "0::nat" and an = 1 and n = 1 and opt = False and b = b and cs = "[c]"
      and v = v and inds = "[0]" and env = None and rng = "\<lambda>k. k" and sm = sm
      and rng' = rng',
      THEN conjunct2, THEN conjunct2, THEN conjunct2, THEN conjunct2, THEN conjunct1]
  have vd: "v = ReplayBuffer_adds b [c]"
    by (simp add: v_def)
  from untimed init vd gs
  obtain envs dd where envs: "randint 0 (n_envs v) (int (length [0::int])) (\<lambda>k. k) = Inr (envs, rng')"
    and len: "length (s_dones sm) = 1"
    and dd: "np_get2 (dones v) 0 (envs ! 0) = Inr dd" and sd: "s_dones sm ! 0 = [dd]"
    by auto
  from randint_Inr [OF envs] have e0: "envs ! 0 = 0"
    by (cases envs) (auto simp: nv)
  have "np_get2 (dones v) 0 0 = Inr 1"
    unfolding v_def b_def c_def by code_simp
  with dd e0 have "dd = 1" by simp
  with len sd have "s_dones sm = [[1]]"
    by (cases "s_dones sm") simp_all
  with fst have "s_dones (fst (projr x)) = [[1]]"
    by simp
  then show "let b = projr (ReplayBuffer_init 2 nat_space (0::nat) 1 1 False False);
        v = ReplayBuffer_adds b
              [\<lparr> call_obs = [7], call_next_obs = [8], call_action = [0], call_reward = [1],
                 call_done = [1], call_infos = [[''TimeLimit.truncated'' \<mapsto> True]],
                 call_truth_mask = [[1]] \<rparr>]
    in s_dones (fst (projr (ReplayBuffer_get_samples v [0] None (\<lambda>k. k)))) = [[1]]"
    unfolding Let_def x_def v_def b_def c_def .
next
  define c :: "(string \<rightharpoonup> nat list, nat) add_call" where
    "c = \<lparr> call_obs = [''bin'' \<mapsto> [7]], call_next_obs = [''bin'' \<mapsto> [8]],
           call_action = [0], call_reward = [1], call_done = [1],
           call_infos = [[''TimeLimit.truncated'' \<mapsto> True]],
           call_truth_mask = [[1]] \<rparr>"
  define d :: "(nat, nat) DictReplayBuffer"
    where "d = projr (DictReplayBuffer_init 2 [(''bin'', nat_space)] (0::nat) 1 1 False False)"
  have init: "DictReplayBuffer_init 2 [(''bin'', nat_space)] (0::nat) 1 1 False False = Inr d"
    by (simp add: d_def DictReplayBuffer_init_eq)
  define y where "y = DictReplayBuffer_adds d [c]"
  define w where "w = projr y"
  have "\<not> isl y"
    unfolding y_def d_def c_def by code_simp
  then have adds: "DictReplayBuffer_adds d [c] = Inr w"
    unfolding w_def y_def [symmetric] by (cases y) simp_all
  define x where "x = DictReplayBuffer_get_samples w [0] None (\<lambda>k. k)"
  have nw: "n_envs w = 1"
    using DictReplayBuffer_init_Inr [OF init] DictReplayBuffer_adds_fields [OF adds] by simp
  have "\<not> isl x"
    unfolding x_def w_def y_def d_def c_def by code_simp
  from not_isl_Inr [OF this] obtain um rng' where um: "x = Inr (um, rng')" and
    fst: "um = fst (projr x)"
    by blast
  from um have gs: "DictReplayBuffer_get_samples w [0] None (\<lambda>k. k) = Inr (um, rng')"
    by (simp add: x_def)
  note untimed = terminal_signal_excludes_timeouts [where bs = 2
      and space = "[(''bin'', nat_space)]" and zact = "0::nat" and an = 1 and n = 1
      and opt = False and d = d and ds = "[c]" and w = w and inds = "[0]" and uenv = None
      and rng = "\<lambda>k. k" and um = um and rng' = rng',
      THEN conjunct2, THEN conjunct2, THEN conjunct2, THEN conjunct2, THEN conjunct2]
  from untimed init adds gs
  obtain envs dd where envs: "randint 0 (n_envs w) (int (length [0::int])) (\<lambda>k. k) = Inr (envs, rng')"
    and len: "length (s_dones um) = 1"
    and dd: "np_get2 (dones w) 0 (envs ! 0) = Inr dd" and sd: "s_dones um ! 0 = [dd]"
    by auto
  from randint_Inr [OF envs] have e0: "envs ! 0 = 0"
    by (cases envs) (auto simp: nw)
  have "np_get2 (dones w) 0 0 = Inr 1"
    unfolding w_def y_def d_def c_def by code_simp
  with dd e0 have "dd = 1" by simp
  with len sd have "s_dones um = [[1]]"
    by (cases "s_dones um") simp_all
  with fst have "s_dones (fst (projr x)) = [[1]]"
    by simp
  then show "let d = projr (DictReplayBuffer_init 2 [(''bin'', nat_space)] (0::nat) 1 1 False False);
        w = projr (DictReplayBuffer_adds d
              [\<lparr> call_obs = [''bin'' \<mapsto> [7]], call_next_obs = [''bin'' \<mapsto> [8]],
                 call_action = [0], call_reward = [1], call_done = [1],
                 call_infos = [[''TimeLimit.truncated'' \<mapsto> True]],
                 call_truth_mask = [[1]] \<rparr>])
    in s_dones (fst (projr (DictReplayBuffer_get_samples w [0] None (\<lambda>k. k)))) = [[1]]"
    unfolding Let_def x_def w_def y_def d_def c_def .
qed

subsection \<open>The aliased next observation\<close>

lemma np_get_in_range:
  "0 \<le> i \<Longrightarrow> nat i < length xs \<Longrightarrow> np_get xs i = Inr (xs ! nat i)"
  by (auto simp: np_get_def Let_def)

lemma successor_slot:
  fixes p bs :: int
  assumes "0 \<le> p" "p < bs"
  shows "0 \<le> (p + 1) mod bs" "nat ((p + 1) mod bs) < nat bs"
proof -
  from assms have bs: "0 < bs" by simp
  then show "0 \<le> (p + 1) mod bs" by simp
  from bs have "(p + 1) mod bs < bs" by simp
  with bs show "nat ((p + 1) mod bs) < nat bs" by simp
qed

lemma ReplayBuffer_adds_space:
  "observation_space (ReplayBuffer_adds b cs) = observation_space b"
  by (induction cs arbitrary: b)
     (simp_all add: ReplayBuffer_adds_def ReplayBuffer_add_call_def ReplayBuffer_add_def Let_def)

lemma ReplayBuffer_init_space:
  assumes "ReplayBuffer_init bs zobs zact an n opt hto = Inr b"
  shows "observation_space b = zobs"
  using assms by (auto simp: ReplayBuffer_init_eq split: if_splits)

lemma ReplayBuffer_add_next_obs:
  assumes init: "ReplayBuffer_init bs zobs zact an n True hto = Inr b"
    and v: "v = ReplayBuffer_adds b cs"
    and v': "v' = ReplayBuffer_add v obs nobs a r dn infs m"
  shows "observations v' ! nat ((pos v + 1) mod buffer_size v) = map (dtype zobs) nobs"
    "optimize_memory_usage v'" "buffer_size v' = buffer_size v"
    "length (observations v') = nat (buffer_size v)"
    "0 \<le> pos v" "pos v < buffer_size v"
proof -
  show range: "0 \<le> pos v" "pos v < buffer_size v"
    using ReplayBuffer_reachable_pos [OF init, of cs] by (simp_all add: v)
  have opt: "optimize_memory_usage v"
    using ReplayBuffer_init_Inr(5) [OF init] by (simp add: v ReplayBuffer_adds_fields)
  have len: "length (observations v) = nat (buffer_size v)"
    using ReplayBuffer_init_arrays(3) [OF init]
    by (simp add: v ReplayBuffer_adds_lengths ReplayBuffer_adds_fields)
  have sp: "observation_space v = zobs"
    using ReplayBuffer_init_space [OF init] by (simp add: v ReplayBuffer_adds_space)
  from opt have arr: "observations v' =
      ((observations v)[nat (pos v) := map (dtype zobs) obs])
        [nat ((pos v + 1) mod buffer_size v) := map (dtype zobs) nobs]"
    by (simp add: v' ReplayBuffer_add_arrays sp)
  from successor_slot(2) [OF range] len
  show "observations v' ! nat ((pos v + 1) mod buffer_size v) = map (dtype zobs) nobs"
    by (simp add: arr)
  show "optimize_memory_usage v'" "buffer_size v' = buffer_size v"
    using opt by (simp_all add: v' ReplayBuffer_add_fields)
  show "length (observations v') = nat (buffer_size v)"
    using len by (simp add: arr)
qed

lemma ReplayBuffer_next_obs_read:
  assumes opt: "optimize_memory_usage s"
    and smp: "ReplayBuffer_get_samples s inds env rng = Inr (sm, rng')"
  shows "\<exists>envs raw. randint 0 (n_envs s) (int (length inds)) rng = Inr (envs, rng')
    \<and> s_next_observations sm = BaseBuffer_normalize_obs env raw
    \<and> length raw = length inds
    \<and> (\<forall>k < length inds.
          np_get2 (observations s) ((inds ! k + 1) mod buffer_size s) (envs ! k) = Inr (raw ! k))"
proof -
  from smp obtain envs ds ts raw where
    envs: "randint 0 (n_envs s) (int (length inds)) rng = Inr (envs, rng')"
    and raw: "(if optimize_memory_usage s
      then index2 (observations s) (map (\<lambda>i. (i + 1) mod buffer_size s) inds) envs
      else (case next_observations s of
              None \<Rightarrow> Inl (AttributeError ''next_observations'')
            | Some a \<Rightarrow> index2 a inds envs)) = Inr raw"
    and nxt: "s_next_observations sm = BaseBuffer_normalize_obs env raw"
    by (rule ReplayBuffer_get_samples_Inr)
  from raw opt have i2: "index2 (observations s) (map (\<lambda>i. (i + 1) mod buffer_size s) inds) envs
      = Inr raw"
    by simp
  have len: "length envs = length (map (\<lambda>i. (i + 1) mod buffer_size s) inds)"
    using randint_Inr(2) [OF envs] by simp
  from index2_Inr [OF i2 len] envs nxt show ?thesis
    by auto
qed

lemma ReplayBuffer_next_obs_returned:
  assumes init: "ReplayBuffer_init bs zobs zact an n True hto = Inr b"
    and v: "v = ReplayBuffer_adds b cs"
    and v': "v' = ReplayBuffer_add v obs nobs a r dn infs m"
    and x: "x = ReplayBuffer_adds v' later"
    and kept: "observations x ! nat ((pos v + 1) mod buffer_size v) =
        observations v' ! nat ((pos v + 1) mod buffer_size v)"
    and smp: "ReplayBuffer_get_samples x [pos v] env rng = Inr (sm, rng')"
    and e: "randint 0 (n_envs x) 1 rng = Inr ([e], rng')"
  shows "s_next_observations sm = BaseBuffer_normalize_obs env [dtype zobs (nobs ! nat e)]"
proof -
  note f = ReplayBuffer_add_next_obs [OF init v v']
  have optx: "optimize_memory_usage x" and bsx: "buffer_size x = buffer_size v"
    and lenx: "length (observations x) = nat (buffer_size v)"
    using f by (simp_all add: x ReplayBuffer_adds_fields ReplayBuffer_adds_lengths)
  from ReplayBuffer_next_obs_read [OF optx smp] e obtain raw where
    nxt: "s_next_observations sm = BaseBuffer_normalize_obs env raw"
    and len: "length raw = 1"
    and rd: "np_get2 (observations x) ((pos v + 1) mod buffer_size v) e = Inr (raw ! 0)"
    by (auto simp: bsx)
  note slot = successor_slot [OF f(5) f(6)]
  have row: "np_get (observations x) ((pos v + 1) mod buffer_size v)
      = Inr (map (dtype zobs) nobs)"
    using np_get_in_range [OF slot(1), of "observations x"] slot(2) lenx kept f(1) by simp
  have e0: "0 \<le> e"
    using randint_Inr(1) [OF e] by simp
  from rd row have "np_get (map (dtype zobs) nobs) e = Inr (raw ! 0)"
    by (simp add: np_get2_def)
  from np_get_nonneg [OF this e0] have "raw ! 0 = dtype zobs (nobs ! nat e)" by simp
  with len have "raw = [dtype zobs (nobs ! nat e)]"
    by (cases raw) simp_all
  with nxt show ?thesis by simp
qed


text \<open>
  Claim C5. In memory-optimized mode \<open>add\<close> writes \<open>next_obs\<close>, converted
  to the dtype of the observation space, into
  \<open>observations[(pos + 1) % buffer_size]\<close>, and \<open>_get_samples\<close> reads the
  next observation of batch index \<open>i\<close> from
  \<open>observations[(i + 1) % buffer_size]\<close> (at the environment drawn for it).
  Hence, for a slot \<open>p\<close> written by \<open>add\<close> whose successor slot still holds
  what that \<open>add\<close> wrote, after any later calls of \<open>add\<close>, sampling index
  \<open>p\<close> returns the \<open>next_obs\<close> passed to that \<open>add\<close>: its entry for the
  drawn environment, converted to the dtype of the observation space and
  passed through the base class's \<open>_normalize_obs\<close>. It is exactly the entry
  that was passed when no environment wrapper is given to the sampling call
  and the conversion leaves the entry as it is.
\<close>

theorem next_observation_aliased:
  "(ReplayBuffer_init bs zobs zact an n True hto = Inr b
      \<and> v = ReplayBuffer_adds b cs
      \<and> v' = ReplayBuffer_add v obs nobs a r dn infs m \<longrightarrow>
        observations v' ! nat ((pos v + 1) mod buffer_size v) = map (dtype zobs) nobs)
   \<and> (optimize_memory_usage s
      \<and> ReplayBuffer_get_samples s inds env rng = Inr (sm, rng') \<longrightarrow>
        (\<exists>envs raw. randint 0 (n_envs s) (int (length inds)) rng = Inr (envs, rng')
           \<and> s_next_observations sm = BaseBuffer_normalize_obs env raw
           \<and> length raw = length inds
           \<and> (\<forall>k < length inds.
                 np_get2 (observations s) ((inds ! k + 1) mod buffer_size s) (envs ! k)
                   = Inr (raw ! k))))
   \<and> (ReplayBuffer_init bs zobs zact an n True hto = Inr b
      \<and> v = ReplayBuffer_adds b cs
      \<and> v' = ReplayBuffer_add v obs nobs a r dn infs m
      \<and> x = ReplayBuffer_adds v' later
      \<and> observations x ! nat ((pos v + 1) mod buffer_size v) =
          observations v' ! nat ((pos v + 1) mod buffer_size v)
      \<and> ReplayBuffer_get_samples x [pos v] env rng = Inr (sm, rng')
      \<and> randint 0 (n_envs x) 1 rng = Inr ([e], rng') \<longrightarrow>
        s_next_observations sm = BaseBuffer_normalize_obs env [dtype zobs (nobs ! nat e)]
        \<and> (env = None \<and> dtype zobs (nobs ! nat e) = nobs ! nat e \<longrightarrow>
             s_next_observations sm = [nobs ! nat e]))"
proof (intro conjI impI)
  assume "ReplayBuffer_init bs zobs zact an n True hto = Inr b
      \<and> v = ReplayBuffer_adds b cs
      \<and> v' = ReplayBuffer_add v obs nobs a r dn infs m"
  then show "observations v' ! nat ((pos v + 1) mod buffer_size v) = map (dtype zobs) nobs"
    by (elim conjE) (rule ReplayBuffer_add_next_obs(1))
next
  assume "optimize_memory_usage s
      \<and> ReplayBuffer_get_samples s inds env rng = Inr (sm, rng')"
  then show "\<exists>envs raw. randint 0 (n_envs s) (int (length inds)) rng = Inr (envs, rng')
           \<and> s_next_observations sm = BaseBuffer_normalize_obs env raw
           \<and> length raw = length inds
           \<and> (\<forall>k < length inds.
                 np_get2 (observations s) ((inds ! k + 1) mod buffer_size s) (envs ! k)
                   = Inr (raw ! k))"
    by (elim conjE) (rule ReplayBuffer_next_obs_read)
next
  assume h: "ReplayBuffer_init bs zobs zact an n True hto = Inr b
      \<and> v = ReplayBuffer_adds b cs
      \<and> v' = ReplayBuffer_add v obs nobs a r dn infs m
      \<and> x = ReplayBuffer_adds v' later
      \<and> observations x ! nat ((pos v + 1) mod buffer_size v) =
          observations v' ! nat ((pos v + 1) mod buffer_size v)
      \<and> ReplayBuffer_get_samples x [pos v] env rng = Inr (sm, rng')
      \<and> randint 0 (n_envs x) 1 rng = Inr ([e], rng')"
  show ret: "s_next_observations sm = BaseBuffer_normalize_obs env [dtype zobs (nobs ! nat e)]"
    using h by (elim conjE) (rule ReplayBuffer_next_obs_returned)
  assume "env = None \<and> dtype zobs (nobs ! nat e) = nobs ! nat e"
  with ret show "s_next_observations sm = [nobs ! nat e]"
    by (simp add: BaseBuffer_normalize_obs_def)
qed

theorem next_observation_aliased_witness:
  "(let b = projr (ReplayBuffer_init 3 nat_space (0::nat) 1 1 True False);
        v' = ReplayBuffer_add (ReplayBuffer_adds b []) [7] [8] [0] [1] [0] [Map.empty] [[1]];
        x = ReplayBuffer_adds v'
              [\<lparr> call_obs = [8], call_next_obs = [9], call_action = [0], call_reward = [1],
                 call_done = [0], call_infos = [Map.empty], call_truth_mask = [[1]] \<rparr>]
    in observations v' ! 1 = [8]
       \<and> s_next_observations
            (fst (projr (ReplayBuffer_get_samples x [0] None (\<lambda>k. k)))) = [8])
   \<and> (let b = projr (ReplayBuffer_init 3 uint8_space (0::nat) 1 1 True False);
        v' = ReplayBuffer_add (ReplayBuffer_adds b []) [7] [300] [0] [1] [0] [Map.empty] [[1]]
    in observations v' ! 1 = [44]
       \<and> s_next_observations
            (fst (projr (ReplayBuffer_get_samples (ReplayBuffer_adds v' []) [0] None (\<lambda>k. k))))
          = [44])"
proof (intro conjI)
  define c :: "(nat list, nat) add_call" where
    "c = \<lparr> call_obs = [8], call_next_obs = [9], call_action = [0], call_reward = [1],
           call_done = [0], call_infos = [Map.empty], call_truth_mask = [[1]] \<rparr>"
  define b :: "(nat, nat) ReplayBuffer"
    where "b = projr (ReplayBuffer_init 3 nat_space (0::nat) 1 1 True False)"
  have init: "ReplayBuffer_init 3 nat_space (0::nat) 1 1 True False = Inr b"
    by (simp add: b_def ReplayBuffer_init_eq)
  define v where "v = ReplayBuffer_adds b []"
  define v' where "v' = ReplayBuffer_add v [7] [8] [0] [1] [0] [Map.empty] [[1]]"
  define x where "x = ReplayBuffer_adds v' [c]"
  define y where "y = ReplayBuffer_get_samples x [0] None (\<lambda>k. k)"
  have v: "v = b"
    by (simp add: v_def ReplayBuffer_adds_def)
  have pv: "pos v = 0" "buffer_size v = 3" "n_envs x = 1" "optimize_memory_usage x"
    using ReplayBuffer_init_Inr [OF init]
    by (simp_all add: v x_def ReplayBuffer_adds_fields v'_def ReplayBuffer_add_fields)
  have "\<not> isl y"
    unfolding y_def x_def v'_def v_def b_def c_def by code_simp
  from not_isl_Inr [OF this] obtain sm rng' where sm: "y = Inr (sm, rng')" and
    fst: "sm = fst (projr y)"
    by blast
  from sm have gs: "ReplayBuffer_get_samples x [pos v] None (\<lambda>k. k) = Inr (sm, rng')"
    by (simp add: y_def pv)
  from gs obtain envs where
    envs: "randint 0 (n_envs x) (int (length [pos v])) (\<lambda>k. k) = Inr (envs, rng')"
    by (rule ReplayBuffer_get_samples_Inr)
  from randint_Inr [OF envs] obtain e where e: "envs = [e]" and e0: "e = 0"
    by (cases envs) (auto simp: pv)
  from envs e have r: "randint 0 (n_envs x) 1 (\<lambda>k. k) = Inr ([e], rng')"
    by simp
  have "observations x ! 1 = observations v' ! 1"
    unfolding x_def v'_def v_def b_def c_def by code_simp
  then have kept: "observations x ! nat ((pos v + 1) mod buffer_size v) =
      observations v' ! nat ((pos v + 1) mod buffer_size v)"
    by (simp add: pv)
  have vd: "v = ReplayBuffer_adds b []"
    "v' = ReplayBuffer_add v [7] [8] [0] [1] [0] [Map.empty] [[1]]"
    "x = ReplayBuffer_adds v' [c]"
    by (simp_all add: v_def v'_def x_def)
  note inst = next_observation_aliased [where bs = 3 and zobs = nat_space and zact = "0::nat"
      and an = 1 and n = 1 and hto = False and b = b and cs = "[]" and v = v and v' = v'
      and obs = "[7]" and nobs = "[8]" and a = "[0]" and r = "[1]" and dn = "[0]"
      and infs = "[Map.empty]" and m = "[[1]]" and env = None and s = x and inds = "[pos v]"
      and rng = "\<lambda>k. k" and sm = sm and rng' = rng' and e = e and x = x and later = "[c]"]
  from init vd
  have "ReplayBuffer_init 3 nat_space (0::nat) 1 1 True False = Inr b
      \<and> v = ReplayBuffer_adds b []
      \<and> v' = ReplayBuffer_add v [7] [8] [0] [1] [0] [Map.empty] [[1]]"
    by (intro conjI)
  from inst [THEN conjunct1, THEN mp, OF this]
  have slot: "observations v' ! nat ((pos v + 1) mod buffer_size v) = [8]"
    by simp
  from inst [THEN conjunct2, THEN conjunct1] pv(4) gs
  obtain raw where "s_next_observations sm = BaseBuffer_normalize_obs None raw"
    and "length raw = length [pos v]"
    by blast
  from init vd kept gs r
  have "ReplayBuffer_init 3 nat_space (0::nat) 1 1 True False = Inr b
      \<and> v = ReplayBuffer_adds b []
      \<and> v' = ReplayBuffer_add v [7] [8] [0] [1] [0] [Map.empty] [[1]]
      \<and> x = ReplayBuffer_adds v' [c]
      \<and> observations x ! nat ((pos v + 1) mod buffer_size v) =
          observations v' ! nat ((pos v + 1) mod buffer_size v)
      \<and> ReplayBuffer_get_samples x [pos v] None (\<lambda>k. k) = Inr (sm, rng')
      \<and> randint 0 (n_envs x) 1 (\<lambda>k. k) = Inr ([e], rng')"
    by (intro conjI)
  from inst [THEN conjunct2, THEN conjunct2, THEN mp, OF this]
  have "s_next_observations sm = [[8] ! nat e]"
    by (simp add: BaseBuffer_normalize_obs_def)
  with fst e0 have "s_next_observations (fst (projr y)) = [8]"
    by simp
  moreover from slot have "observations v' ! 1 = [8]"
    by (simp add: pv)
  ultimately show "let b = projr (ReplayBuffer_init 3 nat_space (0::nat) 1 1 True False);
        v' = ReplayBuffer_add (ReplayBuffer_adds b []) [7] [8] [0] [1] [0] [Map.empty] [[1]];
        x = ReplayBuffer_adds v'
              [\<lparr> call_obs = [8], call_next_obs = [9], call_action = [0], call_reward = [1],
                 call_done = [0], call_infos = [Map.empty], call_truth_mask = [[1]] \<rparr>]
    in observations v' ! 1 = [8]
       \<and> s_next_observations
            (fst (projr (ReplayBuffer_get_samples x [0] None (\<lambda>k. k)))) = [8]"
    unfolding Let_def y_def x_def v'_def v_def b_def c_def by simp
next
  define b :: "(int, nat) ReplayBuffer"
    where "b = projr (ReplayBuffer_init 3 uint8_space (0::nat) 1 1 True False)"
  have init: "ReplayBuffer_init 3 uint8_space (0::nat) 1 1 True False = Inr b"
    by (simp add: b_def ReplayBuffer_init_eq)
  define v where "v = ReplayBuffer_adds b []"
  define v' where "v' = ReplayBuffer_add v [7] [300] [0] [1] [0] [Map.empty] [[1]]"
  define x where "x = ReplayBuffer_adds v' []"
  define y where "y = ReplayBuffer_get_samples x [0] None (\<lambda>k. k)"
  have v: "v = b"
    by (simp add: v_def ReplayBuffer_adds_def)
  have pv: "pos v = 0" "buffer_size v = 3" "n_envs x = 1" "optimize_memory_usage x"
    using ReplayBuffer_init_Inr [OF init]
    by (simp_all add: v x_def ReplayBuffer_adds_fields v'_def ReplayBuffer_add_fields)
  have "\<not> isl y"
    unfolding y_def x_def v'_def v_def b_def by code_simp
  from not_isl_Inr [OF this] obtain sm rng' where sm: "y = Inr (sm, rng')" and
    fst: "sm = fst (projr y)"
    by blast
  from sm have gs: "ReplayBuffer_get_samples x [pos v] None (\<lambda>k. k) = Inr (sm, rng')"
    by (simp add: y_def pv)
  from gs obtain envs where
    envs: "randint 0 (n_envs x) (int (length [pos v])) (\<lambda>k. k) = Inr (envs, rng')"
    by (rule ReplayBuffer_get_samples_Inr)
  from randint_Inr [OF envs] obtain e where e: "envs = [e]" and e0: "e = 0"
    by (cases envs) (auto simp: pv)
  from envs e have r: "randint 0 (n_envs x) 1 (\<lambda>k. k) = Inr ([e], rng')"
    by simp
  have kept: "observations x ! nat ((pos v + 1) mod buffer_size v) =
      observations v' ! nat ((pos v + 1) mod buffer_size v)"
    by (simp add: x_def ReplayBuffer_adds_def)
  have vd: "v = ReplayBuffer_adds b []"
    "v' = ReplayBuffer_add v [7] [300] [0] [1] [0] [Map.empty] [[1]]"
    "x = ReplayBuffer_adds v' []"
    by (simp_all add: v_def v'_def x_def)
  note inst = next_observation_aliased [where bs = 3 and zobs = uint8_space and zact = "0::nat"
      and an = 1 and n = 1 and hto = False and b = b and cs = "[]" and v = v and v' = v'
      and obs = "[7]" and nobs = "[300]" and a = "[0]" and r = "[1]" and dn = "[0]"
      and infs = "[Map.empty]" and m = "[[1]]" and env = None and s = x and inds = "[pos v]"
      and rng = "\<lambda>k. k" and sm = sm and rng' = rng' and e = e and x = x and later = "[]"]
  from init vd
  have "ReplayBuffer_init 3 uint8_space (0::nat) 1 1 True False = Inr b
      \<and> v = ReplayBuffer_adds b []
      \<and> v' = ReplayBuffer_add v [7] [300] [0] [1] [0] [Map.empty] [[1]]"
    by (intro conjI)
  from inst [THEN conjunct1, THEN mp, OF this]
  have slot: "observations v' ! nat ((pos v + 1) mod buffer_size v) = [44]"
    by simp
  from init vd kept gs r
  have "ReplayBuffer_init 3 uint8_space (0::nat) 1 1 True False = Inr b
      \<and> v = ReplayBuffer_adds b []
      \<and> v' = ReplayBuffer_add v [7] [300] [0] [1] [0] [Map.empty] [[1]]
      \<and> x = ReplayBuffer_adds v' []
      \<and> observations x ! nat ((pos v + 1) mod buffer_size v) =
          observations v' ! nat ((pos v + 1) mod buffer_size v)
      \<and> ReplayBuffer_get_samples x [pos v] None (\<lambda>k. k) = Inr (sm, rng')
      \<and> randint 0 (n_envs x) 1 (\<lambda>k. k) = Inr ([e], rng')"
    by (intro conjI)
  from inst [THEN conjunct2, THEN conjunct2, THEN mp, OF this]
  have "s_next_observations sm = BaseBuffer_normalize_obs None [([300] ! nat e) mod 256]"
    by simp
  with fst e0 have "s_next_observations (fst (projr y)) = [44]"
    by (simp add: BaseBuffer_normalize_obs_def)
  moreover from slot have "observations v' ! 1 = [44]"
    by (simp add: pv)
  ultimately show "let b = projr (ReplayBuffer_init 3 uint8_space (0::nat) 1 1 True False);
        v' = ReplayBuffer_add (ReplayBuffer_adds b []) [7] [300] [0] [1] [0] [Map.empty] [[1]]
    in observations v' ! 1 = [44]
       \<and> s_next_observations
            (fst (projr (ReplayBuffer_get_samples (ReplayBuffer_adds v' []) [0] None (\<lambda>k. k))))
          = [44]"
    unfolding Let_def y_def x_def v'_def v_def b_def by simp
qed

text \<open>
  What sampling returns is not always the \<open>next_obs\<close> that was passed: with a
  normalizing environment wrapper given to the sampling call it is the
  normalized value (here one more than each entry), and a value outside the
  dtype of the observation space (300 in a \<open>uint8\<close> array) comes back
  converted.
\<close>

theorem next_observation_not_exact:
  "s_next_observations
     (fst (projr (ReplayBuffer_get_samples
        (ReplayBuffer_add (projr (ReplayBuffer_init 3 nat_space (0::nat) 1 1 True False))
           [7] [8] [0] [1] [0] [Map.empty] [[1]])
        [0] (Some \<lparr> normalize_obs = map Suc, normalize_reward = \<lambda>r. r \<rparr>) (\<lambda>k. k)))) = [9]
   \<and> s_next_observations
     (fst (projr (ReplayBuffer_get_samples
        (ReplayBuffer_add (projr (ReplayBuffer_init 3 uint8_space (0::nat) 1 1 True False))
           [7] [300] [0] [1] [0] [Map.empty] [[1]])
        [0] None (\<lambda>k. k)))) = [44]"
  by code_simp

subsection \<open>Network aliases\<close>

lemma get_network_from_name_eq:
  "get_network_from_name name =
     (if name = ''CnnMlpNetwork1'' then Inr CnnMlpNetwork1
      else if name = ''CnnMlpNetwork2'' then Inr CnnMlpNetwork2
      else if name = ''CnnMlpNetwork3'' then Inr CnnMlpNetwork3
      else if name = ''CnnMlpNetwork4'' then Inr CnnMlpNetwork4
      else Inl (ValueError (''Policy '' @ name @ '' unknown'')))"
  by (simp add: get_network_from_name_def network_aliases_def)

lemma seq_eq_Inl: "seq m f = Inl e \<longleftrightarrow> m = Inl e \<or> (\<exists>x. m = Inr x \<and> f x = Inl e)"
  by (cases m) simp_all

lemma QNetwork_init_ValueError:
  assumes "QNetwork_init host os n ni c kw coef = Inl (ValueError msg)"
  shows "\<exists>sp k. new_network host c sp n k = Inl (ValueError msg)"
  using assms
  by (auto simp: QNetwork_init_def seq_eq_Inl split: option.splits)

lemma QNetwork_init_Inr:
  assumes "QNetwork_init host os n ni c kw coef = Inr q"
  shows "qn_network_class q = c" "mask_replace_coef q = coef" "qn_network_kwargs q = kw"
    "kw \<noteq> None" "os (BIN host) \<noteq> None"
  using assms
  by (auto simp: QNetwork_init_def seq_eq_Inr split: option.splits)

lemma DQNPolicy_build_ValueError:
  assumes "DQNPolicy_build host os n lr ni oc okw c kw coef = Inl (ValueError msg)"
  shows "(\<exists>sp k. new_network host c sp n k = Inl (ValueError msg))
    \<or> (\<exists>a b. load_state_dict host a b = Inl (ValueError msg))
    \<or> lr 1 = Inl (ValueError msg)
    \<or> (\<exists>net r. new_optimizer oc net r okw = Inl (ValueError msg))"
proof -
  let ?q = "QNetwork_init host os n ni c kw coef"
  show ?thesis
  proof (cases ?q)
    case (Inl e)
    with assms have "?q = Inl (ValueError msg)"
      by (simp add: DQNPolicy_build_def DQNPolicy_make_q_net_def)
    from QNetwork_init_ValueError [OF this] show ?thesis by blast
  next
    case (Inr q)
    with assms show ?thesis
      by (auto simp: DQNPolicy_build_def DQNPolicy_make_q_net_def Let_def seq_eq_Inl)
  qed
qed

lemma DQNPolicy_build_Inr:
  assumes "DQNPolicy_build host os n lr ni oc okw c kw coef = Inr p"
  shows "network_class p = c" "qn_network_class (q_net p) = c"
    "qn_network_class (q_net_target p) = c" "policy_mask_replace_coef p = coef"
proof -
  from assms obtain q qt where q: "QNetwork_init host os n ni c kw coef = Inr q"
    and qt: "QNetwork_init host os n ni c kw coef = Inr qt"
    and p: "network_class p = c" "q_net p = q" "policy_mask_replace_coef p = coef"
      "qn_network_class (q_net_target p) = qn_network_class qt"
    by (auto simp: DQNPolicy_build_def DQNPolicy_make_q_net_def Let_def seq_eq_Inr)
  from p QNetwork_init_Inr(1) [OF q] QNetwork_init_Inr(1) [OF qt]
  show "network_class p = c" "qn_network_class (q_net p) = c"
    "qn_network_class (q_net_target p) = c" "policy_mask_replace_coef p = coef"
    by simp_all
qed

lemma registered_alias:
  assumes "name \<in> {''CnnMlpNetwork1'', ''CnnMlpNetwork2'', ''CnnMlpNetwork3'', ''CnnMlpNetwork4''}"
  shows "\<exists>c. map_of network_aliases name = Some c \<and> get_network_from_name name = Inr c"
  using assms by (auto simp: get_network_from_name_eq network_aliases_def)

lemma unregistered_alias:
  assumes "name \<notin> {''CnnMlpNetwork1'', ''CnnMlpNetwork2'', ''CnnMlpNetwork3'', ''CnnMlpNetwork4''}"
  shows "get_network_from_name name = Inl (ValueError (''Policy '' @ name @ '' unknown''))"
  using assms by (simp add: get_network_from_name_eq)

lemma DQNPolicy_init_class:
  "DQNPolicy_init host os n lr ni oc ok (NetworkClass c) kw coef =
     DQNPolicy_build host os n lr ni oc
       (case ok of None \<Rightarrow> (if is_Adam oc then [''eps'' \<mapsto> 1 / 100000] else Map.empty)
        | Some kwargs \<Rightarrow> kwargs) c kw coef"
  by (simp add: DQNPolicy_init_def Let_def)

lemma DQNPolicy_init_name:
  assumes "get_network_from_name name = Inr c"
  shows "DQNPolicy_init host os n lr ni oc ok (NetworkName name) kw coef =
     DQNPolicy_init host os n lr ni oc ok (NetworkClass c) kw coef"
  using assms by (simp add: DQNPolicy_init_def)

text \<open>
  Claim C6. Constructing a \<open>DQNPolicy\<close> with a string for \<open>network\<close> that is
  none of the four registered aliases raises the ValueError of
  \<open>_get_network_from_name\<close>, whatever the other arguments are. For a
  registered alias, \<open>_get_network_from_name\<close> returns the network class
  registered under it, and the constructor does what it does when that class
  itself is passed: a policy it returns has that class, and a ValueError it
  raises was raised by the constructor of the network, by \<open>load_state_dict\<close>,
  by the learning-rate schedule or by the constructor of the optimizer.
\<close>

theorem unknown_network_alias_rejected:
  "(name \<notin> {''CnnMlpNetwork1'', ''CnnMlpNetwork2'', ''CnnMlpNetwork3'', ''CnnMlpNetwork4''} \<longrightarrow>
      DQNPolicy_init host os n lr ni oc ok (NetworkName name) kw coef
        = Inl (ValueError (''Policy '' @ name @ '' unknown'')))
   \<and> get_network_from_name ''CnnMlpNetwork1'' = Inr CnnMlpNetwork1
   \<and> get_network_from_name ''CnnMlpNetwork2'' = Inr CnnMlpNetwork2
   \<and> get_network_from_name ''CnnMlpNetwork3'' = Inr CnnMlpNetwork3
   \<and> get_network_from_name ''CnnMlpNetwork4'' = Inr CnnMlpNetwork4
   \<and> (name \<in> {''CnnMlpNetwork1'', ''CnnMlpNetwork2'', ''CnnMlpNetwork3'', ''CnnMlpNetwork4''} \<longrightarrow>
        (\<exists>c. map_of network_aliases name = Some c \<and> get_network_from_name name = Inr c
           \<and> DQNPolicy_init host os n lr ni oc ok (NetworkName name) kw coef
               = DQNPolicy_init host os n lr ni oc ok (NetworkClass c) kw coef
           \<and> (\<forall>p. DQNPolicy_init host os n lr ni oc ok (NetworkName name) kw coef = Inr p \<longrightarrow>
                 network_class p = c \<and> qn_network_class (q_net p) = c
                 \<and> qn_network_class (q_net_target p) = c)
           \<and> (\<forall>msg. DQNPolicy_init host os n lr ni oc ok (NetworkName name) kw coef
                       = Inl (ValueError msg) \<longrightarrow>
                 (\<exists>sp k. new_network host c sp n k = Inl (ValueError msg))
                 \<or> (\<exists>a b. load_state_dict host a b = Inl (ValueError msg))
                 \<or> lr 1 = Inl (ValueError msg)
                 \<or> (\<exists>net r kwargs. new_optimizer oc net r kwargs = Inl (ValueError msg)))))"
proof (intro conjI)
  show "name \<notin> {''CnnMlpNetwork1'', ''CnnMlpNetwork2'', ''CnnMlpNetwork3'', ''CnnMlpNetwork4''} \<longrightarrow>
      DQNPolicy_init host os n lr ni oc ok (NetworkName name) kw coef
        = Inl (ValueError (''Policy '' @ name @ '' unknown''))"
  proof
    assume "name \<notin> {''CnnMlpNetwork1'', ''CnnMlpNetwork2'', ''CnnMlpNetwork3'', ''CnnMlpNetwork4''}"
    from unregistered_alias [OF this] show
      "DQNPolicy_init host os n lr ni oc ok (NetworkName name) kw coef
        = Inl (ValueError (''Policy '' @ name @ '' unknown''))"
      by (simp add: DQNPolicy_init_def)
  qed
next
  show "get_network_from_name ''CnnMlpNetwork1'' = Inr CnnMlpNetwork1"
    by (simp add: get_network_from_name_eq)
next
  show "get_network_from_name ''CnnMlpNetwork2'' = Inr CnnMlpNetwork2"
    by (simp add: get_network_from_name_eq)
next
  show "get_network_from_name ''CnnMlpNetwork3'' = Inr CnnMlpNetwork3"
    by (simp add: get_network_from_name_eq)
next
  show "get_network_from_name ''CnnMlpNetwork4'' = Inr CnnMlpNetwork4"
    by (simp add: get_network_from_name_eq)
next
  show "name \<in> {''CnnMlpNetwork1'', ''CnnMlpNetwork2'', ''CnnMlpNetwork3'', ''CnnMlpNetwork4''} \<longrightarrow>
        (\<exists>c. map_of network_aliases name = Some c \<and> get_network_from_name name = Inr c
           \<and> DQNPolicy_init host os n lr ni oc ok (NetworkName name) kw coef
               = DQNPolicy_init host os n lr ni oc ok (NetworkClass c) kw coef
           \<and> (\<forall>p. DQNPolicy_init host os n lr ni oc ok (NetworkName name) kw coef = Inr p \<longrightarrow>
                 network_class p = c \<and> qn_network_class (q_net p) = c
                 \<and> qn_network_class (q_net_target p) = c)
           \<and> (\<forall>msg. DQNPolicy_init host os n lr ni oc ok (NetworkName name) kw coef
                       = Inl (ValueError msg) \<longrightarrow>
                 (\<exists>sp k. new_network host c sp n k = Inl (ValueError msg))
                 \<or> (\<exists>a b. load_state_dict host a b = Inl (ValueError msg))
                 \<or> lr 1 = Inl (ValueError msg)
                 \<or> (\<exists>net r kwargs. new_optimizer oc net r kwargs = Inl (ValueError msg))))"
  proof
    assume "name \<in> {''CnnMlpNetwork1'', ''CnnMlpNetwork2'', ''CnnMlpNetwork3'', ''CnnMlpNetwork4''}"
    from registered_alias [OF this] obtain c where m: "map_of network_aliases name = Some c"
      and g: "get_network_from_name name = Inr c"
      by blast
    note eq = DQNPolicy_init_name [OF g, of host os n lr ni oc ok kw coef]
    have ok: "\<forall>p. DQNPolicy_init host os n lr ni oc ok (NetworkName name) kw coef = Inr p \<longrightarrow>
                 network_class p = c \<and> qn_network_class (q_net p) = c
                 \<and> qn_network_class (q_net_target p) = c"
      unfolding eq DQNPolicy_init_class
      by (intro allI impI conjI) (erule DQNPolicy_build_Inr)+
    have err: "\<forall>msg. DQNPolicy_init host os n lr ni oc ok (NetworkName name) kw coef
                       = Inl (ValueError msg) \<longrightarrow>
                 (\<exists>sp k. new_network host c sp n k = Inl (ValueError msg))
                 \<or> (\<exists>a b. load_state_dict host a b = Inl (ValueError msg))
                 \<or> lr 1 = Inl (ValueError msg)
                 \<or> (\<exists>net r kwargs. new_optimizer oc net r kwargs = Inl (ValueError msg))"
      unfolding eq DQNPolicy_init_class
      by (intro allI impI, drule DQNPolicy_build_ValueError) blast
    from m g eq ok err show
      "\<exists>c. map_of network_aliases name = Some c \<and> get_network_from_name name = Inr c
           \<and> DQNPolicy_init host os n lr ni oc ok (NetworkName name) kw coef
               = DQNPolicy_init host os n lr ni oc ok (NetworkClass c) kw coef
           \<and> (\<forall>p. DQNPolicy_init host os n lr ni oc ok (NetworkName name) kw coef = Inr p \<longrightarrow>
                 network_class p = c \<and> qn_network_class (q_net p) = c
                 \<and> qn_network_class (q_net_target p) = c)
           \<and> (\<forall>msg. DQNPolicy_init host os n lr ni oc ok (NetworkName name) kw coef
                       = Inl (ValueError msg) \<longrightarrow>
                 (\<exists>sp k. new_network host c sp n k = Inl (ValueError msg))
                 \<or> (\<exists>a b. load_state_dict host a b = Inl (ValueError msg))
                 \<or> lr 1 = Inl (ValueError msg)
                 \<or> (\<exists>net r kwargs. new_optimizer oc net r kwargs = Inl (ValueError msg)))"
      by blast
  qed
qed

theorem unknown_network_alias_rejected_witness:
  "(let host = \<lparr> BIN = ''bin'', new_network = \<lambda>c sp n kw. Inr (0 :: nat),
                  run_network = \<lambda>net obs. th_tensor [[0]],
                  load_state_dict = \<lambda>a b. Inr b \<rparr>
                 :: (unit, unit, unit, nat) torch_host;
        adam = \<lparr> is_Adam = True,
                  new_optimizer = \<lambda>net lr kwargs.
                    if lr < 0 then Inl (ValueError ''Invalid learning rate'') else Inr () \<rparr>
    in DQNPolicy_init host [''bin'' \<mapsto> ()] 3 (\<lambda>_. Inr (1 / 1000)) False adam None
         (NetworkName ''CnnMlpNetwork5'') (Some ()) (- 15)
         = Inl (ValueError ''Policy CnnMlpNetwork5 unknown'')
       \<and> network_class (projr (DQNPolicy_init host [''bin'' \<mapsto> ()] 3 (\<lambda>_. Inr (1 / 1000))
            False adam None (NetworkName ''CnnMlpNetwork3'') (Some ()) (- 15)))
         = CnnMlpNetwork3
       \<and> (\<exists>net r kwargs. new_optimizer adam net r kwargs
            = Inl (ValueError ''Invalid learning rate'')))"
proof -
  define host :: "(unit, unit, unit, nat) torch_host" where
    "host = \<lparr> BIN = ''bin'', new_network = \<lambda>c sp n kw. Inr (0 :: nat),
              run_network = \<lambda>net obs. th_tensor [[0]], load_state_dict = \<lambda>a b. Inr b \<rparr>"
  define adam :: "(nat, unit) optimizer_class" where
    "adam = \<lparr> is_Adam = True,
              new_optimizer = \<lambda>net lr kwargs.
                if lr < 0 then Inl (ValueError ''Invalid learning rate'') else Inr () \<rparr>"
  define x where "x = DQNPolicy_init host [''bin'' \<mapsto> ()] 3 (\<lambda>_. Inr (1 / 1000)) False adam
    None (NetworkName ''CnnMlpNetwork3'') (Some ()) (- 15)"
  have bad: "DQNPolicy_init host [''bin'' \<mapsto> ()] 3 (\<lambda>_. Inr (- 1)) False adam None
      (NetworkName ''CnnMlpNetwork1'') (Some ()) (- 15) = Inl (ValueError ''Invalid learning rate'')"
    by (simp add: DQNPolicy_init_def get_network_from_name_eq DQNPolicy_build_def
        DQNPolicy_make_q_net_def QNetwork_init_def Let_def host_def adam_def)
  have "\<exists>p. x = Inr p"
    by (simp add: x_def DQNPolicy_init_def get_network_from_name_eq DQNPolicy_build_def
        DQNPolicy_make_q_net_def QNetwork_init_def Let_def host_def adam_def)
  then have good: "x = Inr (projr x)"
    by auto
  from unknown_network_alias_rejected [where name = "''CnnMlpNetwork5''" and host = host
      and os = "[''bin'' \<mapsto> ()]" and n = 3 and lr = "\<lambda>_. Inr (1 / 1000)" and ni = False
      and oc = adam and ok = None and kw = "Some ()" and coef = "- 15", THEN conjunct1]
  have a: "DQNPolicy_init host [''bin'' \<mapsto> ()] 3 (\<lambda>_. Inr (1 / 1000)) False adam None
         (NetworkName ''CnnMlpNetwork5'') (Some ()) (- 15)
         = Inl (ValueError ''Policy CnnMlpNetwork5 unknown'')"
    by simp
  from unknown_network_alias_rejected [where name = "''CnnMlpNetwork3''" and host = host
      and os = "[''bin'' \<mapsto> ()]" and n = 3 and lr = "\<lambda>_. Inr (1 / 1000)" and ni = False
      and oc = adam and ok = None and kw = "Some ()" and coef = "- 15"]
  obtain c where "map_of network_aliases ''CnnMlpNetwork3'' = Some c"
    and "\<forall>p. x = Inr p \<longrightarrow> network_class p = c"
    unfolding x_def by auto
  with good have b: "network_class (projr x) = CnnMlpNetwork3"
    by (auto simp: network_aliases_def)
  have hostok: "new_network host cl sp 3 k \<noteq> Inl e" "load_state_dict host na nb \<noteq> Inl e"
    for cl sp k na nb e
    by (simp_all add: host_def)
  from unknown_network_alias_rejected [where name = "''CnnMlpNetwork1''" and host = host
      and os = "[''bin'' \<mapsto> ()]" and n = 3 and lr = "\<lambda>_. Inr (- 1)" and ni = False
      and oc = adam and ok = None and kw = "Some ()" and coef = "- 15"]
  obtain c' where "\<forall>msg. DQNPolicy_init host [''bin'' \<mapsto> ()] 3 (\<lambda>_. Inr (- 1)) False adam None
        (NetworkName ''CnnMlpNetwork1'') (Some ()) (- 15) = Inl (ValueError msg) \<longrightarrow>
      (\<exists>sp k. new_network host c' sp 3 k = Inl (ValueError msg))
      \<or> (\<exists>a b. load_state_dict host a b = Inl (ValueError msg))
      \<or> (Inr (- 1) :: error + real) = Inl (ValueError msg)
      \<or> (\<exists>net r kwargs. new_optimizer adam net r kwargs = Inl (ValueError msg))"
    by auto
  with bad have "(\<exists>sp k. new_network host c' sp 3 k = Inl (ValueError ''Invalid learning rate''))
      \<or> (\<exists>a b. load_state_dict host a b = Inl (ValueError ''Invalid learning rate''))
      \<or> (Inr (- 1) :: error + real) = Inl (ValueError ''Invalid learning rate'')
      \<or> (\<exists>net r kwargs. new_optimizer adam net r kwargs = Inl (ValueError ''Invalid learning rate''))"
    by blast
  with hostok have c: "\<exists>net r kwargs. new_optimizer adam net r kwargs
      = Inl (ValueError ''Invalid learning rate'')"
    by simp
  from a b c show ?thesis
    unfolding Let_def x_def host_def adam_def by (intro conjI)
qed

text \<open>
  A registered alias with an optimizer class that rejects a negative learning
  rate with a ValueError, as \<open>th.optim.Adam\<close> does: the constructor raises a
  ValueError although the alias is registered.
\<close>

theorem registered_alias_value_error:
  "DQNPolicy_init
     (\<lparr> BIN = ''bin'', new_network = \<lambda>c sp n kw. Inr (0 :: nat),
        run_network = \<lambda>net obs. th_tensor [[0]], load_state_dict = \<lambda>a b. Inr b \<rparr>
       :: (unit, unit, unit, nat) torch_host)
     [''bin'' \<mapsto> ()] 3 (\<lambda>_. Inr (- 1)) False
     \<lparr> is_Adam = True,
       new_optimizer = \<lambda>net lr kwargs.
         if lr < 0 then Inl (ValueError ''Invalid learning rate'') else Inr () \<rparr>
     None (NetworkName ''CnnMlpNetwork1'') (Some ()) (- 15)
   = Inl (ValueError ''Invalid learning rate'')"
  by (simp add: DQNPolicy_init_def get_network_from_name_eq DQNPolicy_build_def
      DQNPolicy_make_q_net_def QNetwork_init_def Let_def)

subsection \<open>The metrics file\<close>

lemma MetricsCallback_init_eq:
  "MetricsCallback_init fname isdir realpath fs =
     (case fs (metrics_path fname isdir realpath) of
        Inl e \<Rightarrow> Inl e
      | Inr dev \<Rightarrow>
          (case dev 0 of
             Some e \<Rightarrow> Inl e
           | None \<Rightarrow>
               Inr \<lparr> filename = metrics_path fname isdir realpath,
                     file_handler = \<lparr> written = [header_row], pending = [], closed = False,
                                      device = \<lambda>k. dev (Suc k) \<rparr>,
                     metrics_logger = [''timesteps'', ''ep_rew_mean'', ''ep_PE_mean'',
                       ''exploration_rate'', ''loss'', ''n_updates'', ''learning_rate''] \<rparr>))"
  by (simp add: MetricsCallback_init_def Let_def file_open_w_def writeheader_def file_write_def
      file_flush_def header_row_def seq_def split: sum.splits option.splits)

lemma MetricsCallback_on_rollout_end_eq:
  assumes "metrics_logger cb = [''timesteps'', ''ep_rew_mean'', ''ep_PE_mean'',
           ''exploration_rate'', ''loss'', ''n_updates'', ''learning_rate'']"
    and "pending (file_handler cb) = []"
  shows "MetricsCallback_on_rollout_end cb (Some m) =
    (if closed (file_handler cb) then Inl closed_file
     else (case device (file_handler cb) 0 of
             Some e \<Rightarrow> Inl e
           | None \<Rightarrow>
               Inr (cb\<lparr>file_handler := (file_handler cb)
                     \<lparr>written := written (file_handler cb) @ [data_row m], pending := [],
                      device := \<lambda>k. device (file_handler cb) (Suc k)\<rparr>\<rparr>)))"
  using assms
  by (simp add: MetricsCallback_on_rollout_end_def Let_def writerow_def file_write_def
      file_flush_def data_row_def split: option.splits)

lemma MetricsCallback_on_training_end_eq:
  assumes "pending (file_handler cb) = []"
  shows "MetricsCallback_on_training_end cb =
    Inr (cb\<lparr>file_handler := (file_handler cb)\<lparr>closed := True\<rparr>\<rparr>)"
  using assms
  by (simp add: MetricsCallback_on_training_end_def file_close_def file_flush_def)

lemma MetricsCallback_events_Inr:
  assumes "MetricsCallback_events cb evs = Inr cb'"
    and "metrics_logger cb = [''timesteps'', ''ep_rew_mean'', ''ep_PE_mean'',
           ''exploration_rate'', ''loss'', ''n_updates'', ''learning_rate'']"
    and "pending (file_handler cb) = []"
  shows "metrics_logger cb' = metrics_logger cb \<and> pending (file_handler cb') = []
    \<and> written (file_handler cb') = written (file_handler cb) @ rollout_rows evs
    \<and> closed (file_handler cb') = (closed (file_handler cb) \<or> TrainingEnd \<in> set evs)"
  using assms
proof (induction cb evs rule: MetricsCallback_events.induct)
  case (1 self)
  then show ?case by simp
next
  case (2 self model evs)
  from "2.prems"(1) obtain s where s: "MetricsCallback_on_rollout_end self model = Inr s"
    and rest: "MetricsCallback_events s evs = Inr cb'"
    by (auto simp: seq_eq_Inr)
  from s obtain m where m: "model = Some m"
    by (cases model) (simp_all add: MetricsCallback_on_rollout_end_def)
  from s [unfolded m MetricsCallback_on_rollout_end_eq [OF "2.prems"(2,3)]]
  have s': "\<not> closed (file_handler self)"
    "s = self\<lparr>file_handler := (file_handler self)
           \<lparr>written := written (file_handler self) @ [data_row m], pending := [],
            device := \<lambda>k. device (file_handler self) (Suc k)\<rparr>\<rparr>"
    by (auto split: if_splits option.splits)
  have "metrics_logger s = [''timesteps'', ''ep_rew_mean'', ''ep_PE_mean'',
           ''exploration_rate'', ''loss'', ''n_updates'', ''learning_rate'']"
    "pending (file_handler s) = []"
    using "2.prems"(2) by (simp_all add: s'(2))
  from "2.IH" [OF rest this] show ?case
    by (simp add: s'(2) m)
next
  case (3 self evs)
  from "3.prems"(1) obtain s where s: "MetricsCallback_on_training_end self = Inr s"
    and rest: "MetricsCallback_events s evs = Inr cb'"
    by (auto simp: seq_eq_Inr)
  from s [unfolded MetricsCallback_on_training_end_eq [OF "3.prems"(3)]]
  have s': "s = self\<lparr>file_handler := (file_handler self)\<lparr>closed := True\<rparr>\<rparr>"
    by simp
  have "metrics_logger s = [''timesteps'', ''ep_rew_mean'', ''ep_PE_mean'',
           ''exploration_rate'', ''loss'', ''n_updates'', ''learning_rate'']"
    "pending (file_handler s) = []"
    using "3.prems"(2,3) by (simp_all add: s')
  from "3.IH" [OF rest this] show ?case
    by (simp add: s')
qed

lemma header_row_not_data: "header_row \<noteq> data_row m"
  by (simp add: header_row_def data_row_def)

lemma count_header_in_data: "count_list (rollout_rows evs) header_row = 0"
  by (induction evs rule: rollout_rows.induct) (simp_all add: header_row_not_data [symmetric])

lemma MetricsCallback_run:
  fixes cb cb' :: "'v metrics_callback"
  assumes init: "MetricsCallback_init fname isdir realpath fs = Inr cb"
    and run: "MetricsCallback_events cb evs = Inr cb'"
  shows "written (file_handler cb') = header_row # rollout_rows evs"
    "count_list (written (file_handler cb')) header_row = 1"
    "pending (file_handler cb') = []"
    "closed (file_handler cb') \<longleftrightarrow> TrainingEnd \<in> set evs"
    "metrics_logger cb' = [''timesteps'', ''ep_rew_mean'', ''ep_PE_mean'',
           ''exploration_rate'', ''loss'', ''n_updates'', ''learning_rate'']"
proof -
  from init have cb: "written (file_handler cb) = [header_row]" "pending (file_handler cb) = []"
    "\<not> closed (file_handler cb)"
    "metrics_logger cb = [''timesteps'', ''ep_rew_mean'', ''ep_PE_mean'',
           ''exploration_rate'', ''loss'', ''n_updates'', ''learning_rate'']"
    unfolding MetricsCallback_init_eq by (auto split: sum.splits option.splits)
  note inv = MetricsCallback_events_Inr [OF run cb(4,2)]
  from inv cb show w: "written (file_handler cb') = header_row # rollout_rows evs"
    by simp
  show "count_list (written (file_handler cb')) header_row = 1"
    by (simp add: w count_header_in_data)
  from inv cb show "pending (file_handler cb') = []"
    "closed (file_handler cb') \<longleftrightarrow> TrainingEnd \<in> set evs"
    "metrics_logger cb' = [''timesteps'', ''ep_rew_mean'', ''ep_PE_mean'',
           ''exploration_rate'', ''loss'', ''n_updates'', ''learning_rate'']"
    by simp_all
qed

text \<open>
  Claim C7. When the file can be opened and the header written out, the
  constructor of \<open>MetricsCallback\<close> leaves the header row of the seven fields
  \<open>timesteps\<close>, \<open>ep_rew_mean\<close>, \<open>ep_PE_mean\<close>, \<open>exploration_rate\<close>, \<open>loss\<close>,
  \<open>n_updates\<close>, \<open>learning_rate\<close> on the file, nothing in the buffer, and the
  file open; otherwise it raises. After any calls of \<open>_on_rollout_end\<close> and
  \<open>_on_training_end\<close> that returned, the file holds the header row, once,
  followed by one data row per rollout end, and nothing is in the buffer. A
  further \<open>_on_rollout_end\<close> that returns has a model attached and has
  appended exactly one row, the seven values of these fields in this order,
  and flushed; it returns exactly when a model is attached, no
  \<open>_on_training_end\<close> came before and the device takes the row. After
  \<open>_on_training_end\<close> it raises the ValueError of a closed file.
\<close>

theorem metrics_file_rows:
  fixes cb cb' cb'' :: "'v metrics_callback"
  shows
  "(MetricsCallback_init fname isdir realpath fs = Inr cb \<longrightarrow>
      written (file_handler cb) =
        [[Field ''timesteps'', Field ''ep_rew_mean'', Field ''ep_PE_mean'',
          Field ''exploration_rate'', Field ''loss'', Field ''n_updates'',
          Field ''learning_rate'']]
      \<and> pending (file_handler cb) = [] \<and> \<not> closed (file_handler cb))
   \<and> ((\<exists>c :: 'v metrics_callback. MetricsCallback_init fname isdir realpath fs = Inr c) \<longleftrightarrow>
        (\<exists>dev. fs (metrics_path fname isdir realpath) = Inr dev \<and> dev 0 = None))
   \<and> (MetricsCallback_init fname isdir realpath fs = Inr cb
        \<and> MetricsCallback_events cb evs = Inr cb' \<longrightarrow>
      written (file_handler cb') = header_row # rollout_rows evs
      \<and> count_list (written (file_handler cb')) header_row = 1
      \<and> pending (file_handler cb') = []
      \<and> (MetricsCallback_on_rollout_end cb' model = Inr cb'' \<longrightarrow>
           (\<exists>m. model = Some m
              \<and> written (file_handler cb'') = written (file_handler cb') @
                  [[Value (num_timesteps m), Value (name_to_value m ''rollout/ep_rew_mean''),
                    Value (name_to_value m ''rollout/ep_PE_mean''),
                    Value (name_to_value m ''rollout/exploration_rate''),
                    Value (name_to_value m ''train/loss''),
                    Value (name_to_value m ''train/n_updates''),
                    Value (name_to_value m ''train/learning_rate'')]]
              \<and> pending (file_handler cb'') = []))
      \<and> ((\<exists>c. MetricsCallback_on_rollout_end cb' model = Inr c) \<longleftrightarrow>
           model \<noteq> None \<and> TrainingEnd \<notin> set evs \<and> device (file_handler cb') 0 = None)
      \<and> (TrainingEnd \<in> set evs \<and> model \<noteq> None \<longrightarrow>
           MetricsCallback_on_rollout_end cb' model = Inl closed_file))"
proof (intro conjI)
  show "MetricsCallback_init fname isdir realpath fs = Inr cb \<longrightarrow>
      written (file_handler cb) =
        [[Field ''timesteps'', Field ''ep_rew_mean'', Field ''ep_PE_mean'',
          Field ''exploration_rate'', Field ''loss'', Field ''n_updates'',
          Field ''learning_rate'']]
      \<and> pending (file_handler cb) = [] \<and> \<not> closed (file_handler cb)"
    unfolding MetricsCallback_init_eq
    by (auto simp: header_row_def split: sum.splits option.splits)
next
  show "(\<exists>c :: 'v metrics_callback. MetricsCallback_init fname isdir realpath fs = Inr c) \<longleftrightarrow>
        (\<exists>dev. fs (metrics_path fname isdir realpath) = Inr dev \<and> dev 0 = None)"
    unfolding MetricsCallback_init_eq by (auto split: sum.splits option.splits)
next
  show "MetricsCallback_init fname isdir realpath fs = Inr cb
        \<and> MetricsCallback_events cb evs = Inr cb' \<longrightarrow>
      written (file_handler cb') = header_row # rollout_rows evs
      \<and> count_list (written (file_handler cb')) header_row = 1
      \<and> pending (file_handler cb') = []
      \<and> (MetricsCallback_on_rollout_end cb' model = Inr cb'' \<longrightarrow>
           (\<exists>m. model = Some m
              \<and> written (file_handler cb'') = written (file_handler cb') @
                  [[Value (num_timesteps m), Value (name_to_value m ''rollout/ep_rew_mean''),
                    Value (name_to_value m ''rollout/ep_PE_mean''),
                    Value (name_to_value m ''rollout/exploration_rate''),
                    Value (name_to_value m ''train/loss''),
                    Value (name_to_value m ''train/n_updates''),
                    Value (name_to_value m ''train/learning_rate'')]]
              \<and> pending (file_handler cb'') = []))
      \<and> ((\<exists>c. MetricsCallback_on_rollout_end cb' model = Inr c) \<longleftrightarrow>
           model \<noteq> None \<and> TrainingEnd \<notin> set evs \<and> device (file_handler cb') 0 = None)
      \<and> (TrainingEnd \<in> set evs \<and> model \<noteq> None \<longrightarrow>
           MetricsCallback_on_rollout_end cb' model = Inl closed_file)"
  proof (rule impI, elim conjE)
    assume init: "MetricsCallback_init fname isdir realpath fs = Inr cb"
      and run: "MetricsCallback_events cb evs = Inr cb'"
    note r = MetricsCallback_run [OF init run]
    have step: "MetricsCallback_on_rollout_end cb' (Some m) =
      (if TrainingEnd \<in> set evs then Inl closed_file
       else (case device (file_handler cb') 0 of
               Some e \<Rightarrow> Inl e
             | None \<Rightarrow>
                 Inr (cb'\<lparr>file_handler := (file_handler cb')
                       \<lparr>written := written (file_handler cb') @ [data_row m], pending := [],
                        device := \<lambda>k. device (file_handler cb') (Suc k)\<rparr>\<rparr>)))" for m
      unfolding MetricsCallback_on_rollout_end_eq [OF r(5,3)] r(4) ..
    have none: "MetricsCallback_on_rollout_end cb' None = Inl (AttributeError ''num_timesteps'')"
      by (simp add: MetricsCallback_on_rollout_end_def)
    have a: "MetricsCallback_on_rollout_end cb' model = Inr cb'' \<longrightarrow>
           (\<exists>m. model = Some m
              \<and> written (file_handler cb'') = written (file_handler cb') @
                  [[Value (num_timesteps m), Value (name_to_value m ''rollout/ep_rew_mean''),
                    Value (name_to_value m ''rollout/ep_PE_mean''),
                    Value (name_to_value m ''rollout/exploration_rate''),
                    Value (name_to_value m ''train/loss''),
                    Value (name_to_value m ''train/n_updates''),
                    Value (name_to_value m ''train/learning_rate'')]]
              \<and> pending (file_handler cb'') = [])"
      by (cases model) (auto simp: none step data_row_def split: if_splits option.splits)
    have b: "(\<exists>c. MetricsCallback_on_rollout_end cb' model = Inr c) \<longleftrightarrow>
           model \<noteq> None \<and> TrainingEnd \<notin> set evs \<and> device (file_handler cb') 0 = None"
      by (cases model) (auto simp: none step split: if_splits option.splits)
    have c: "TrainingEnd \<in> set evs \<and> model \<noteq> None \<longrightarrow>
           MetricsCallback_on_rollout_end cb' model = Inl closed_file"
      by (cases model) (auto simp: step)
    from r(1,2,3) a b c
    show "written (file_handler cb') = header_row # rollout_rows evs
      \<and> count_list (written (file_handler cb')) header_row = 1
      \<and> pending (file_handler cb') = []
      \<and> (MetricsCallback_on_rollout_end cb' model = Inr cb'' \<longrightarrow>
           (\<exists>m. model = Some m
              \<and> written (file_handler cb'') = written (file_handler cb') @
                  [[Value (num_timesteps m), Value (name_to_value m ''rollout/ep_rew_mean''),
                    Value (name_to_value m ''rollout/ep_PE_mean''),
                    Value (name_to_value m ''rollout/exploration_rate''),
                    Value (name_to_value m ''train/loss''),
                    Value (name_to_value m ''train/n_updates''),
                    Value (name_to_value m ''train/learning_rate'')]]
              \<and> pending (file_handler cb'') = []))
      \<and> ((\<exists>c. MetricsCallback_on_rollout_end cb' model = Inr c) \<longleftrightarrow>
           model \<noteq> None \<and> TrainingEnd \<notin> set evs \<and> device (file_handler cb') 0 = None)
      \<and> (TrainingEnd \<in> set evs \<and> model \<noteq> None \<longrightarrow>
           MetricsCallback_on_rollout_end cb' model = Inl closed_file)"
      by (intro conjI)
  qed
qed

theorem metrics_file_rows_witness:
  "(let m1 = \<lparr> num_timesteps = 4 :: int, name_to_value = \<lambda>_. 0 \<rparr>;
        m2 = \<lparr> num_timesteps = 8 :: int, name_to_value = \<lambda>_. 1 \<rparr>;
        cb = projr (MetricsCallback_init ''run'' (\<lambda>_. False) (\<lambda>p. p) (\<lambda>_. Inr (\<lambda>_. None)));
        cb' = projr (MetricsCallback_events cb [RolloutEnd (Some m1)]);
        cb'' = projr (MetricsCallback_on_rollout_end cb' (Some m2));
        cc = projr (MetricsCallback_events cb [RolloutEnd (Some m1), TrainingEnd])
    in written (file_handler cb) = [header_row]
       \<and> written (file_handler cb') = [header_row, data_row m1]
       \<and> pending (file_handler cb') = []
       \<and> written (file_handler cb'') = [header_row, data_row m1, data_row m2]
       \<and> pending (file_handler cb'') = []
       \<and> written (file_handler cc) = [header_row, data_row m1]
       \<and> MetricsCallback_on_rollout_end cc (Some m2) = Inl closed_file)"
proof -
  define m1 where "m1 = \<lparr> num_timesteps = 4 :: int, name_to_value = \<lambda>_. 0 \<rparr>"
  define m2 where "m2 = \<lparr> num_timesteps = 8 :: int, name_to_value = \<lambda>_. 1 \<rparr>"
  define x :: "error + int metrics_callback" where
    "x = MetricsCallback_init ''run'' (\<lambda>_. False) (\<lambda>p. p) (\<lambda>_. Inr (\<lambda>_. None))"
  define cb where "cb = projr x"
  define y where "y = MetricsCallback_events cb [RolloutEnd (Some m1)]"
  define cb' where "cb' = projr y"
  define z where "z = MetricsCallback_on_rollout_end cb' (Some m2)"
  define cb'' where "cb'' = projr z"
  define u where "u = MetricsCallback_events cb [RolloutEnd (Some m1), TrainingEnd]"
  define cc where "cc = projr u"
  have "\<not> isl x"
    unfolding x_def by code_simp
  then have init: "MetricsCallback_init ''run'' (\<lambda>_. False) (\<lambda>p. p) (\<lambda>_. Inr (\<lambda>_. None)) = Inr cb"
    unfolding cb_def x_def [symmetric] by simp
  have "\<not> isl y"
    unfolding y_def cb_def x_def m1_def by code_simp
  then have run: "MetricsCallback_events cb [RolloutEnd (Some m1)] = Inr cb'"
    unfolding cb'_def y_def [symmetric] by simp
  have "\<not> isl z"
    unfolding z_def cb'_def y_def cb_def x_def m1_def m2_def by code_simp
  then have step: "MetricsCallback_on_rollout_end cb' (Some m2) = Inr cb''"
    unfolding cb''_def z_def [symmetric] by simp
  have "\<not> isl u"
    unfolding u_def cb_def x_def m1_def by code_simp
  then have run2: "MetricsCallback_events cb [RolloutEnd (Some m1), TrainingEnd] = Inr cc"
    unfolding cc_def u_def [symmetric] by simp
  note t1 = metrics_file_rows [where fname = "''run''" and isdir = "\<lambda>_. False"
      and realpath = "\<lambda>p. p" and fs = "\<lambda>_. Inr (\<lambda>_. None)" and cb = cb
      and evs = "[RolloutEnd (Some m1)]" and cb' = cb' and model = "Some m2" and cb'' = cb'']
  note t2 = metrics_file_rows [where fname = "''run''" and isdir = "\<lambda>_. False"
      and realpath = "\<lambda>p. p" and fs = "\<lambda>_. Inr (\<lambda>_. None)" and cb = cb
      and evs = "[RolloutEnd (Some m1), TrainingEnd]" and cb' = cc and model = "Some m2"
      and cb'' = cb'']
  from t1 [THEN conjunct1] init have a: "written (file_handler cb) = [header_row]"
    by (simp add: header_row_def)
  from t1 [THEN conjunct2, THEN conjunct2] init run step
  have b: "written (file_handler cb') = [header_row, data_row m1]"
    "pending (file_handler cb') = []"
    "written (file_handler cb'') = [header_row, data_row m1, data_row m2]"
    "pending (file_handler cb'') = []"
    by (simp_all add: data_row_def)
  from t2 [THEN conjunct2, THEN conjunct2] init run2
  have c: "written (file_handler cc) = [header_row, data_row m1]"
    "MetricsCallback_on_rollout_end cc (Some m2) = Inl closed_file"
    by simp_all
  from a b c show ?thesis
    unfolding Let_def cc_def u_def cb''_def z_def cb'_def y_def cb_def x_def m1_def m2_def
    by (intro conjI)
qed

text \<open>
  A rollout end after the training end appends no row: the file is closed
  and \<open>_on_rollout_end\<close> raises. Neither does a rollout end of a callback with
  no model attached, nor one whose row the device refuses, and a constructor
  whose \<open>open\<close> is refused writes no header.
\<close>

theorem rollout_end_after_training_end:
  "MetricsCallback_events
     (projr (MetricsCallback_init ''run'' (\<lambda>_. False) (\<lambda>p. p) (\<lambda>_. Inr (\<lambda>_. None))))
     [TrainingEnd, RolloutEnd (Some \<lparr> num_timesteps = 4 :: int, name_to_value = \<lambda>_. 0 \<rparr>)]
     = Inl closed_file
   \<and> MetricsCallback_on_rollout_end
       (projr (MetricsCallback_init ''run'' (\<lambda>_. False) (\<lambda>p. p) (\<lambda>_. Inr (\<lambda>_. None))))
       (None :: int rl_model option)
     = Inl (AttributeError ''num_timesteps'')
   \<and> MetricsCallback_on_rollout_end
       (projr (MetricsCallback_init ''run'' (\<lambda>_. False) (\<lambda>p. p)
          (\<lambda>_. Inr (\<lambda>k. if k = 0 then None else Some (OSError ''No space left on device'')))))
       (Some \<lparr> num_timesteps = 4 :: int, name_to_value = \<lambda>_. 0 \<rparr>)
     = Inl (OSError ''No space left on device'')
   \<and> (MetricsCallback_init ''missing/run'' (\<lambda>_. False) (\<lambda>p. p)
        (\<lambda>_. Inl (OSError ''No such file or directory'')) :: error + int metrics_callback)
     = Inl (OSError ''No such file or directory'')"
proof (intro conjI)
  show "MetricsCallback_events
     (projr (MetricsCallback_init ''run'' (\<lambda>_. False) (\<lambda>p. p) (\<lambda>_. Inr (\<lambda>_. None))))
     [TrainingEnd, RolloutEnd (Some \<lparr> num_timesteps = 4 :: int, name_to_value = \<lambda>_. 0 \<rparr>)]
     = Inl closed_file"
    by (simp add: MetricsCallback_init_eq MetricsCallback_on_training_end_eq
        MetricsCallback_on_rollout_end_eq)
  show "MetricsCallback_on_rollout_end
       (projr (MetricsCallback_init ''run'' (\<lambda>_. False) (\<lambda>p. p) (\<lambda>_. Inr (\<lambda>_. None))))
       (None :: int rl_model option)
     = Inl (AttributeError ''num_timesteps'')"
    by (simp add: MetricsCallback_on_rollout_end_def)
  show "MetricsCallback_on_rollout_end
       (projr (MetricsCallback_init ''run'' (\<lambda>_. False) (\<lambda>p. p)
          (\<lambda>_. Inr (\<lambda>k. if k = 0 then None else Some (OSError ''No space left on device'')))))
       (Some \<lparr> num_timesteps = 4 :: int, name_to_value = \<lambda>_. 0 \<rparr>)
     = Inl (OSError ''No space left on device'')"
    by (simp add: MetricsCallback_init_eq MetricsCallback_on_rollout_end_eq)
  show "(MetricsCallback_init ''missing/run'' (\<lambda>_. False) (\<lambda>p. p)
        (\<lambda>_. Inl (OSError ''No such file or directory'')) :: error + int metrics_callback)
     = Inl (OSError ''No such file or directory'')"
    by (simp add: MetricsCallback_init_eq)
qed

subsection \<open>Greedy action under the mask\<close>

lemma argmax_from_spec:
  assumes "length pre = i" "best < i" "pre ! best = v"
    "\<forall>j < i. pre ! j \<le> v" "\<forall>j < best. pre ! j < v"
  shows "argmax_from xs i best v < length (pre @ xs)
    \<and> (\<forall>j < length (pre @ xs). (pre @ xs) ! j \<le> (pre @ xs) ! argmax_from xs i best v)
    \<and> (\<forall>j < argmax_from xs i best v. (pre @ xs) ! j < (pre @ xs) ! argmax_from xs i best v)"
  using assms
proof (induction xs arbitrary: pre i best v)
  case Nil
  then show ?case by simp
next
  case (Cons x xs)
  have app: "(pre @ [x]) @ xs = pre @ x # xs" by simp
  show ?case
  proof (cases "v < x")
    case True
    have "length (pre @ [x]) = Suc i" "i < Suc i" "(pre @ [x]) ! i = x"
      using Cons.prems(1) by (simp_all add: nth_append)
    moreover have "\<forall>j < Suc i. (pre @ [x]) ! j \<le> x"
      using Cons.prems(1,4) True by (auto simp: nth_append less_Suc_eq)
    moreover have "\<forall>j < i. (pre @ [x]) ! j < x"
      using Cons.prems(1,4) True by (auto simp: nth_append)
    ultimately show ?thesis
      using Cons.IH [of "pre @ [x]" "Suc i" i x] True unfolding app by simp
  next
    case False
    have "length (pre @ [x]) = Suc i" "best < Suc i" "(pre @ [x]) ! best = v"
      using Cons.prems(1,2,3) by (simp_all add: nth_append)
    moreover have "\<forall>j < Suc i. (pre @ [x]) ! j \<le> v"
      using Cons.prems(1,4) False by (auto simp: nth_append less_Suc_eq)
    moreover have "\<forall>j < best. (pre @ [x]) ! j < v"
      using Cons.prems(1,2,5) by (auto simp: nth_append)
    ultimately show ?thesis
      using Cons.IH [of "pre @ [x]" "Suc i" best v] False unfolding app by simp
  qed
qed

lemma argmax_Inr:
  assumes "argmax xs = Inr a"
  shows "a < length xs" "\<forall>j < length xs. xs ! j \<le> xs ! a" "\<forall>j < a. xs ! j < xs ! a"
proof -
  from assms obtain x rest where xs: "xs = x # rest" and a: "a = argmax_from rest 1 0 x"
    by (auto simp: argmax_def split: list.splits)
  have "argmax_from rest 1 0 x < length ([x] @ rest)
    \<and> (\<forall>j < length ([x] @ rest). ([x] @ rest) ! j \<le> ([x] @ rest) ! argmax_from rest 1 0 x)
    \<and> (\<forall>j < argmax_from rest 1 0 x. ([x] @ rest) ! j < ([x] @ rest) ! argmax_from rest 1 0 x)"
    by (rule argmax_from_spec) simp_all
  then show "a < length xs" "\<forall>j < length xs. xs ! j \<le> xs ! a" "\<forall>j < a. xs ! j < xs ! a"
    by (simp_all add: xs a)
qed

lemma broadcast_dim_Inr:
  "broadcast_dim a b = Inr r \<longleftrightarrow>
     (a = b \<or> a = 1 \<or> b = 1) \<and> r = (if a = 1 then b else a)"
  by (auto simp: broadcast_dim_def)

lemma th_where_Inr:
  "th_where cnd q c = Inr t \<longleftrightarrow>
     (nrows cnd = nrows q \<or> nrows cnd = 1 \<or> nrows q = 1)
     \<and> (ncols cnd = ncols q \<or> ncols cnd = 1 \<or> ncols q = 1)
     \<and> t = \<lparr> nrows = (if nrows cnd = 1 then nrows q else nrows cnd),
             ncols = (if ncols cnd = 1 then ncols q else ncols cnd),
             item = \<lambda>i j. if expanded cnd i j \<noteq> 0 then expanded q i j else c \<rparr>"
  unfolding th_where_def seq_eq_Inr broadcast_dim_Inr by auto

lemma tensor_eq_shape [simp]:
  "nrows (tensor_eq m v) = nrows m" "ncols (tensor_eq m v) = ncols m"
  by (simp_all add: tensor_eq_def)

lemma expanded_tensor_eq:
  "expanded (tensor_eq m v) i j \<noteq> 0 \<longleftrightarrow> expanded m i j = v"
  by (simp add: expanded_def tensor_eq_def)

lemma traverse_total:
  "(\<And>x. x \<in> set xs \<Longrightarrow> \<exists>y. f x = Inr y) \<Longrightarrow> \<exists>ys. traverse f xs = Inr ys"
proof (induction xs)
  case Nil
  then show ?case by simp
next
  case (Cons x xs)
  from Cons.prems obtain y where "f x = Inr y" by auto
  moreover from Cons obtain ys where "traverse f xs = Inr ys" by auto
  ultimately show ?case by simp
qed

lemma argmax_dim1_Inr:
  assumes "argmax_dim1 t = Inr acts"
  shows "0 < ncols t" "length acts = nrows t"
    "\<forall>i < nrows t. argmax (tensor_row t i) = Inr (acts ! i)"
proof -
  from assms have c: "ncols t \<noteq> 0"
    and t: "traverse (\<lambda>i. argmax (tensor_row t i)) [0..<nrows t] = Inr acts"
    by (auto simp: argmax_dim1_def split: if_splits)
  from c show "0 < ncols t" by simp
  from traverse_Inr [OF t] show "length acts = nrows t"
    "\<forall>i < nrows t. argmax (tensor_row t i) = Inr (acts ! i)"
    by simp_all
qed

lemma argmax_dim1_total:
  assumes "0 < ncols t"
  shows "\<exists>acts. argmax_dim1 t = Inr acts"
proof -
  have "\<exists>a. argmax (tensor_row t i) = Inr a" for i
    using assms by (cases "tensor_row t i") (simp_all add: argmax_def tensor_row_def)
  then have "\<exists>acts. traverse (\<lambda>i. argmax (tensor_row t i)) [0..<nrows t] = Inr acts"
    by (intro traverse_total) blast
  with assms show ?thesis
    by (simp add: argmax_dim1_def)
qed

lemma QNetwork_predict_Inr:
  fixes self :: "('b, 'z) q_network_scheme"
  defines "c \<equiv> real_of_int (mask_replace_coef self)"
  assumes p: "QNetwork_predict self observation = Inr acts"
  defines "m \<equiv> obs_mask observation" and "q \<equiv> forward self observation"
  defines "r \<equiv> (if nrows m = 1 then nrows q else nrows m)"
    and "k \<equiv> (if ncols m = 1 then ncols q else ncols m)"
  shows "length acts = r" "0 < k"
    "\<forall>i < r. argmax (map (\<lambda>j. if expanded m i j = 1 then expanded q i j else c) [0..<k])
               = Inr (acts ! i)"
proof -
  from p obtain t where w: "th_where (tensor_eq m 1) q c = Inr t"
    and a: "argmax_dim1 t = Inr acts"
    by (auto simp: QNetwork_predict_def Let_def seq_eq_Inr m_def q_def c_def)
  from w have t: "nrows t = r" "ncols t = k"
    "item t = (\<lambda>i j. if expanded m i j = 1 then expanded q i j else c)"
    unfolding th_where_Inr by (simp_all add: expanded_tensor_eq r_def k_def)
  from argmax_dim1_Inr [OF a] t show "length acts = r" "0 < k"
    "\<forall>i < r. argmax (map (\<lambda>j. if expanded m i j = 1 then expanded q i j else c) [0..<k])
               = Inr (acts ! i)"
    by (simp_all add: tensor_row_def)
qed

lemma QNetwork_predict_returns:
  "(\<exists>acts. QNetwork_predict self observation = Inr acts) \<longleftrightarrow>
     (nrows (obs_mask observation) = nrows (forward self observation)
        \<or> nrows (obs_mask observation) = 1 \<or> nrows (forward self observation) = 1)
     \<and> (ncols (obs_mask observation) = ncols (forward self observation)
        \<or> ncols (obs_mask observation) = 1 \<or> ncols (forward self observation) = 1)
     \<and> 0 < ncols (obs_mask observation) \<and> 0 < ncols (forward self observation)"
  (is "?L \<longleftrightarrow> ?R")
proof
  assume ?L
  then obtain acts t where
    w: "th_where (tensor_eq (obs_mask observation) 1) (forward self observation)
          (real_of_int (mask_replace_coef self)) = Inr t"
    and a: "argmax_dim1 t = Inr acts"
    by (auto simp: QNetwork_predict_def Let_def seq_eq_Inr)
  from argmax_dim1_Inr(1) [OF a] w show ?R
    unfolding th_where_Inr by (auto split: if_splits)
next
  assume r: ?R
  define t where "t = \<lparr> nrows = (if nrows (tensor_eq (obs_mask observation) 1) = 1
                                  then nrows (forward self observation)
                                  else nrows (tensor_eq (obs_mask observation) 1)),
             ncols = (if ncols (tensor_eq (obs_mask observation) 1) = 1
                      then ncols (forward self observation)
                      else ncols (tensor_eq (obs_mask observation) 1)),
             item = \<lambda>i j. if expanded (tensor_eq (obs_mask observation) 1) i j \<noteq> 0
                           then expanded (forward self observation) i j
                           else real_of_int (mask_replace_coef self) \<rparr>"
  from r have w: "th_where (tensor_eq (obs_mask observation) 1) (forward self observation)
          (real_of_int (mask_replace_coef self)) = Inr t"
    unfolding th_where_Inr t_def by simp
  from r have "0 < ncols t"
    by (auto simp: t_def)
  from argmax_dim1_total [OF this] w show ?L
    by (simp add: QNetwork_predict_def Let_def)
qed

lemma greedy_row:
  fixes msk qv :: "nat \<Rightarrow> real" and c :: real
  defines "mq \<equiv> (\<lambda>j. if msk j = 1 then qv j else c)"
  assumes am: "argmax (map mq [0..<k]) = Inr a"
  shows "a < k" "\<forall>j < k. mq j \<le> mq a" "\<forall>j < a. mq j < mq a"
    "(\<exists>j < k. msk j = 1 \<and> c < qv j) \<longrightarrow> msk a = 1"
    "(\<forall>j < k. msk j = 1 \<longrightarrow> qv j < c) \<and> (\<exists>j < k. msk j \<noteq> 1) \<longrightarrow> msk a \<noteq> 1"
proof -
  note ax = argmax_Inr [OF am]
  from ax(1) show alt: "a < k" by simp
  from ax(2) alt show mx: "\<forall>j < k. mq j \<le> mq a" by simp
  from ax(3) alt show "\<forall>j < a. mq j < mq a" by simp
  show "(\<exists>j < k. msk j = 1 \<and> c < qv j) \<longrightarrow> msk a = 1"
  proof
    assume "\<exists>j < k. msk j = 1 \<and> c < qv j"
    then obtain j where j: "j < k" "msk j = 1" "c < qv j" by blast
    then have "mq j = qv j" by (simp add: mq_def)
    with mx j have "c < mq a" by fastforce
    then show "msk a = 1" by (cases "msk a = 1") (simp_all add: mq_def)
  qed
  show "(\<forall>j < k. msk j = 1 \<longrightarrow> qv j < c) \<and> (\<exists>j < k. msk j \<noteq> 1) \<longrightarrow> msk a \<noteq> 1"
  proof
    assume h: "(\<forall>j < k. msk j = 1 \<longrightarrow> qv j < c) \<and> (\<exists>j < k. msk j \<noteq> 1)"
    then obtain j where j: "j < k" "msk j \<noteq> 1" by blast
    then have "mq j = c" by (simp add: mq_def)
    with mx j have ge: "c \<le> mq a" by fastforce
    show "msk a \<noteq> 1"
    proof
      assume "msk a = 1"
      with alt h have "mq a = qv a" "qv a < c" by (simp_all add: mq_def)
      with ge show False by simp
    qed
  qed
qed

text \<open>
  Claim C8. \<open>QNetwork._predict\<close> returns for every batch whose mask and
  q-values have columns and broadcast against each other (for the others torch
  raises), and then returns one action per row of the broadcast batch: an
  argmax (the first one) of the row's q-values after each entry whose mask is
  not 1 was replaced by \<open>mask_replace_coef\<close>. So when some action with mask 1
  has a q-value above \<open>mask_replace_coef\<close>, the returned action has mask 1;
  when all actions with mask 1 have q-values below it and some action has
  another mask, the returned action does not have mask 1. With the default
  \<open>- 15\<close>, the q-values \<open>[- 20, - 16]\<close> (and \<open>[- 20, - 15]\<close>) under the mask
  \<open>[0, 1]\<close> give action 0, whose mask is 0.
\<close>

theorem masked_greedy_action:
  "(let m = obs_mask observation;
        q = forward self observation;
        c = real_of_int (mask_replace_coef self);
        r = (if nrows m = 1 then nrows q else nrows m);
        k = (if ncols m = 1 then ncols q else ncols m)
    in ((\<exists>acts. QNetwork_predict self observation = Inr acts) \<longleftrightarrow>
          (nrows m = nrows q \<or> nrows m = 1 \<or> nrows q = 1)
          \<and> (ncols m = ncols q \<or> ncols m = 1 \<or> ncols q = 1)
          \<and> 0 < ncols m \<and> 0 < ncols q)
       \<and> (QNetwork_predict self observation = Inr acts \<longrightarrow>
            length acts = r
            \<and> (\<forall>i < r.
                  (let msk = expanded m i;
                       qv = expanded q i;
                       mq = (\<lambda>j. if msk j = 1 then qv j else c);
                       a = acts ! i
                   in a < k
                      \<and> (\<forall>j < k. mq j \<le> mq a)
                      \<and> (\<forall>j < a. mq j < mq a)
                      \<and> ((\<exists>j < k. msk j = 1 \<and> c < qv j) \<longrightarrow> msk a = 1)
                      \<and> ((\<forall>j < k. msk j = 1 \<longrightarrow> qv j < c) \<and> (\<exists>j < k. msk j \<noteq> 1)
                           \<longrightarrow> msk a \<noteq> 1)))))
   \<and> QNetwork_predict \<lparr> forward = \<lambda>_. th_tensor [[- 20, - 16]],
                         mask_replace_coef = default_mask_replace_coef \<rparr>
        \<lparr> obs_bin = (), obs_mask = th_tensor [[0, 1]] \<rparr> = Inr [0]
   \<and> QNetwork_predict \<lparr> forward = \<lambda>_. th_tensor [[- 20, - 15]],
                         mask_replace_coef = default_mask_replace_coef \<rparr>
        \<lparr> obs_bin = (), obs_mask = th_tensor [[0, 1]] \<rparr> = Inr [0]"
proof (intro conjI)
  show "let m = obs_mask observation;
        q = forward self observation;
        c = real_of_int (mask_replace_coef self);
        r = (if nrows m = 1 then nrows q else nrows m);
        k = (if ncols m = 1 then ncols q else ncols m)
    in ((\<exists>acts. QNetwork_predict self observation = Inr acts) \<longleftrightarrow>
          (nrows m = nrows q \<or> nrows m = 1 \<or> nrows q = 1)
          \<and> (ncols m = ncols q \<or> ncols m = 1 \<or> ncols q = 1)
          \<and> 0 < ncols m \<and> 0 < ncols q)
       \<and> (QNetwork_predict self observation = Inr acts \<longrightarrow>
            length acts = r
            \<and> (\<forall>i < r.
                  (let msk = expanded m i;
                       qv = expanded q i;
                       mq = (\<lambda>j. if msk j = 1 then qv j else c);
                       a = acts ! i
                   in a < k
                      \<and> (\<forall>j < k. mq j \<le> mq a)
                      \<and> (\<forall>j < a. mq j < mq a)
                      \<and> ((\<exists>j < k. msk j = 1 \<and> c < qv j) \<longrightarrow> msk a = 1)
                      \<and> ((\<forall>j < k. msk j = 1 \<longrightarrow> qv j < c) \<and> (\<exists>j < k. msk j \<noteq> 1)
                           \<longrightarrow> msk a \<noteq> 1))))"
    unfolding Let_def
  proof (intro conjI)
    show "(\<exists>acts. QNetwork_predict self observation = Inr acts) \<longleftrightarrow>
          (nrows (obs_mask observation) = nrows (forward self observation)
             \<or> nrows (obs_mask observation) = 1 \<or> nrows (forward self observation) = 1)
          \<and> (ncols (obs_mask observation) = ncols (forward self observation)
             \<or> ncols (obs_mask observation) = 1 \<or> ncols (forward self observation) = 1)
          \<and> 0 < ncols (obs_mask observation) \<and> 0 < ncols (forward self observation)"
      by (rule QNetwork_predict_returns)
  next
    show "QNetwork_predict self observation = Inr acts \<longrightarrow>
      length acts = (if nrows (obs_mask observation) = 1
                         then nrows (forward self observation)
                         else nrows (obs_mask observation))
      \<and> (\<forall>i < (if nrows (obs_mask observation) = 1
                         then nrows (forward self observation)
                         else nrows (obs_mask observation)).
            acts ! i < (if ncols (obs_mask observation) = 1
                      then ncols (forward self observation)
                      else ncols (obs_mask observation))
        \<and> (\<forall>j < (if ncols (obs_mask observation) = 1
                   then ncols (forward self observation)
                   else ncols (obs_mask observation)).
              (if expanded (obs_mask observation) i j = 1
               then expanded (forward self observation) i j
               else real_of_int (mask_replace_coef self))
              \<le> (if expanded (obs_mask observation) i (acts ! i) = 1
                  then expanded (forward self observation) i (acts ! i)
                  else real_of_int (mask_replace_coef self)))
        \<and> (\<forall>j < acts ! i.
              (if expanded (obs_mask observation) i j = 1
               then expanded (forward self observation) i j
               else real_of_int (mask_replace_coef self))
              < (if expanded (obs_mask observation) i (acts ! i) = 1
                 then expanded (forward self observation) i (acts ! i)
                 else real_of_int (mask_replace_coef self)))
        \<and> ((\<exists>j < (if ncols (obs_mask observation) = 1
                    then ncols (forward self observation)
                    else ncols (obs_mask observation)).
               expanded (obs_mask observation) i j = 1
               \<and> real_of_int (mask_replace_coef self) < expanded (forward self observation) i j)
            \<longrightarrow> expanded (obs_mask observation) i (acts ! i) = 1)
        \<and> ((\<forall>j < (if ncols (obs_mask observation) = 1
                    then ncols (forward self observation)
                    else ncols (obs_mask observation)).
               expanded (obs_mask observation) i j = 1
               \<longrightarrow> expanded (forward self observation) i j < real_of_int (mask_replace_coef self))
            \<and> (\<exists>j < (if ncols (obs_mask observation) = 1
                       then ncols (forward self observation)
                       else ncols (obs_mask observation)).
                  expanded (obs_mask observation) i j \<noteq> 1)
            \<longrightarrow> expanded (obs_mask observation) i (acts ! i) \<noteq> 1))"
    proof (rule impI, rule conjI)
      assume p: "QNetwork_predict self observation = Inr acts"
      show "length acts = (if nrows (obs_mask observation) = 1
                         then nrows (forward self observation)
                         else nrows (obs_mask observation))"
        by (rule QNetwork_predict_Inr(1) [OF p])
      show "\<forall>i < (if nrows (obs_mask observation) = 1
                         then nrows (forward self observation)
                         else nrows (obs_mask observation)).
            acts ! i < (if ncols (obs_mask observation) = 1
                      then ncols (forward self observation)
                      else ncols (obs_mask observation))
        \<and> (\<forall>j < (if ncols (obs_mask observation) = 1
                   then ncols (forward self observation)
                   else ncols (obs_mask observation)).
              (if expanded (obs_mask observation) i j = 1
               then expanded (forward self observation) i j
               else real_of_int (mask_replace_coef self))
              \<le> (if expanded (obs_mask observation) i (acts ! i) = 1
                  then expanded (forward self observation) i (acts ! i)
                  else real_of_int (mask_replace_coef self)))
        \<and> (\<forall>j < acts ! i.
              (if expanded (obs_mask observation) i j = 1
               then expanded (forward self observation) i j
               else real_of_int (mask_replace_coef self))
              < (if expanded (obs_mask observation) i (acts ! i) = 1
                 then expanded (forward self observation) i (acts ! i)
                 else real_of_int (mask_replace_coef self)))
        \<and> ((\<exists>j < (if ncols (obs_mask observation) = 1
                    then ncols (forward self observation)
                    else ncols (obs_mask observation)).
               expanded (obs_mask observation) i j = 1
               \<and> real_of_int (mask_replace_coef self) < expanded (forward self observation) i j)
            \<longrightarrow> expanded (obs_mask observation) i (acts ! i) = 1)
        \<and> ((\<forall>j < (if ncols (obs_mask observation) = 1
                    then ncols (forward self observation)
                    else ncols (obs_mask observation)).
               expanded (obs_mask observation) i j = 1
               \<longrightarrow> expanded (forward self observation) i j < real_of_int (mask_replace_coef self))
            \<and> (\<exists>j < (if ncols (obs_mask observation) = 1
                       then ncols (forward self observation)
                       else ncols (obs_mask observation)).
                  expanded (obs_mask observation) i j \<noteq> 1)
            \<longrightarrow> expanded (obs_mask observation) i (acts ! i) \<noteq> 1)"
      proof (rule allI, rule impI)
        fix i
        assume i: "i < (if nrows (obs_mask observation) = 1
                         then nrows (forward self observation)
                         else nrows (obs_mask observation))"
        from QNetwork_predict_Inr(3) [OF p] i
        have am: "argmax (map (\<lambda>j. if expanded (obs_mask observation) i j = 1
                                    then expanded (forward self observation) i j
                                    else real_of_int (mask_replace_coef self))
                    [0..<(if ncols (obs_mask observation) = 1
                          then ncols (forward self observation)
                          else ncols (obs_mask observation))]) = Inr (acts ! i)"
          by blast
        note g = greedy_row [OF am]
        show "acts ! i < (if ncols (obs_mask observation) = 1
                      then ncols (forward self observation)
                      else ncols (obs_mask observation))
        \<and> (\<forall>j < (if ncols (obs_mask observation) = 1
                   then ncols (forward self observation)
                   else ncols (obs_mask observation)).
              (if expanded (obs_mask observation) i j = 1
               then expanded (forward self observation) i j
               else real_of_int (mask_replace_coef self))
              \<le> (if expanded (obs_mask observation) i (acts ! i) = 1
                  then expanded (forward self observation) i (acts ! i)
                  else real_of_int (mask_replace_coef self)))
        \<and> (\<forall>j < acts ! i.
              (if expanded (obs_mask observation) i j = 1
               then expanded (forward self observation) i j
               else real_of_int (mask_replace_coef self))
              < (if expanded (obs_mask observation) i (acts ! i) = 1
                 then expanded (forward self observation) i (acts ! i)
                 else real_of_int (mask_replace_coef self)))
        \<and> ((\<exists>j < (if ncols (obs_mask observation) = 1
                    then ncols (forward self observation)
                    else ncols (obs_mask observation)).
               expanded (obs_mask observation) i j = 1
               \<and> real_of_int (mask_replace_coef self) < expanded (forward self observation) i j)
            \<longrightarrow> expanded (obs_mask observation) i (acts ! i) = 1)
        \<and> ((\<forall>j < (if ncols (obs_mask observation) = 1
                    then ncols (forward self observation)
                    else ncols (obs_mask observation)).
               expanded (obs_mask observation) i j = 1
               \<longrightarrow> expanded (forward self observation) i j < real_of_int (mask_replace_coef self))
            \<and> (\<exists>j < (if ncols (obs_mask observation) = 1
                       then ncols (forward self observation)
                       else ncols (obs_mask observation)).
                  expanded (obs_mask observation) i j \<noteq> 1)
            \<longrightarrow> expanded (obs_mask observation) i (acts ! i) \<noteq> 1)"
          using g by simp
      qed
    qed
  qed
next
  show "QNetwork_predict \<lparr> forward = \<lambda>_. th_tensor [[- 20, - 16]],
                         mask_replace_coef = default_mask_replace_coef \<rparr>
        \<lparr> obs_bin = (), obs_mask = th_tensor [[0, 1]] \<rparr> = Inr [0]"
    by (simp add: QNetwork_predict_def th_where_def broadcast_dim_def expanded_def
        tensor_eq_def th_tensor_def argmax_dim1_def tensor_row_def argmax_def
        default_mask_replace_coef_def upt_rec)
next
  show "QNetwork_predict \<lparr> forward = \<lambda>_. th_tensor [[- 20, - 15]],
                         mask_replace_coef = default_mask_replace_coef \<rparr>
        \<lparr> obs_bin = (), obs_mask = th_tensor [[0, 1]] \<rparr> = Inr [0]"
    by (simp add: QNetwork_predict_def th_where_def broadcast_dim_def expanded_def
        tensor_eq_def th_tensor_def argmax_dim1_def tensor_row_def argmax_def
        default_mask_replace_coef_def upt_rec)
qed

theorem masked_greedy_action_witness:
  "QNetwork_predict
     \<lparr> forward = \<lambda>_. th_tensor [[1, 5, 3], [9, 2, 0]], mask_replace_coef = - 15 \<rparr>
     \<lparr> obs_bin = (), obs_mask = th_tensor [[1, 0, 1]] \<rparr> = Inr [2, 0]
   \<and> expanded (th_tensor [[1, 0, 1]]) 0 2 = 1
   \<and> expanded (th_tensor [[1, 0, 1]]) 1 0 = 1
   \<and> QNetwork_predict
       \<lparr> forward = \<lambda>_. th_tensor [[- 20, - 16]], mask_replace_coef = - 15 \<rparr>
       \<lparr> obs_bin = (), obs_mask = th_tensor [[0, 1]] \<rparr> = Inr [0]
   \<and> expanded (th_tensor [[0, 1]]) 0 0 \<noteq> 1"
proof -
  define self :: "unit q_network" where
    "self = \<lparr> forward = \<lambda>_. th_tensor [[1, 5, 3], [9, 2, 0]], mask_replace_coef = - 15 \<rparr>"
  define observation where
    "observation = \<lparr> obs_bin = (), obs_mask = th_tensor [[1, 0, 1]] \<rparr>"
  have p: "QNetwork_predict self observation = Inr [2, 0]"
    by (simp add: self_def observation_def QNetwork_predict_def th_where_def
        broadcast_dim_def expanded_def tensor_eq_def th_tensor_def argmax_dim1_def tensor_row_def
        argmax_def upt_rec)
  have shape: "nrows (obs_mask observation) = 1" "ncols (obs_mask observation) = 3"
    "nrows (forward self observation) = 2" "ncols (forward self observation) = 3"
    "real_of_int (mask_replace_coef self) = - 15"
    by (simp_all add: self_def observation_def th_tensor_def)
  have legal: "expanded (obs_mask observation) i 0 = 1
      \<and> - 15 < expanded (forward self observation) i 0" if "i < 2" for i
    using that by (cases i) (simp_all add: self_def observation_def th_tensor_def expanded_def)
  from masked_greedy_action [where self = self and observation = observation
      and acts = "[2, 0]"] p
  have "\<forall>i < 2. (\<exists>j < 3. expanded (obs_mask observation) i j = 1
             \<and> - 15 < expanded (forward self observation) i j)
           \<longrightarrow> expanded (obs_mask observation) i ([2, 0] ! i) = 1"
    by (simp add: Let_def shape)
  with legal have "\<forall>i < 2. expanded (obs_mask observation) i ([2, 0] ! i) = 1"
    by (metis zero_less_numeral)
  then have a: "expanded (obs_mask observation) 0 2 = 1" "expanded (obs_mask observation) 1 0 = 1"
    by (auto dest: spec [of _ 0] spec [of _ 1])
  define low :: "unit q_network" where
    "low = \<lparr> forward = \<lambda>_. th_tensor [[- 20, - 16]], mask_replace_coef = - 15 \<rparr>"
  define ob where "ob = \<lparr> obs_bin = (), obs_mask = th_tensor [[0, 1]] \<rparr>"
  have q: "QNetwork_predict low ob = Inr [0]"
    by (simp add: low_def ob_def QNetwork_predict_def th_where_def
        broadcast_dim_def expanded_def tensor_eq_def th_tensor_def argmax_dim1_def tensor_row_def
        argmax_def upt_rec)
  have shape': "nrows (obs_mask ob) = 1" "ncols (obs_mask ob) = 2"
    "nrows (forward low ob) = 1" "ncols (forward low ob) = 2"
    "real_of_int (mask_replace_coef low) = - 15"
    by (simp_all add: low_def ob_def th_tensor_def)
  have below: "\<forall>j < 2. expanded (obs_mask ob) 0 j = 1 \<longrightarrow> expanded (forward low ob) 0 j < - 15"
    by (simp add: low_def ob_def th_tensor_def expanded_def less_Suc_eq numeral_2_eq_2)
  have illegal: "\<exists>j < 2. expanded (obs_mask ob) 0 j \<noteq> 1"
    by (rule exI [of _ 0]) (simp add: ob_def th_tensor_def expanded_def)
  from masked_greedy_action [where self = low and observation = ob and acts = "[0]"] q
  have "(\<forall>j < 2. expanded (obs_mask ob) 0 j = 1 \<longrightarrow> expanded (forward low ob) 0 j < - 15)
        \<and> (\<exists>j < 2. expanded (obs_mask ob) 0 j \<noteq> 1)
      \<longrightarrow> expanded (obs_mask ob) 0 ([0] ! 0) \<noteq> 1"
    by (simp add: Let_def shape')
  with below illegal have b: "expanded (obs_mask ob) 0 0 \<noteq> 1"
    by simp
  from p a q b show ?thesis
    by (simp add: self_def observation_def low_def ob_def)
qed

end
